theory Spec2Isabelle
  imports Main "HOL-Library.Word"
begin

section \<open>Values that cross the storage boundary\<close>

text \<open>
  The address book of \<^verbatim>\<open>src/tarodb/addrs.go\<close> keeps receive addresses and the
  events of the transactions that fund them in a relational store.  Byte strings are
  lists of 8-bit words, Go's fixed-width integers are words of their width, and a
  nullable column or a nil-able slice or pointer is an \<open>option\<close>.
\<close>

type_synonym byte = "8 word"
type_synonym bytes = "byte list"

text \<open>
  Errors are values.  \<open>Wrapped m e\<close> is \<^verbatim>\<open>fmt.Errorf("m: %w", e)\<close>; the two
  panics are the run-time panics of an out-of-range index and of a nil pointer.
\<close>

datatype error =
    ErrNoRows
  | ErrNoAddr
  | ConstraintError string
  | DecodeError string
  | EncodeError string
  | CommitmentError
  | Wrapped string error
  | PanicIndexOutOfRange
  | PanicNilDereference

fun cause :: "error \<Rightarrow> error" where
  "cause (Wrapped m e) = cause e"
| "cause e = e"

definition is_constraint :: "error \<Rightarrow> bool" where
  "is_constraint e = (case cause e of ConstraintError m \<Rightarrow> True | _ \<Rightarrow> False)"

definition is_panic :: "error \<Rightarrow> bool" where
  "is_panic e = (e = PanicIndexOutOfRange \<or> e = PanicNilDereference)"

text \<open>
  \<^verbatim>\<open>time.Time\<close>: the value of \<^verbatim>\<open>t.Unix()\<close> (a signed 64-bit count of seconds) and
  the nanoseconds within the second.  The zero time is January 1 of year 1, that is
  second \<open>-62135596800\<close>.
\<close>

record Time =
  unix :: "64 word"
  nsec :: nat

definition zero_time :: Time where
  "zero_time = \<lparr>unix = - 62135596800, nsec = 0\<rparr>"

definition IsZero :: "Time \<Rightarrow> bool" where
  "IsZero t = (unix t = - 62135596800 \<and> nsec t = 0)"

definition time_Unix :: "64 word \<Rightarrow> nat \<Rightarrow> Time" where
  "time_Unix sec ns = \<lparr>unix = sec, nsec = ns\<rparr>"

definition MaxInt64 :: "64 word" where
  "MaxInt64 = 9223372036854775807"

text \<open>
  Modelled from the spec: the TIMESTAMP columns of the store (the driver and the
  queries are not in the sources).  The spec lets a stored time agree with the
  written one to the second only, so a column holds the seconds of the time, ordered
  as signed numbers, and a time read back has no nanoseconds.
\<close>

type_synonym timestamp = "64 word"

definition to_db_time :: "Time \<Rightarrow> timestamp" where
  "to_db_time t = unix t"

definition from_db_time :: "timestamp \<Rightarrow> Time" where
  "from_db_time u = \<lparr>unix = u, nsec = 0\<rparr>"

text \<open>\<^verbatim>\<open>sql.NullTime\<close> read as its \<^verbatim>\<open>Time\<close> field: the zero time when NULL.\<close>

definition NullTime_Time :: "timestamp option \<Rightarrow> Time" where
  "NullTime_Time n = (case n of None \<Rightarrow> zero_time | Some u \<Rightarrow> from_db_time u)"

text \<open>
  \<^verbatim>\<open>btcec.PublicKey\<close> is a pair of field values.  Its codecs are library code and
  are parameters of the model (see \<open>ext\<close> below).
\<close>

datatype PublicKey = PublicKey (key_x: nat) (key_y: nat)

record KeyDescriptor =
  Family :: "32 word"
  Index :: "32 word"
  PubKey :: PublicKey

record OutPoint =
  Hash :: bytes
  OutIndex :: "32 word"

record Genesis =
  FirstPrevOut :: OutPoint
  Tag :: string
  Metadata :: bytes
  OutputIndex :: "32 word"
  Type :: "8 word"

text \<open>
  \<^verbatim>\<open>address.AddrWithKeyInfo\<close>, with the embedded \<^verbatim>\<open>address.Taro\<close> and the
  \<^verbatim>\<open>asset.TweakedScriptKey\<close> flattened (\<open>RawKey\<close> and \<open>Tweak\<close> are the fields of
  \<^verbatim>\<open>ScriptKeyTweak\<close>).  \<open>ChainParams\<close> stands for the pointer to the chain
  parameters.
\<close>

record AddrWithKeyInfo =
  Version :: "8 word"
  AssetGenesis :: Genesis
  FamilyKey :: "PublicKey option"
  ScriptKey :: PublicKey
  InternalKey :: PublicKey
  Amount :: "64 word"
  ChainParams :: string
  RawKey :: KeyDescriptor
  Tweak :: bytes
  InternalKeyDesc :: KeyDescriptor
  TaprootOutputKey :: PublicKey
  CreationTime :: Time
  ManagedAfter :: Time

text \<open>\<^verbatim>\<open>address.Status\<close>, an unsigned 8-bit code; \<^verbatim>\<open>int16(status)\<close> keeps its value.\<close>

type_synonym Status = "8 word"

text \<open>
  Modelled from the spec: the constants of \<^verbatim>\<open>address.Status\<close> (their declaration is
  not in the sources).  The spec orders them
  \<open>TransactionDetected < TransactionConfirmed < Completed\<close>.
\<close>

definition StatusTransactionDetected :: Status where
  "StatusTransactionDetected = 0"

definition StatusTransactionConfirmed :: Status where
  "StatusTransactionConfirmed = 1"

definition StatusCompleted :: Status where
  "StatusCompleted = 2"

record Event =
  ID :: nat
  EventCreationTime :: Time
  Addr :: AddrWithKeyInfo
  EventStatus :: Status
  Outpoint :: OutPoint
  Amt :: "64 word"
  EventInternalKey :: PublicKey
  TapscriptSibling :: "bytes option"
  ConfirmationHeight :: "32 word"
  HasProof :: bool

text \<open>\<^verbatim>\<open>lndclient.Transaction\<close>; an output detail is a pointer and may be nil.\<close>

datatype MsgTx = MsgTx (tx_content: bytes)

record OutputDetail =
  DetailAmount :: "64 word"
  IsOurAddress :: bool

record Transaction =
  Tx :: MsgTx
  Confirmations :: "32 word"
  BlockHash :: string
  BlockHeight :: "32 word"
  OutputDetails :: "OutputDetail option list"

record QueryParams =
  CreatedAfter :: Time
  CreatedBefore :: Time
  Limit :: "32 word"
  Offset :: "32 word"
  UnmanagedOnly :: bool

record EventQueryParams =
  AddrTaprootOutputKey :: "bytes option"
  StatusFrom :: "Status option"
  StatusTo :: "Status option"

datatype TaroCommitment = TaroCommitment bytes

text \<open>
  The functions of other libraries and packages that the address book calls and that
  the sources do not hold: the key codecs of btcec and schnorr, the hash parsers of
  chainhash, the transaction hash and serialisation of wire, the outpoint encoder and
  the commitment of the address.  Every theorem below holds for all of them, under
  the hypotheses it states.
\<close>

record ext =
  ParsePubKey :: "bytes \<Rightarrow> PublicKey option"
  SerializeCompressed :: "PublicKey \<Rightarrow> bytes"
  SchnorrParsePubKey :: "bytes \<Rightarrow> PublicKey option"
  SchnorrSerializePubKey :: "PublicKey \<Rightarrow> bytes"
  NewHashFromStr :: "string \<Rightarrow> bytes option"
  NewHash :: "bytes \<Rightarrow> bytes option"
  TxHash :: "MsgTx \<Rightarrow> bytes"
  Serialize :: "MsgTx \<Rightarrow> bytes option"
  encodeOutpoint :: "OutPoint \<Rightarrow> bytes option"
  AddrTaroCommitment :: "AddrWithKeyInfo \<Rightarrow> TaroCommitment option"
  TapscriptRoot :: "TaroCommitment \<Rightarrow> bytes option \<Rightarrow> bytes"


section \<open>The store\<close>

text \<open>
  Modelled from the spec: the tables behind the \<^verbatim>\<open>AddrBook\<close> interface.  The sources
  hold the schema of \<^verbatim>\<open>addrs\<close> only; the other tables and every query are described by
  the spec and by the interface's comments.  A table is the list of its rows in
  insertion order; rows are never deleted and the primary key of a row is its
  position, counted from 1.
\<close>

fun find_id :: "('a \<Rightarrow> bool) \<Rightarrow> 'a list \<Rightarrow> nat option" where
  "find_id P [] = None"
| "find_id P (x # xs) = (if P x then Some 1 else map_option Suc (find_id P xs))"

definition row_by_id :: "'a list \<Rightarrow> nat \<Rightarrow> 'a option" where
  "row_by_id xs i = (if 0 < i \<and> i \<le> length xs then Some (xs ! (i - 1)) else None)"

definition set_row :: "'a list \<Rightarrow> nat \<Rightarrow> 'a \<Rightarrow> 'a list" where
  "set_row xs i x = (if 0 < i then xs[i - 1 := x] else xs)"

record InternalKeyRow =
  raw_key :: bytes
  key_family :: "32 word"
  key_index :: "32 word"

record ScriptKeyRow =
  internal_key_id :: nat
  tweaked_script_key :: bytes
  tweak :: bytes

record GenesisAssetRow =
  genesis_point_id :: nat
  asset_tag :: string
  meta_data :: bytes
  output_index :: "32 word"
  genesis_asset_type :: "8 word"

text \<open>The columns of \<^verbatim>\<open>addrs\<close>, as the schema in the sources declares them.\<close>

record AddrRow =
  version :: "16 word"
  genesis_asset_id :: nat
  fam_key :: "bytes option"
  script_key_id :: nat
  taproot_key_id :: nat
  taproot_output_key :: bytes
  amount :: "64 word"
  asset_type :: "16 word"
  creation_time :: timestamp
  managed_from :: "timestamp option"

record ChainTxRow =
  txid :: bytes
  raw_tx :: bytes
  block_height :: "32 word option"
  block_hash :: "bytes option"

record ManagedUtxoRow =
  outpoint :: bytes
  amt_sats :: "64 word"
  utxo_internal_key_id :: nat
  tapscript_sibling :: "bytes option"
  taro_root :: bytes
  txn_id :: nat

record AddrEventRow =
  event_creation_time :: timestamp
  addr_id :: nat
  status :: "16 word"
  chain_txn_id :: nat
  chain_txn_output_index :: "32 word"
  managed_utxo_id :: nat
  asset_proof_id :: "nat option"
  asset_id :: "nat option"

record AssetProofRow =
  proof_script_key :: bytes
  ProofID :: nat
  AssetID :: nat

record store =
  genesis_points :: "OutPoint list"
  genesis_assets :: "GenesisAssetRow list"
  internal_keys :: "InternalKeyRow list"
  script_keys :: "ScriptKeyRow list"
  addrs :: "AddrRow list"
  chain_txns :: "ChainTxRow list"
  managed_utxos :: "ManagedUtxoRow list"
  addr_events :: "AddrEventRow list"
  asset_proofs :: "AssetProofRow list"

definition empty_store :: store where
  "empty_store = \<lparr>genesis_points = [], genesis_assets = [], internal_keys = [],
     script_keys = [], addrs = [], chain_txns = [], managed_utxos = [],
     addr_events = [], asset_proofs = []\<rparr>"

text \<open>
  Modelled from the spec: the transaction executor (section 4.1; its code is not in
  the sources).  The body runs against the store; its writes are kept when it
  returns a value and dropped when it returns an error.
\<close>

definition ExecTx :: "store \<Rightarrow> (store \<Rightarrow> error + store \<times> 'a) \<Rightarrow> store \<times> (error + 'a)" where
  "ExecTx s body = (case body s of Inl e \<Rightarrow> (s, Inl e) | Inr (s', v) \<Rightarrow> (s', Inr v))"

text \<open>\<^verbatim>\<open>fmt.Errorf("m: %w", err)\<close> on the error branch of a result.\<close>

definition wrap :: "string \<Rightarrow> error + 'a \<Rightarrow> error + 'a" where
  "wrap m r = (case r of Inl e \<Rightarrow> Inl (Wrapped m e) | Inr v \<Rightarrow> Inr v)"

definition bindE :: "error + 'a \<Rightarrow> ('a \<Rightarrow> error + 'b) \<Rightarrow> error + 'b" where
  "bindE r f = (case r of Inl e \<Rightarrow> Inl e | Inr v \<Rightarrow> f v)"

definition decode :: "string \<Rightarrow> 'a option \<Rightarrow> error + 'a" where
  "decode m r = (case r of None \<Rightarrow> Inl (DecodeError m) | Some v \<Rightarrow> Inr v)"

fun mapE :: "('a \<Rightarrow> error + 'b) \<Rightarrow> 'a list \<Rightarrow> error + 'b list" where
  "mapE f [] = Inr []"
| "mapE f (x # xs) = bindE (f x) (\<lambda>y. bindE (mapE f xs) (\<lambda>ys. Inr (y # ys)))"

subsection \<open>Genesis records\<close>

text \<open>
  Modelled from the spec: \<^verbatim>\<open>upsertGenesisPoint\<close>, \<^verbatim>\<open>upsertGenesis\<close> and
  \<^verbatim>\<open>fetchGenesis\<close> (an external collaborator that resolves or creates the genesis
  asset record of an address and fetches it by id).  A genesis point is found by its
  outpoint and a genesis asset by its content, or else appended.
\<close>

definition upsertGenesisPoint :: "store \<Rightarrow> OutPoint \<Rightarrow> error + store \<times> nat" where
  "upsertGenesisPoint s prevOut =
     (case find_id (\<lambda>p. p = prevOut) (genesis_points s) of
        Some i \<Rightarrow> Inr (s, i)
      | None \<Rightarrow> Inr (s\<lparr>genesis_points := genesis_points s @ [prevOut]\<rparr>,
                     Suc (length (genesis_points s))))"

definition genesis_row :: "nat \<Rightarrow> Genesis \<Rightarrow> GenesisAssetRow" where
  "genesis_row pid g = \<lparr>genesis_point_id = pid, asset_tag = Tag g, meta_data = Metadata g,
     output_index = OutputIndex g, genesis_asset_type = Type g\<rparr>"

definition upsertGenesis :: "store \<Rightarrow> nat \<Rightarrow> Genesis \<Rightarrow> error + store \<times> nat" where
  "upsertGenesis s pid g =
     (case find_id (\<lambda>r. r = genesis_row pid g) (genesis_assets s) of
        Some i \<Rightarrow> Inr (s, i)
      | None \<Rightarrow> Inr (s\<lparr>genesis_assets := genesis_assets s @ [genesis_row pid g]\<rparr>,
                     Suc (length (genesis_assets s))))"

definition fetchGenesis :: "store \<Rightarrow> nat \<Rightarrow> error + Genesis" where
  "fetchGenesis s gid =
     (case row_by_id (genesis_assets s) gid of
        None \<Rightarrow> Inl ErrNoRows
      | Some r \<Rightarrow>
          (case row_by_id (genesis_points s) (genesis_point_id r) of
             None \<Rightarrow> Inl ErrNoRows
           | Some p \<Rightarrow> Inr \<lparr>FirstPrevOut = p, Tag = asset_tag r, Metadata = meta_data r,
                            OutputIndex = output_index r, Type = genesis_asset_type r\<rparr>))"

subsection \<open>Key registry\<close>

text \<open>
  Modelled from the spec (section 4.2): \<^verbatim>\<open>UpsertInternalKey\<close> inserts a key whose
  serialised bytes are new and otherwise returns the id of the existing row, whose
  family and index it overwrites; \<^verbatim>\<open>UpsertScriptKey\<close> does the same keyed by the
  tweaked key bytes.
\<close>

definition UpsertInternalKey :: "store \<Rightarrow> InternalKeyRow \<Rightarrow> error + store \<times> nat" where
  "UpsertInternalKey s arg =
     (case find_id (\<lambda>r. raw_key r = raw_key arg) (internal_keys s) of
        Some i \<Rightarrow> Inr (s\<lparr>internal_keys := set_row (internal_keys s) i arg\<rparr>, i)
      | None \<Rightarrow> Inr (s\<lparr>internal_keys := internal_keys s @ [arg]\<rparr>,
                     Suc (length (internal_keys s))))"

definition UpsertScriptKey :: "store \<Rightarrow> ScriptKeyRow \<Rightarrow> error + store \<times> nat" where
  "UpsertScriptKey s arg =
     (case find_id (\<lambda>r. tweaked_script_key r = tweaked_script_key arg) (script_keys s) of
        Some i \<Rightarrow> Inr (s\<lparr>script_keys := set_row (script_keys s) i arg\<rparr>, i)
      | None \<Rightarrow> Inr (s\<lparr>script_keys := script_keys s @ [arg]\<rparr>,
                     Suc (length (script_keys s))))"


subsection \<open>Address rows\<close>

text \<open>
  \<^verbatim>\<open>sqlite.FetchAddrsRow\<close> and \<^verbatim>\<open>sqlite.FetchAddrByTaprootOutputKeyRow\<close>: an address
  row joined with its script key, the internal key of the script key, and its
  taproot internal key.  The fields are those the sources read.
\<close>

record Addresses =
  dbVersion :: "16 word"
  dbGenesisAssetID :: nat
  dbFamKey :: "bytes option"
  dbTaprootOutputKey :: bytes
  dbAmount :: "64 word"
  dbAssetType :: "16 word"
  dbCreationTime :: timestamp
  dbManagedFrom :: "timestamp option"
  dbTweakedScriptKey :: bytes
  dbScriptKeyTweak :: bytes
  dbRawScriptKey :: bytes
  dbScriptKeyFamily :: "32 word"
  dbScriptKeyIndex :: "32 word"
  dbRawTaprootKey :: bytes
  dbTaprootKeyFamily :: "32 word"
  dbTaprootKeyIndex :: "32 word"

definition join_addr :: "store \<Rightarrow> AddrRow \<Rightarrow> Addresses option" where
  "join_addr s r =
     (case row_by_id (script_keys s) (script_key_id r) of
        None \<Rightarrow> None
      | Some sk \<Rightarrow>
     (case row_by_id (internal_keys s) (internal_key_id sk) of
        None \<Rightarrow> None
      | Some rk \<Rightarrow>
     (case row_by_id (internal_keys s) (taproot_key_id r) of
        None \<Rightarrow> None
      | Some tk \<Rightarrow>
          Some \<lparr>dbVersion = version r, dbGenesisAssetID = genesis_asset_id r,
                dbFamKey = fam_key r, dbTaprootOutputKey = taproot_output_key r,
                dbAmount = amount r, dbAssetType = asset_type r,
                dbCreationTime = creation_time r, dbManagedFrom = managed_from r,
                dbTweakedScriptKey = tweaked_script_key sk, dbScriptKeyTweak = tweak sk,
                dbRawScriptKey = raw_key rk, dbScriptKeyFamily = key_family rk,
                dbScriptKeyIndex = key_index rk, dbRawTaprootKey = raw_key tk,
                dbTaprootKeyFamily = key_family tk, dbTaprootKeyIndex = key_index tk\<rparr>)))"

text \<open>
  \<^verbatim>\<open>InsertAddr\<close>.  The constraints are those of the schema in the sources:
  \<^verbatim>\<open>taproot_output_key BLOB NOT NULL UNIQUE CHECK(length(taproot_output_key) = 32)\<close>.
  A new row has no \<^verbatim>\<open>managed_from\<close>.
\<close>

definition InsertAddr :: "store \<Rightarrow> AddrRow \<Rightarrow> error + store \<times> nat" where
  "InsertAddr s arg =
     (if length (taproot_output_key arg) \<noteq> 32 then
        Inl (ConstraintError ''CHECK constraint failed: length(taproot_output_key) = 32'')
      else if \<exists>r \<in> set (addrs s). taproot_output_key r = taproot_output_key arg then
        Inl (ConstraintError ''UNIQUE constraint failed: addrs.taproot_output_key'')
      else Inr (s\<lparr>addrs := addrs s @ [arg\<lparr>managed_from := None\<rparr>]\<rparr>, Suc (length (addrs s))))"

text \<open>
  Modelled from the spec (section 4.3): \<^verbatim>\<open>FetchAddrs\<close> returns, in storage order, the
  rows created within the two bounds (both inclusive) that are unmanaged when only
  those are asked for, skips \<open>NumOffset\<close> of them and returns at most \<open>NumLimit\<close>; a
  negative limit does not limit, as the comment in the sources says of \<open>-1\<close>.
\<close>

definition addr_matches :: "Time \<Rightarrow> Time \<Rightarrow> bool \<Rightarrow> AddrRow \<Rightarrow> bool" where
  "addr_matches createdAfter createdBefore unmanagedOnly r =
     (word_sle (to_db_time createdAfter) (creation_time r) \<and>
      word_sle (creation_time r) (to_db_time createdBefore) \<and>
      (\<not> unmanagedOnly \<or> managed_from r = None))"

definition limit_offset :: "32 word \<Rightarrow> 32 word \<Rightarrow> 'a list \<Rightarrow> 'a list" where
  "limit_offset numOffset numLimit xs =
     (let ys = drop (nat (sint numOffset)) xs
      in if sint numLimit < 0 then ys else take (nat (sint numLimit)) ys)"

definition FetchAddrs ::
  "store \<Rightarrow> Time \<Rightarrow> Time \<Rightarrow> 32 word \<Rightarrow> 32 word \<Rightarrow> bool \<Rightarrow> error + Addresses list" where
  "FetchAddrs s createdAfter createdBefore numOffset numLimit unmanagedOnly =
     Inr (limit_offset numOffset numLimit
            (List.map_filter (join_addr s)
               (filter (addr_matches createdAfter createdBefore unmanagedOnly) (addrs s))))"

text \<open>
  \<^verbatim>\<open>FetchAddrByTaprootOutputKey\<close> "returns a single address based on its Taproot
  output key or a sql.ErrNoRows error if no such address exists" (the interface in
  the sources).
\<close>

definition FetchAddrByTaprootOutputKey :: "store \<Rightarrow> bytes \<Rightarrow> error + Addresses" where
  "FetchAddrByTaprootOutputKey s k =
     (case find_id (\<lambda>r. taproot_output_key r = k) (addrs s) of
        None \<Rightarrow> Inl ErrNoRows
      | Some i \<Rightarrow>
          (case join_addr s (addrs s ! (i - 1)) of
             None \<Rightarrow> Inl ErrNoRows
           | Some j \<Rightarrow> Inr j))"

text \<open>
  Modelled from the spec: \<^verbatim>\<open>SetAddrManaged\<close> writes the managed-from time of the
  address with the given taproot output key, whether or not it was set before.
\<close>

definition SetAddrManaged_db :: "store \<Rightarrow> timestamp option \<Rightarrow> bytes \<Rightarrow> error + store \<times> unit" where
  "SetAddrManaged_db s managedFrom k =
     Inr (s\<lparr>addrs := map (\<lambda>r. if taproot_output_key r = k
                                then r\<lparr>managed_from := managedFrom\<rparr> else r) (addrs s)\<rparr>, ())"

subsection \<open>Chain transactions, managed UTXOs, events and proofs\<close>

text \<open>
  Modelled from the spec: \<^verbatim>\<open>UpsertChainTx\<close> is an insert-or-update keyed by the
  transaction id.  On an existing row it writes the block fields that the argument
  gives and leaves the others ("we only update fields that aren't nil in the upsert",
  says the caller in the sources).
\<close>

definition coalesce :: "'a option \<Rightarrow> 'a option \<Rightarrow> 'a option" where
  "coalesce new old = (case new of None \<Rightarrow> old | Some v \<Rightarrow> Some v)"

definition UpsertChainTx :: "store \<Rightarrow> ChainTxRow \<Rightarrow> error + store \<times> nat" where
  "UpsertChainTx s arg =
     (case find_id (\<lambda>r. txid r = txid arg) (chain_txns s) of
        Some i \<Rightarrow>
          (let old = chain_txns s ! (i - 1)
           in Inr (s\<lparr>chain_txns := set_row (chain_txns s) i
                        (old\<lparr>block_height := coalesce (block_height arg) (block_height old),
                             block_hash := coalesce (block_hash arg) (block_hash old)\<rparr>)\<rparr>, i))
      | None \<Rightarrow> Inr (s\<lparr>chain_txns := chain_txns s @ [arg]\<rparr>, Suc (length (chain_txns s))))"

text \<open>\<^verbatim>\<open>RawManagedUTXO\<close>, the argument of \<^verbatim>\<open>UpsertManagedUTXO\<close>.\<close>

record RawManagedUTXO =
  utxoRawKey :: bytes
  utxoOutpoint :: bytes
  AmtSats :: "64 word"
  utxoTapscriptSibling :: "bytes option"
  TaroRoot :: bytes
  TxnID :: nat

text \<open>
  Modelled from the spec: \<^verbatim>\<open>UpsertManagedUTXO\<close> is keyed by the outpoint and refers
  to the owning internal key, found by its raw bytes (a UTXO whose key is unknown
  violates the reference).  On an existing row "a newly-visible tapscript sibling or
  updated commitment root overwrites the previous one"; an absent sibling overwrites
  nothing.
\<close>

definition UpsertManagedUTXO :: "store \<Rightarrow> RawManagedUTXO \<Rightarrow> error + store \<times> nat" where
  "UpsertManagedUTXO s arg =
     (case find_id (\<lambda>r. raw_key r = utxoRawKey arg) (internal_keys s) of
        None \<Rightarrow> Inl (ConstraintError ''NOT NULL constraint failed: managed_utxos.internal_key_id'')
      | Some kid \<Rightarrow>
     (case find_id (\<lambda>r. outpoint r = utxoOutpoint arg) (managed_utxos s) of
        Some i \<Rightarrow>
          (let old = managed_utxos s ! (i - 1)
           in Inr (s\<lparr>managed_utxos := set_row (managed_utxos s) i
                        (old\<lparr>tapscript_sibling :=
                               coalesce (utxoTapscriptSibling arg) (tapscript_sibling old),
                             taro_root := TaroRoot arg\<rparr>)\<rparr>, i))
      | None \<Rightarrow>
          Inr (s\<lparr>managed_utxos := managed_utxos s @
                    [\<lparr>outpoint = utxoOutpoint arg, amt_sats = AmtSats arg,
                      utxo_internal_key_id = kid,
                      tapscript_sibling = utxoTapscriptSibling arg,
                      taro_root = TaroRoot arg, txn_id = TxnID arg\<rparr>]\<rparr>,
               Suc (length (managed_utxos s)))))"

text \<open>\<^verbatim>\<open>UpsertAddrEvent\<close>, the argument of the query of the same name.\<close>

record UpsertAddrEvent =
  upTaprootOutputKey :: bytes
  upCreationTime :: Time
  upStatus :: "16 word"
  upTxid :: bytes
  upChainTxnOutputIndex :: "32 word"
  upManagedUtxoID :: nat
  upAssetProofID :: "nat option"
  upAssetID :: "nat option"

text \<open>
  Modelled from the spec: the check constraint of \<^verbatim>\<open>addr_events\<close> ("status must be
  one of the three valid codes"; the schema of that table is not in the sources).
\<close>

definition status_valid :: "16 word \<Rightarrow> bool" where
  "status_valid st =
     (st = ucast StatusTransactionDetected \<or> st = ucast StatusTransactionConfirmed \<or>
      st = ucast StatusCompleted)"

text \<open>
  Modelled from the spec: \<^verbatim>\<open>UpsertAddrEvent\<close>.  An event refers to its address and to
  its chain transaction, found by the taproot output key and by the transaction id;
  its identity is (address, transaction, output index).  A new identity inserts a
  row.  An existing one is updated in place: the status and the UTXO reference are
  overwritten, and the proof and asset references are written when the argument
  gives them.
\<close>

definition UpsertAddrEvent_db :: "store \<Rightarrow> UpsertAddrEvent \<Rightarrow> error + store \<times> nat" where
  "UpsertAddrEvent_db s arg =
     (if \<not> status_valid (upStatus arg) then
        Inl (ConstraintError ''CHECK constraint failed: status'')
      else
     (case find_id (\<lambda>r. taproot_output_key r = upTaprootOutputKey arg) (addrs s) of
        None \<Rightarrow> Inl (ConstraintError ''NOT NULL constraint failed: addr_events.addr_id'')
      | Some aid \<Rightarrow>
     (case find_id (\<lambda>r. txid r = upTxid arg) (chain_txns s) of
        None \<Rightarrow> Inl (ConstraintError ''NOT NULL constraint failed: addr_events.chain_txn_id'')
      | Some cid \<Rightarrow>
     (case find_id (\<lambda>r. addr_id r = aid \<and> chain_txn_id r = cid \<and>
                         chain_txn_output_index r = upChainTxnOutputIndex arg)
             (addr_events s) of
        Some i \<Rightarrow>
          (let old = addr_events s ! (i - 1)
           in Inr (s\<lparr>addr_events := set_row (addr_events s) i
                        (old\<lparr>status := upStatus arg,
                             managed_utxo_id := upManagedUtxoID arg,
                             asset_proof_id := coalesce (upAssetProofID arg) (asset_proof_id old),
                             asset_id := coalesce (upAssetID arg) (asset_id old)\<rparr>)\<rparr>, i))
      | None \<Rightarrow>
          Inr (s\<lparr>addr_events := addr_events s @
                    [\<lparr>event_creation_time = to_db_time (upCreationTime arg), addr_id = aid,
                      status = upStatus arg, chain_txn_id = cid,
                      chain_txn_output_index = upChainTxnOutputIndex arg,
                      managed_utxo_id = upManagedUtxoID arg,
                      asset_proof_id = upAssetProofID arg, asset_id = upAssetID arg\<rparr>]\<rparr>,
               Suc (length (addr_events s)))))))"

text \<open>
  \<^verbatim>\<open>sqlite.FetchAddrEventRow\<close>: an event row with the id and height of its chain
  transaction and, where its UTXO reference resolves, the amount, sibling and
  internal key of the UTXO.
\<close>

record AddrEvent =
  evCreationTime :: timestamp
  evStatus :: "16 word"
  evTxid :: bytes
  evOutputIndex :: "32 word"
  evAmtSats :: "64 word option"
  evInternalKey :: "bytes option"
  evTapscriptSibling :: "bytes option"
  evConfirmationHeight :: "32 word option"
  evAssetProofID :: "nat option"

text \<open>
  Modelled from the spec: \<^verbatim>\<open>FetchAddrEvent\<close> "returns a single address event based on
  its primary key" (the interface in the sources).
\<close>

definition FetchAddrEvent :: "store \<Rightarrow> nat \<Rightarrow> error + AddrEvent" where
  "FetchAddrEvent s i =
     (case row_by_id (addr_events s) i of
        None \<Rightarrow> Inl ErrNoRows
      | Some e \<Rightarrow>
     (case row_by_id (chain_txns s) (chain_txn_id e) of
        None \<Rightarrow> Inl ErrNoRows
      | Some c \<Rightarrow>
          (let u = row_by_id (managed_utxos s) (managed_utxo_id e);
               k = (case u of None \<Rightarrow> None
                    | Some ur \<Rightarrow> row_by_id (internal_keys s) (utxo_internal_key_id ur))
           in Inr \<lparr>evCreationTime = event_creation_time e, evStatus = status e,
                   evTxid = txid c, evOutputIndex = chain_txn_output_index e,
                   evAmtSats = map_option amt_sats u,
                   evInternalKey = map_option raw_key k,
                   evTapscriptSibling = (case u of None \<Rightarrow> None
                                         | Some ur \<Rightarrow> tapscript_sibling ur),
                   evConfirmationHeight = block_height c,
                   evAssetProofID = asset_proof_id e\<rparr>)))"

text \<open>\<^verbatim>\<open>sqlite.QueryEventIDsParams\<close> and \<^verbatim>\<open>sqlite.QueryEventIDsRow\<close>.\<close>

record AddrEventQuery =
  qStatusFrom :: "16 word"
  qStatusTo :: "16 word"
  AddrTaprootKey :: "bytes option"

record AddrEventID =
  EventID :: nat
  idTaprootOutputKey :: bytes

text \<open>
  Modelled from the spec (section 4.4): \<^verbatim>\<open>QueryEventIDs\<close> returns, by ascending
  primary id, the events whose status lies in the range and, when a key filter is
  given, whose address has that taproot output key.
\<close>

definition event_matches :: "store \<Rightarrow> AddrEventQuery \<Rightarrow> nat \<times> AddrEventRow \<Rightarrow> AddrEventID option" where
  "event_matches s q ie =
     (case row_by_id (addrs s) (addr_id (snd ie)) of
        None \<Rightarrow> None
      | Some a \<Rightarrow>
          if word_sle (qStatusFrom q) (status (snd ie)) \<and>
             word_sle (status (snd ie)) (qStatusTo q) \<and>
             (case AddrTaprootKey q of None \<Rightarrow> True | Some k \<Rightarrow> taproot_output_key a = k)
          then Some \<lparr>EventID = fst ie, idTaprootOutputKey = taproot_output_key a\<rparr>
          else None)"

definition QueryEventIDs :: "store \<Rightarrow> AddrEventQuery \<Rightarrow> error + AddrEventID list" where
  "QueryEventIDs s q =
     Inr (List.map_filter (event_matches s q)
            (zip [1 ..< Suc (length (addr_events s))] (addr_events s)))"


section \<open>The address book\<close>

text \<open>The functions of \<^verbatim>\<open>src/tarodb/addrs.go\<close>, in the order of the file.\<close>

definition insertInternalKey :: "ext \<Rightarrow> store \<Rightarrow> KeyDescriptor \<Rightarrow> error + store \<times> nat" where
  "insertInternalKey X a desc =
     UpsertInternalKey a \<lparr>raw_key = SerializeCompressed X (PubKey desc),
                          key_family = Family desc, key_index = Index desc\<rparr>"

text \<open>The body of the loop of \<^verbatim>\<open>InsertAddrs\<close>, for one address.\<close>

definition insertOneAddr :: "ext \<Rightarrow> store \<Rightarrow> AddrWithKeyInfo \<Rightarrow> error + store \<times> nat" where
  "insertOneAddr X db addr =
     bindE (wrap ''unable to insert genesis point''
              (upsertGenesisPoint db (FirstPrevOut (AssetGenesis addr))))
       (\<lambda>(db1, genesisPointID).
     bindE (wrap ''unable to insert genesis''
              (upsertGenesis db1 genesisPointID (AssetGenesis addr)))
       (\<lambda>(db2, genAssetID).
     bindE (wrap ''unable to insert internal script key''
              (insertInternalKey X db2 (RawKey addr)))
       (\<lambda>(db3, rawScriptKeyID).
     bindE (wrap ''unable to insert script key''
              (UpsertScriptKey db3 \<lparr>internal_key_id = rawScriptKeyID,
                 tweaked_script_key = SerializeCompressed X (ScriptKey addr),
                 tweak = Tweak addr\<rparr>))
       (\<lambda>(db4, scriptKeyID).
     bindE (wrap ''unable to insert internal taproot key''
              (insertInternalKey X db4 (InternalKeyDesc addr)))
       (\<lambda>(db5, taprootKeyID).
     let famKeyBytes = (case FamilyKey addr of None \<Rightarrow> None
                        | Some k \<Rightarrow> Some (SerializeCompressed X k))
     in wrap ''unable to insert addr''
          (InsertAddr db5 \<lparr>version = ucast (Version addr),
             genesis_asset_id = genAssetID, fam_key = famKeyBytes,
             script_key_id = scriptKeyID, taproot_key_id = taprootKeyID,
             taproot_output_key = SchnorrSerializePubKey X (TaprootOutputKey addr),
             amount = Amount addr, asset_type = ucast (Type (AssetGenesis addr)),
             creation_time = to_db_time (CreationTime addr),
             managed_from = None\<rparr>))))))"

fun insertAddrsLoop :: "ext \<Rightarrow> store \<Rightarrow> AddrWithKeyInfo list \<Rightarrow> error + store \<times> unit" where
  "insertAddrsLoop X db [] = Inr (db, ())"
| "insertAddrsLoop X db (addr # rest) =
     bindE (insertOneAddr X db addr) (\<lambda>(db', i). insertAddrsLoop X db' rest)"

definition InsertAddrs :: "ext \<Rightarrow> store \<Rightarrow> AddrWithKeyInfo list \<Rightarrow> store \<times> (error + unit)" where
  "InsertAddrs X s batch = ExecTx s (\<lambda>db. insertAddrsLoop X db batch)"

text \<open>The body of the loop of \<^verbatim>\<open>QueryAddrs\<close>, for one row; \<open>params\<close> is \<^verbatim>\<open>t.params\<close>.\<close>

definition parseFamKey :: "ext \<Rightarrow> bytes option \<Rightarrow> error + PublicKey option" where
  "parseFamKey X fk =
     (case fk of
        None \<Rightarrow> Inr None
      | Some b \<Rightarrow> bindE (wrap ''unable to decode fam key''
                           (decode ''fam key'' (ParsePubKey X b))) (\<lambda>k. Inr (Some k)))"

definition queryAddrsRow :: "ext \<Rightarrow> string \<Rightarrow> store \<Rightarrow> Addresses \<Rightarrow> error + AddrWithKeyInfo" where
  "queryAddrsRow X params db addr =
     bindE (wrap ''error fetching genesis'' (fetchGenesis db (dbGenesisAssetID addr)))
       (\<lambda>assetGenesis.
     bindE (parseFamKey X (dbFamKey addr))
       (\<lambda>famKey.
     bindE (wrap ''unable to decode script key''
              (decode ''raw script key'' (ParsePubKey X (dbRawScriptKey addr))))
       (\<lambda>rawScriptKey.
     let rawScriptKeyDesc = \<lparr>Family = dbScriptKeyFamily addr,
                             Index = dbScriptKeyIndex addr, PubKey = rawScriptKey\<rparr>
     in
     bindE (wrap ''unable to decode taproot key''
              (decode ''raw taproot key'' (ParsePubKey X (dbRawTaprootKey addr))))
       (\<lambda>internalKey.
     let internalKeyDesc = \<lparr>Family = dbTaprootKeyFamily addr,
                            Index = dbTaprootKeyIndex addr, PubKey = internalKey\<rparr>
     in
     bindE (decode ''tweaked script key'' (ParsePubKey X (dbTweakedScriptKey addr)))
       (\<lambda>scriptKey.
     bindE (wrap ''unable to parse taproot output key''
              (decode ''taproot output key'' (SchnorrParsePubKey X (dbTaprootOutputKey addr))))
       (\<lambda>taprootOutputKey.
     Inr \<lparr>Version = ucast (dbVersion addr), AssetGenesis = assetGenesis,
          FamilyKey = famKey, ScriptKey = scriptKey, InternalKey = internalKey,
          Amount = dbAmount addr, ChainParams = params,
          RawKey = rawScriptKeyDesc, Tweak = dbScriptKeyTweak addr,
          InternalKeyDesc = internalKeyDesc, TaprootOutputKey = taprootOutputKey,
          CreationTime = from_db_time (dbCreationTime addr),
          ManagedAfter = NullTime_Time (dbManagedFrom addr)\<rparr>))))))"

definition QueryAddrs ::
  "ext \<Rightarrow> string \<Rightarrow> store \<Rightarrow> QueryParams \<Rightarrow> store \<times> (error + AddrWithKeyInfo list)" where
  "QueryAddrs X tparams s params0 =
     (let params = (if IsZero (CreatedBefore params0)
                    then params0\<lparr>CreatedBefore := time_Unix MaxInt64 0\<rparr> else params0);
          limit = (if Limit params \<noteq> 0 then Limit params else - 1)
      in ExecTx s (\<lambda>db.
           bindE (FetchAddrs db (CreatedAfter params) (CreatedBefore params)
                    (Offset params) limit (UnmanagedOnly params))
             (\<lambda>dbAddrs.
           bindE (mapE (queryAddrsRow X tparams db) dbAddrs)
             (\<lambda>result. Inr (db, result)))))"

text \<open>\<^verbatim>\<open>fetchAddr\<close>: the lookup and its error switch, then the decoding of the row.\<close>

definition fetchAddrRow ::
  "ext \<Rightarrow> store \<Rightarrow> string \<Rightarrow> PublicKey \<Rightarrow> Addresses \<Rightarrow> error + AddrWithKeyInfo" where
  "fetchAddrRow X db params taprootOutputKey dbAddr =
     bindE (wrap ''error fetching genesis'' (fetchGenesis db (dbGenesisAssetID dbAddr)))
       (\<lambda>genesis.
     bindE (parseFamKey X (dbFamKey dbAddr))
       (\<lambda>famKey.
     bindE (wrap ''unable to decode script key''
              (decode ''raw script key'' (ParsePubKey X (dbRawScriptKey dbAddr))))
       (\<lambda>rawScriptKey.
     let scriptKeyDesc = \<lparr>Family = dbScriptKeyFamily dbAddr,
                          Index = dbScriptKeyIndex dbAddr, PubKey = rawScriptKey\<rparr>
     in
     bindE (wrap ''unable to decode script key''
              (decode ''tweaked script key'' (ParsePubKey X (dbTweakedScriptKey dbAddr))))
       (\<lambda>scriptKey.
     bindE (wrap ''unable to decode taproot key''
              (decode ''raw taproot key'' (ParsePubKey X (dbRawTaprootKey dbAddr))))
       (\<lambda>internalKey.
     let internalKeyDesc = \<lparr>Family = dbTaprootKeyFamily dbAddr,
                            Index = dbTaprootKeyIndex dbAddr, PubKey = internalKey\<rparr>
     in
     Inr \<lparr>Version = ucast (dbVersion dbAddr), AssetGenesis = genesis,
          FamilyKey = famKey, ScriptKey = scriptKey, InternalKey = internalKey,
          Amount = dbAmount dbAddr, ChainParams = params,
          RawKey = scriptKeyDesc, Tweak = dbScriptKeyTweak dbAddr,
          InternalKeyDesc = internalKeyDesc, TaprootOutputKey = taprootOutputKey,
          CreationTime = from_db_time (dbCreationTime dbAddr),
          ManagedAfter = zero_time\<rparr>)))))"

definition fetchAddr :: "ext \<Rightarrow> store \<Rightarrow> string \<Rightarrow> PublicKey \<Rightarrow> error + AddrWithKeyInfo" where
  "fetchAddr X db params taprootOutputKey =
     (case FetchAddrByTaprootOutputKey db (SchnorrSerializePubKey X taprootOutputKey) of
        Inl err \<Rightarrow> (if cause err = ErrNoRows then Inl ErrNoAddr else Inl err)
      | Inr dbAddr \<Rightarrow> fetchAddrRow X db params taprootOutputKey dbAddr)"

definition AddrByTaprootOutput ::
  "ext \<Rightarrow> string \<Rightarrow> store \<Rightarrow> PublicKey \<Rightarrow> store \<times> (error + AddrWithKeyInfo)" where
  "AddrByTaprootOutput X tparams s key =
     ExecTx s (\<lambda>db. bindE (fetchAddr X db tparams key) (\<lambda>addr. Inr (db, addr)))"

definition SetAddrManaged ::
  "ext \<Rightarrow> store \<Rightarrow> AddrWithKeyInfo \<Rightarrow> Time \<Rightarrow> store \<times> (error + unit)" where
  "SetAddrManaged X s addr managedFrom =
     ExecTx s (\<lambda>db. SetAddrManaged_db db (Some (to_db_time managedFrom))
                       (SchnorrSerializePubKey X (TaprootOutputKey addr)))"


text \<open>
  \<^verbatim>\<open>GetOrCreateEvent\<close>.  \<open>now\<close> is the value of \<^verbatim>\<open>time.Now()\<close>.  The index into
  \<^verbatim>\<open>walletTx.OutputDetails\<close> is taken before the transaction opens; the pointer it
  yields is followed inside.
\<close>

definition chainTxUpsert :: "ext \<Rightarrow> Transaction \<Rightarrow> bytes \<Rightarrow> bytes \<Rightarrow> error + ChainTxRow" where
  "chainTxUpsert X walletTx txHash txBuf =
     (if word_sless 0 (Confirmations walletTx) then
        bindE (wrap ''error parsing block hash''
                 (decode ''block hash'' (NewHashFromStr X (BlockHash walletTx))))
          (\<lambda>blockHash. Inr \<lparr>txid = txHash, raw_tx = txBuf,
                            block_height = Some (BlockHeight walletTx),
                            block_hash = Some blockHash\<rparr>)
      else Inr \<lparr>txid = txHash, raw_tx = txBuf, block_height = None, block_hash = None\<rparr>)"

definition utxoUpsert ::
  "ext \<Rightarrow> AddrWithKeyInfo \<Rightarrow> bytes \<Rightarrow> OutputDetail \<Rightarrow> bytes option \<Rightarrow> bytes \<Rightarrow> nat \<Rightarrow>
   RawManagedUTXO" where
  "utxoUpsert X addr outpointBytes outputDetails siblingBytes taroRoot chainTxID =
     \<lparr>utxoRawKey = SerializeCompressed X (InternalKey addr),
      utxoOutpoint = outpointBytes, AmtSats = DetailAmount outputDetails,
      utxoTapscriptSibling = siblingBytes, TaroRoot = taroRoot, TxnID = chainTxID\<rparr>"

definition eventUpsert ::
  "ext \<Rightarrow> Time \<Rightarrow> Status \<Rightarrow> AddrWithKeyInfo \<Rightarrow> bytes \<Rightarrow> 32 word \<Rightarrow> nat \<Rightarrow> UpsertAddrEvent" where
  "eventUpsert X now st addr txHash outputIdx managedUtxoID =
     \<lparr>upTaprootOutputKey = SchnorrSerializePubKey X (TaprootOutputKey addr),
      upCreationTime = now, upStatus = ucast st, upTxid = txHash,
      upChainTxnOutputIndex = outputIdx, upManagedUtxoID = managedUtxoID,
      upAssetProofID = None, upAssetID = None\<rparr>"

text \<open>The body of the transaction of \<^verbatim>\<open>GetOrCreateEvent\<close>, up to the id of the event.\<close>

definition getOrCreateEventTx ::
  "ext \<Rightarrow> Time \<Rightarrow> Status \<Rightarrow> AddrWithKeyInfo \<Rightarrow> Transaction \<Rightarrow> 32 word \<Rightarrow> bytes option \<Rightarrow>
   bytes \<Rightarrow> bytes \<Rightarrow> bytes \<Rightarrow> OutputDetail option \<Rightarrow> store \<Rightarrow> error + store \<times> nat" where
  "getOrCreateEventTx X now st addr walletTx outputIdx tapscriptSibling
       txHash txBuf outpointBytes outputDetails db =
     bindE (chainTxUpsert X walletTx txHash txBuf)
       (\<lambda>txUpsert.
     bindE (wrap ''error upserting chain TX'' (UpsertChainTx db txUpsert))
       (\<lambda>(db1, chainTxID).
     bindE (wrap ''error deriving commitment''
              (case AddrTaroCommitment X addr of None \<Rightarrow> Inl CommitmentError
               | Some c \<Rightarrow> Inr c))
       (\<lambda>commitment.
     let taroRoot = TapscriptRoot X commitment tapscriptSibling in
     (case outputDetails of
        None \<Rightarrow> Inl PanicNilDereference
      | Some od \<Rightarrow>
     bindE (wrap ''error upserting utxo''
              (UpsertManagedUTXO db1
                 (utxoUpsert X addr outpointBytes od tapscriptSibling taroRoot chainTxID)))
       (\<lambda>(db2, managedUtxoID).
     wrap ''error fetching existing events''
       (UpsertAddrEvent_db db2
          (eventUpsert X now st addr txHash outputIdx managedUtxoID)))))))"

definition fetchEvent :: "ext \<Rightarrow> store \<Rightarrow> nat \<Rightarrow> AddrWithKeyInfo \<Rightarrow> error + Event" where
  "fetchEvent X db eventID addr =
     bindE (wrap ''error fetching addr event'' (FetchAddrEvent db eventID))
       (\<lambda>dbEvent.
     bindE (wrap ''error parsing internal key''
              (decode ''internal key''
                 (ParsePubKey X (case evInternalKey dbEvent of None \<Rightarrow> [] | Some b \<Rightarrow> b))))
       (\<lambda>internalKey.
     bindE (wrap ''error parsing txid'' (decode ''txid'' (NewHash X (evTxid dbEvent))))
       (\<lambda>hash.
     let op = \<lparr>Hash = hash, OutIndex = evOutputIndex dbEvent\<rparr>
     in Inr \<lparr>ID = eventID, EventCreationTime = from_db_time (evCreationTime dbEvent),
             Addr = addr, EventStatus = ucast (evStatus dbEvent), Outpoint = op,
             Amt = (case evAmtSats dbEvent of None \<Rightarrow> 0 | Some a \<Rightarrow> a),
             EventInternalKey = internalKey,
             TapscriptSibling = evTapscriptSibling dbEvent,
             ConfirmationHeight = (case evConfirmationHeight dbEvent of None \<Rightarrow> 0
                                   | Some h \<Rightarrow> h),
             HasProof = (evAssetProofID dbEvent \<noteq> None)\<rparr>)))"

definition GetOrCreateEvent ::
  "ext \<Rightarrow> store \<Rightarrow> Time \<Rightarrow> Status \<Rightarrow> AddrWithKeyInfo \<Rightarrow> Transaction \<Rightarrow> 32 word \<Rightarrow>
   bytes option \<Rightarrow> store \<times> (error + Event)" where
  "GetOrCreateEvent X s now st addr walletTx outputIdx tapscriptSibling =
     (let txHash = TxHash X (Tx walletTx) in
      case Serialize X (Tx walletTx) of
        None \<Rightarrow> (s, Inl (Wrapped ''error serializing tx'' (EncodeError ''tx'')))
      | Some txBuf \<Rightarrow>
      (let outpoint = \<lparr>Hash = txHash, OutIndex = outputIdx\<rparr> in
       case encodeOutpoint X outpoint of
         None \<Rightarrow> (s, Inl (Wrapped ''error encoding outpoint'' (EncodeError ''outpoint'')))
       | Some outpointBytes \<Rightarrow>
           if \<not> unat outputIdx < length (OutputDetails walletTx) then
             (s, Inl PanicIndexOutOfRange)
           else
             (let outputDetails = OutputDetails walletTx ! unat outputIdx
              in ExecTx s (\<lambda>db.
                   bindE (getOrCreateEventTx X now st addr walletTx outputIdx
                            tapscriptSibling txHash txBuf outpointBytes outputDetails db)
                     (\<lambda>(db3, eventID).
                   bindE (fetchEvent X db3 eventID addr)
                     (\<lambda>event. Inr (db3, event)))))))"

definition eventQuery :: "EventQueryParams \<Rightarrow> AddrEventQuery" where
  "eventQuery params =
     \<lparr>qStatusFrom = (case StatusFrom params of
                       None \<Rightarrow> ucast StatusTransactionDetected | Some f \<Rightarrow> ucast f),
      qStatusTo = (case StatusTo params of
                     None \<Rightarrow> ucast StatusCompleted | Some u \<Rightarrow> ucast u),
      AddrTaprootKey = (case AddrTaprootOutputKey params of
                          None \<Rightarrow> None
                        | Some k \<Rightarrow> if length k > 0 then Some k else None)\<rparr>"

text \<open>The body of the loop of \<^verbatim>\<open>QueryAddrEvents\<close>, for one pair of ids.\<close>

definition queryAddrEventsRow :: "ext \<Rightarrow> string \<Rightarrow> store \<Rightarrow> AddrEventID \<Rightarrow> error + Event" where
  "queryAddrEventsRow X tparams db ids =
     bindE (wrap ''error parsing taproot output key''
              (decode ''taproot output key''
                 (SchnorrParsePubKey X (idTaprootOutputKey ids))))
       (\<lambda>taprootOutputKey.
     bindE (wrap ''error fetching address'' (fetchAddr X db tparams taprootOutputKey))
       (\<lambda>addr.
     wrap ''error fetching address event'' (fetchEvent X db (EventID ids) addr)))"

definition QueryAddrEvents ::
  "ext \<Rightarrow> string \<Rightarrow> store \<Rightarrow> EventQueryParams \<Rightarrow> store \<times> (error + Event list)" where
  "QueryAddrEvents X tparams s params =
     (let sqlQuery = eventQuery params
      in ExecTx s (\<lambda>db.
           bindE (wrap ''error fetching event IDs'' (QueryEventIDs db sqlQuery))
             (\<lambda>dbIDs.
           bindE (mapE (queryAddrEventsRow X tparams db) dbIDs)
             (\<lambda>events. Inr (db, events)))))"



section \<open>Notions used in the statements\<close>

text \<open>The rows that \<^verbatim>\<open>QueryAddrs\<close> asks the store for, with its two defaults.\<close>

definition selected_rows :: "store \<Rightarrow> QueryParams \<Rightarrow> Addresses list" where
  "selected_rows s p =
     limit_offset (Offset p) (if Limit p \<noteq> 0 then Limit p else - 1)
       (List.map_filter (join_addr s)
          (filter (addr_matches (CreatedAfter p)
                     (if IsZero (CreatedBefore p) then time_Unix MaxInt64 0
                      else CreatedBefore p)
                     (UnmanagedOnly p)) (addrs s)))"

text \<open>
  The query of the spec with no upper creation-time bound: \<^verbatim>\<open>FetchAddrs\<close> and
  \<^verbatim>\<open>QueryAddrs\<close> with that one test left out, for comparison.
\<close>

definition addr_matches_from :: "Time \<Rightarrow> bool \<Rightarrow> AddrRow \<Rightarrow> bool" where
  "addr_matches_from createdAfter unmanagedOnly r =
     (word_sle (to_db_time createdAfter) (creation_time r) \<and>
      (\<not> unmanagedOnly \<or> managed_from r = None))"

definition FetchAddrsNoUpperBound ::
  "store \<Rightarrow> Time \<Rightarrow> 32 word \<Rightarrow> 32 word \<Rightarrow> bool \<Rightarrow> error + Addresses list" where
  "FetchAddrsNoUpperBound s createdAfter numOffset numLimit unmanagedOnly =
     Inr (limit_offset numOffset numLimit
            (List.map_filter (join_addr s)
               (filter (addr_matches_from createdAfter unmanagedOnly) (addrs s))))"

definition QueryAddrsNoUpperBound ::
  "ext \<Rightarrow> string \<Rightarrow> store \<Rightarrow> QueryParams \<Rightarrow> store \<times> (error + AddrWithKeyInfo list)" where
  "QueryAddrsNoUpperBound X tparams s params =
     (let limit = (if Limit params \<noteq> 0 then Limit params else - 1)
      in ExecTx s (\<lambda>db.
           bindE (FetchAddrsNoUpperBound db (CreatedAfter params) (Offset params) limit
                    (UnmanagedOnly params))
             (\<lambda>dbAddrs.
           bindE (mapE (queryAddrsRow X tparams db) dbAddrs)
             (\<lambda>result. Inr (db, result)))))"


text \<open>The row that \<^verbatim>\<open>InsertAddrs\<close> hands to \<^verbatim>\<open>InsertAddr\<close>, given the three ids.\<close>

definition addr_row :: "ext \<Rightarrow> AddrWithKeyInfo \<Rightarrow> nat \<Rightarrow> nat \<Rightarrow> nat \<Rightarrow> AddrRow" where
  "addr_row X addr genAssetID scriptKeyID taprootKeyID =
     \<lparr>version = ucast (Version addr), genesis_asset_id = genAssetID,
      fam_key = (case FamilyKey addr of None \<Rightarrow> None
                 | Some k \<Rightarrow> Some (SerializeCompressed X k)),
      script_key_id = scriptKeyID, taproot_key_id = taprootKeyID,
      taproot_output_key = SchnorrSerializePubKey X (TaprootOutputKey addr),
      amount = Amount addr, asset_type = ucast (Type (AssetGenesis addr)),
      creation_time = to_db_time (CreationTime addr), managed_from = None\<rparr>"

text \<open>The query parameters \<^verbatim>\<open>address.QueryParams{}\<close>: every field has its zero value.\<close>

definition default_params :: QueryParams where
  "default_params = \<lparr>CreatedAfter = zero_time, CreatedBefore = zero_time, Limit = 0,
     Offset = 0, UnmanagedOnly = False\<rparr>"

text \<open>
  What is read back of an address that \<^verbatim>\<open>InsertAddrs\<close> wrote: the address itself, its
  creation time cut to the second.
\<close>

definition stored_as :: "AddrWithKeyInfo \<Rightarrow> AddrWithKeyInfo" where
  "stored_as a = a\<lparr>CreationTime := from_db_time (to_db_time (CreationTime a))\<rparr>"

text \<open>
  A valid address of an address book with chain parameters \<open>tp\<close>: its keys are
  points that the codecs take back from their serialisation (the taproot output key
  from its 32-byte x-only form), its taproot internal key is the key of its internal
  key descriptor, it carries the book's chain parameters, it is not yet managed, and
  it was not created before the zero time.
\<close>

definition valid_addr :: "ext \<Rightarrow> string \<Rightarrow> AddrWithKeyInfo \<Rightarrow> bool" where
  "valid_addr X tp a =
     (ParsePubKey X (SerializeCompressed X (ScriptKey a)) = Some (ScriptKey a) \<and>
      ParsePubKey X (SerializeCompressed X (PubKey (RawKey a))) = Some (PubKey (RawKey a)) \<and>
      ParsePubKey X (SerializeCompressed X (PubKey (InternalKeyDesc a)))
        = Some (PubKey (InternalKeyDesc a)) \<and>
      (case FamilyKey a of None \<Rightarrow> True
       | Some k \<Rightarrow> ParsePubKey X (SerializeCompressed X k) = Some k) \<and>
      SchnorrParsePubKey X (SchnorrSerializePubKey X (TaprootOutputKey a))
        = Some (TaprootOutputKey a) \<and>
      InternalKey a = PubKey (InternalKeyDesc a) \<and>
      ChainParams a = tp \<and>
      ManagedAfter a = zero_time \<and>
      word_sle (unix zero_time) (unix (CreationTime a)))"

text \<open>
  Two addresses are compatible when they agree on what the key registry stores once
  per key: a public key has one locator, and a script key has one tweak and one raw
  key.
\<close>

definition compatible :: "AddrWithKeyInfo \<Rightarrow> AddrWithKeyInfo \<Rightarrow> bool" where
  "compatible a b =
     ((PubKey (RawKey a) = PubKey (RawKey b) \<longrightarrow> RawKey a = RawKey b) \<and>
      (PubKey (RawKey a) = PubKey (InternalKeyDesc b) \<longrightarrow> RawKey a = InternalKeyDesc b) \<and>
      (PubKey (InternalKeyDesc a) = PubKey (RawKey b) \<longrightarrow> InternalKeyDesc a = RawKey b) \<and>
      (PubKey (InternalKeyDesc a) = PubKey (InternalKeyDesc b)
         \<longrightarrow> InternalKeyDesc a = InternalKeyDesc b) \<and>
      (ScriptKey a = ScriptKey b \<longrightarrow> Tweak a = Tweak b \<and> RawKey a = RawKey b))"

text \<open>The row that \<^verbatim>\<open>insertInternalKey\<close> upserts for a key descriptor.\<close>

definition key_row :: "ext \<Rightarrow> KeyDescriptor \<Rightarrow> InternalKeyRow" where
  "key_row X desc = \<lparr>raw_key = SerializeCompressed X (PubKey desc),
                     key_family = Family desc, key_index = Index desc\<rparr>"

text \<open>
  The row \<open>r\<close> of \<^verbatim>\<open>addrs\<close> represents the address \<open>a\<close> in the store: its columns are
  those written for \<open>a\<close> (the managed-from time apart) and its references lead to the
  script key, the two internal keys and the genesis of \<open>a\<close>.  The store holds a list
  of addresses when its rows represent them one by one and no two rows have the same
  taproot output key.
\<close>

definition represents :: "ext \<Rightarrow> store \<Rightarrow> AddrRow \<Rightarrow> AddrWithKeyInfo \<Rightarrow> bool" where
  "represents X s r a =
     (r\<lparr>managed_from := None\<rparr>
        = addr_row X a (genesis_asset_id r) (script_key_id r) (taproot_key_id r) \<and>
      fetchGenesis s (genesis_asset_id r) = Inr (AssetGenesis a) \<and>
      row_by_id (internal_keys s) (taproot_key_id r) = Some (key_row X (InternalKeyDesc a)) \<and>
      (case row_by_id (script_keys s) (script_key_id r) of
         None \<Rightarrow> False
       | Some sk \<Rightarrow>
           tweaked_script_key sk = SerializeCompressed X (ScriptKey a) \<and>
           tweak sk = Tweak a \<and>
           row_by_id (internal_keys s) (internal_key_id sk) = Some (key_row X (RawKey a))))"

definition holds :: "ext \<Rightarrow> store \<Rightarrow> AddrWithKeyInfo list \<Rightarrow> bool" where
  "holds X s as =
     (list_all2 (represents X s) (addrs s) as \<and>
      distinct (map taproot_output_key (addrs s)))"

definition unmanaged :: "store \<Rightarrow> bool" where
  "unmanaged s = list_all (\<lambda>r. managed_from r = None) (addrs s)"

text \<open>
  The rows of \<^verbatim>\<open>addr_events\<close> of one identity: those whose address has the taproot
  output key \<open>k\<close>, whose chain transaction has the id \<open>t\<close> and whose output index is
  \<open>i\<close>.  The keys of a store are unique when no two addresses have the same taproot
  output key, no two chain transactions the same id, and no two events the same
  address, transaction and output index.  \<open>stored_height s t\<close> is the block height that
  the store has for the transaction id \<open>t\<close>.
\<close>

definition event_of_key :: "store \<Rightarrow> bytes \<Rightarrow> bytes \<Rightarrow> 32 word \<Rightarrow> AddrEventRow \<Rightarrow> bool" where
  "event_of_key s k t i r =
     ((case row_by_id (addrs s) (addr_id r) of
         None \<Rightarrow> False | Some a \<Rightarrow> taproot_output_key a = k) \<and>
      (case row_by_id (chain_txns s) (chain_txn_id r) of
         None \<Rightarrow> False | Some c \<Rightarrow> txid c = t) \<and>
      chain_txn_output_index r = i)"

definition stored_height :: "store \<Rightarrow> bytes \<Rightarrow> 32 word option" where
  "stored_height s t =
     (case find_id (\<lambda>r. txid r = t) (chain_txns s) of
        None \<Rightarrow> None
      | Some k \<Rightarrow> (case row_by_id (chain_txns s) k of
                     None \<Rightarrow> None | Some c \<Rightarrow> block_height c))"

definition event_ids :: "AddrEventRow \<Rightarrow> nat \<times> nat \<times> 32 word" where
  "event_ids r = (addr_id r, chain_txn_id r, chain_txn_output_index r)"

definition unique_keys :: "store \<Rightarrow> bool" where
  "unique_keys s =
     (distinct (map taproot_output_key (addrs s)) \<and>
      distinct (map txid (chain_txns s)) \<and>
      distinct (map event_ids (addr_events s)))"




section \<open>Concrete data\<close>

text \<open>
  A small instance of the library functions, two addresses and a wallet transaction,
  on which the theorems are exercised.  A key is written as a parity byte and its
  first coordinate; only keys with a coordinate below 256 and a second coordinate of
  0 or 1 survive this codec, as the examples do.
\<close>

definition demo_SerializeCompressed :: "PublicKey \<Rightarrow> bytes" where
  "demo_SerializeCompressed k =
     (if even (key_y k) then 2 else 3) # replicate 31 0 @ [of_nat (key_x k)]"

definition demo_ParsePubKey :: "bytes \<Rightarrow> PublicKey option" where
  "demo_ParsePubKey b =
     (if length b = 33 \<and> (hd b = 2 \<or> hd b = 3)
      then Some (PublicKey (unat (last b)) (if hd b = 2 then 0 else 1)) else None)"

definition demo_SchnorrSerializePubKey :: "PublicKey \<Rightarrow> bytes" where
  "demo_SchnorrSerializePubKey k = replicate 31 0 @ [of_nat (key_x k)]"

definition demo_SchnorrParsePubKey :: "bytes \<Rightarrow> PublicKey option" where
  "demo_SchnorrParsePubKey b =
     (if length b = 32 then Some (PublicKey (unat (last b)) 0) else None)"

definition demo_ext :: ext where
  "demo_ext = \<lparr>ParsePubKey = demo_ParsePubKey,
     SerializeCompressed = demo_SerializeCompressed,
     SchnorrParsePubKey = demo_SchnorrParsePubKey,
     SchnorrSerializePubKey = demo_SchnorrSerializePubKey,
     NewHashFromStr = (\<lambda>s. if length s = 4 then Some (replicate 32 9) else None),
     NewHash = (\<lambda>b. if length b = 32 then Some b else None),
     TxHash = (\<lambda>t. take 32 (tx_content t @ replicate 32 0)),
     Serialize = (\<lambda>t. Some (tx_content t)),
     encodeOutpoint = (\<lambda>p. Some (Hash p @ [ucast (OutIndex p)])),
     AddrTaroCommitment =
       (\<lambda>a. Some (TaroCommitment (demo_SerializeCompressed (ScriptKey a)))),
     TapscriptRoot =
       (\<lambda>c s. case c of TaroCommitment b \<Rightarrow>
                 take 32 ((case s of None \<Rightarrow> [] | Some x \<Rightarrow> x) @ b))\<rparr>"

definition demo_genesis :: Genesis where
  "demo_genesis = \<lparr>FirstPrevOut = \<lparr>Hash = replicate 32 1, OutIndex = 0\<rparr>, Tag = ''demo'',
     Metadata = [], OutputIndex = 0, Type = 0\<rparr>"

definition demo_addr :: "nat \<Rightarrow> AddrWithKeyInfo" where
  "demo_addr n = \<lparr>Version = 0, AssetGenesis = demo_genesis, FamilyKey = None,
     ScriptKey = PublicKey (n + 1) 0, InternalKey = PublicKey (n + 2) 1, Amount = 5,
     ChainParams = ''regtest'',
     RawKey = \<lparr>Family = 1, Index = 2, PubKey = PublicKey (n + 3) 0\<rparr>, Tweak = [1, 2],
     InternalKeyDesc = \<lparr>Family = 3, Index = 4, PubKey = PublicKey (n + 2) 1\<rparr>,
     TaprootOutputKey = PublicKey (n + 4) 0,
     CreationTime = \<lparr>unix = 1700000000, nsec = 999\<rparr>, ManagedAfter = zero_time\<rparr>"

definition demo_tx :: Transaction where
  "demo_tx = \<lparr>Tx = MsgTx [1, 2, 3], Confirmations = 0, BlockHash = [], BlockHeight = 0,
     OutputDetails = [Some \<lparr>DetailAmount = 1000, IsOurAddress = True\<rparr>, None]\<rparr>"

definition demo_now :: Time where
  "demo_now = \<lparr>unix = 1700000100, nsec = 5\<rparr>"

definition demo_store :: store where
  "demo_store = fst (InsertAddrs demo_ext empty_store [demo_addr 10, demo_addr 20])"

definition demo_events :: store where
  "demo_events = fst (GetOrCreateEvent demo_ext demo_store demo_now StatusTransactionDetected
                        (demo_addr 10) demo_tx 0 None)"

definition demo_event :: "AddrWithKeyInfo \<Rightarrow> Event" where
  "demo_event a = \<lparr>ID = 1, EventCreationTime = \<lparr>unix = 1700000100, nsec = 0\<rparr>, Addr = a,
     EventStatus = 0, Outpoint = \<lparr>Hash = [1, 2, 3] @ replicate 29 0, OutIndex = 0\<rparr>,
     Amt = 1000, EventInternalKey = PublicKey 12 1, TapscriptSibling = None,
     ConfirmationHeight = 0, HasProof = False\<rparr>"

definition demo_confirmed_tx :: Transaction where
  "demo_confirmed_tx = demo_tx\<lparr>Confirmations := 3, BlockHash := ''beef'', BlockHeight := 700\<rparr>"

definition demo_later :: Time where
  "demo_later = \<lparr>unix = 1700000200, nsec = 7\<rparr>"

definition demo_confirmed :: store where
  "demo_confirmed = fst (GetOrCreateEvent demo_ext demo_events demo_later
                           StatusTransactionConfirmed (demo_addr 10) demo_confirmed_tx 0 (Some [7]))"



definition no_filter :: EventQueryParams where
  "no_filter = \<lparr>AddrTaprootOutputKey = None, StatusFrom = None, StatusTo = None\<rparr>"

definition demo_managed :: store where
  "demo_managed = fst (SetAddrManaged demo_ext demo_store (demo_addr 10) demo_now)"

definition demo_stored :: "nat \<Rightarrow> AddrWithKeyInfo" where
  "demo_stored n = (demo_addr n)\<lparr>CreationTime := \<lparr>unix = 1700000000, nsec = 0\<rparr>\<rparr>"


section \<open>Results, errors and transactions\<close>

lemma bindE_simps [simp]: "bindE (Inl e) f = Inl e" "bindE (Inr v) f = f v"
  by (simp_all add: bindE_def)

lemma wrap_simps [simp]: "wrap m (Inl e) = Inl (Wrapped m e)" "wrap m (Inr v) = Inr v"
  by (simp_all add: wrap_def)

lemma decode_simps [simp]: "decode m None = Inl (DecodeError m)" "decode m (Some v) = Inr v"
  by (simp_all add: decode_def)

lemma bindE_eq_Inr: "bindE r f = Inr v \<longleftrightarrow> (\<exists>u. r = Inr u \<and> f u = Inr v)"
  by (cases r) simp_all

lemma bindE_eq_Inl: "bindE r f = Inl e \<longleftrightarrow> r = Inl e \<or> (\<exists>u. r = Inr u \<and> f u = Inl e)"
  by (cases r) simp_all

lemma wrap_eq_Inr [simp]: "wrap m r = Inr v \<longleftrightarrow> r = Inr v"
  by (cases r) simp_all

lemma wrap_eq_Inl: "wrap m r = Inl e \<longleftrightarrow> (\<exists>e'. r = Inl e' \<and> e = Wrapped m e')"
  by (cases r) auto

lemma decode_eq_Inr [simp]: "decode m r = Inr v \<longleftrightarrow> r = Some v"
  by (cases r) simp_all

lemma ExecTx_Inl: "body s = Inl e \<Longrightarrow> ExecTx s body = (s, Inl e)"
  by (simp add: ExecTx_def)

lemma ExecTx_Inr: "body s = Inr (s', v) \<Longrightarrow> ExecTx s body = (s', Inr v)"
  by (simp add: ExecTx_def)

lemma ExecTx_error_keeps_store: "ExecTx s body = (s', Inl e) \<Longrightarrow> s' = s \<and> body s = Inl e"
  by (auto simp: ExecTx_def split: sum.splits prod.splits)

lemma ExecTx_value: "ExecTx s body = (s', Inr v) \<Longrightarrow> body s = Inr (s', v)"
  by (auto simp: ExecTx_def split: sum.splits prod.splits)

lemma is_constraint_Wrapped [simp]: "is_constraint (Wrapped m e) = is_constraint e"
  by (simp add: is_constraint_def)

lemma is_constraint_ConstraintError [simp]: "is_constraint (ConstraintError m)"
  by (simp add: is_constraint_def)

section \<open>The output index of \<^verbatim>\<open>GetOrCreateEvent\<close>\<close>

lemma getOrCreateEventTx_no_index_panic:
  "getOrCreateEventTx X now st addr walletTx outputIdx sib txHash txBuf ob od db
     \<noteq> Inl PanicIndexOutOfRange"
  by (auto simp: getOrCreateEventTx_def chainTxUpsert_def bindE_eq_Inl wrap_eq_Inl Let_def
           split: option.splits if_splits prod.splits)

lemma fetchEvent_no_index_panic: "fetchEvent X db i addr \<noteq> Inl PanicIndexOutOfRange"
  by (auto simp: fetchEvent_def bindE_eq_Inl wrap_eq_Inl Let_def)

text \<open>
  C10.  \<^verbatim>\<open>GetOrCreateEvent\<close> indexes \<^verbatim>\<open>walletTx.OutputDetails\<close> with \<^verbatim>\<open>outputIdx\<close>
  unchecked.  The call ends in the index-out-of-range panic exactly when the
  transaction and the outpoint have serialised and the index is not below the length
  of the list; the store is then as it was.  With the index in range no call ends in
  that panic, and out of range the call panics rather than return an error.
\<close>

theorem GetOrCreateEvent_index_panic:
  "GetOrCreateEvent X s now st addr walletTx outputIdx sib = (s', Inl PanicIndexOutOfRange)
   \<longleftrightarrow> s' = s \<and> Serialize X (Tx walletTx) \<noteq> None
       \<and> encodeOutpoint X \<lparr>Hash = TxHash X (Tx walletTx), OutIndex = outputIdx\<rparr> \<noteq> None
       \<and> \<not> unat outputIdx < length (OutputDetails walletTx)"
proof (cases "Serialize X (Tx walletTx)")
  case None
  then show ?thesis by (simp add: GetOrCreateEvent_def)
next
  case (Some txBuf)
  show ?thesis
  proof (cases "encodeOutpoint X \<lparr>Hash = TxHash X (Tx walletTx), OutIndex = outputIdx\<rparr>")
    case None
    with Some show ?thesis by (simp add: GetOrCreateEvent_def)
  next
    case ob: (Some ob)
    show ?thesis
    proof (cases "unat outputIdx < length (OutputDetails walletTx)")
      case False
      with Some ob show ?thesis by (auto simp: GetOrCreateEvent_def)
    next
      case True
      have "GetOrCreateEvent X s now st addr walletTx outputIdx sib
              \<noteq> (s', Inl PanicIndexOutOfRange)"
      proof
        assume "GetOrCreateEvent X s now st addr walletTx outputIdx sib
                  = (s', Inl PanicIndexOutOfRange)"
        with Some ob True show False
          using getOrCreateEventTx_no_index_panic fetchEvent_no_index_panic
          by (auto simp: GetOrCreateEvent_def Let_def bindE_eq_Inl
                   dest!: ExecTx_error_keeps_store split: prod.splits)
      qed
      with True show ?thesis by simp
    qed
  qed
qed

theorem GetOrCreateEvent_index_panic_witness:
  "GetOrCreateEvent demo_ext demo_store demo_now 0 (demo_addr 10) demo_tx 5 None
     = (demo_store, Inl PanicIndexOutOfRange) \<and>
   is_panic PanicIndexOutOfRange \<and>
   GetOrCreateEvent demo_ext demo_store demo_now 0 (demo_addr 10) demo_tx 0 None
     \<noteq> (demo_store, Inl PanicIndexOutOfRange)"
proof -
  have out: "Serialize demo_ext (Tx demo_tx) \<noteq> None \<and>
      encodeOutpoint demo_ext \<lparr>Hash = TxHash demo_ext (Tx demo_tx), OutIndex = 5\<rparr> \<noteq> None \<and>
      \<not> unat (5 :: 32 word) < length (OutputDetails demo_tx)"
    by code_simp
  have inr: "unat (0 :: 32 word) < length (OutputDetails demo_tx)"
    by code_simp
  show ?thesis
    using out inr
      GetOrCreateEvent_index_panic [of demo_ext demo_store demo_now 0 "demo_addr 10" demo_tx 5
        None demo_store]
      GetOrCreateEvent_index_panic [of demo_ext demo_store demo_now 0 "demo_addr 10" demo_tx 0
        None demo_store]
    by (simp add: is_panic_def)
qed

section \<open>Managed-from on returned addresses\<close>

lemma fetchAddrRow_ManagedAfter:
  "fetchAddrRow X db tp k j = Inr a \<Longrightarrow> ManagedAfter a = zero_time"
  by (auto simp: fetchAddrRow_def bindE_eq_Inr Let_def)

lemma fetchAddr_ManagedAfter:
  "fetchAddr X db tp k = Inr a \<Longrightarrow> ManagedAfter a = zero_time"
  by (auto simp: fetchAddr_def dest: fetchAddrRow_ManagedAfter split: sum.splits if_splits)

lemma queryAddrsRow_ManagedAfter:
  "queryAddrsRow X tp db j = Inr a \<Longrightarrow> ManagedAfter a = NullTime_Time (dbManagedFrom j)"
  by (auto simp: queryAddrsRow_def bindE_eq_Inr Let_def)

lemma mapE_Inr_length: "mapE f xs = Inr ys \<Longrightarrow> length ys = length xs"
  by (induction xs arbitrary: ys) (auto simp: bindE_eq_Inr)

lemma mapE_Inr_nth:
  "mapE f xs = Inr ys \<Longrightarrow> i < length xs \<Longrightarrow> f (xs ! i) = Inr (ys ! i)"
proof (induction xs arbitrary: ys i)
  case Nil
  then show ?case by simp
next
  case (Cons x xs)
  then show ?case by (cases i) (auto simp: bindE_eq_Inr)
qed

lemma mapE_Inr_map:
  assumes "mapE f xs = Inr ys" and "\<And>x y. f x = Inr y \<Longrightarrow> g y = h x"
  shows "map g ys = map h xs"
  using assms(1)
proof (induction xs arbitrary: ys)
  case Nil
  then show ?case by simp
next
  case (Cons x xs)
  then show ?case by (auto simp: bindE_eq_Inr assms(2))
qed

lemma QueryAddrs_rows:
  "QueryAddrs X tp s p = (s', Inr rs) \<Longrightarrow>
     s' = s \<and> mapE (queryAddrsRow X tp s) (selected_rows s p) = Inr rs"
  by (auto simp: QueryAddrs_def selected_rows_def FetchAddrs_def Let_def bindE_eq_Inr
           dest!: ExecTx_value split: if_splits)

text \<open>
  C9.  An address returned by \<^verbatim>\<open>AddrByTaprootOutput\<close> has the zero time as its
  managed-after time, whatever the store holds (so also after \<^verbatim>\<open>SetAddrManaged\<close>);
  the addresses returned by \<^verbatim>\<open>QueryAddrs\<close> carry the managed-from times of the rows
  they were read from.
\<close>

theorem AddrByTaprootOutput_unmanaged:
  "(AddrByTaprootOutput X tp s k = (s1, Inr a) \<longrightarrow> ManagedAfter a = zero_time) \<and>
   (QueryAddrs X tp s p = (s2, Inr rs) \<longrightarrow>
      map ManagedAfter rs = map (\<lambda>r. NullTime_Time (dbManagedFrom r)) (selected_rows s p))"
proof (intro conjI impI)
  assume "AddrByTaprootOutput X tp s k = (s1, Inr a)"
  then show "ManagedAfter a = zero_time"
    by (auto simp: AddrByTaprootOutput_def bindE_eq_Inr dest!: ExecTx_value
             dest: fetchAddr_ManagedAfter)
next
  assume "QueryAddrs X tp s p = (s2, Inr rs)"
  then have "mapE (queryAddrsRow X tp s) (selected_rows s p) = Inr rs"
    by (simp add: QueryAddrs_rows)
  then show "map ManagedAfter rs
      = map (\<lambda>r. NullTime_Time (dbManagedFrom r)) (selected_rows s p)"
    by (rule mapE_Inr_map) (rule queryAddrsRow_ManagedAfter)
qed

theorem AddrByTaprootOutput_unmanaged_witness:
  "AddrByTaprootOutput demo_ext ''regtest'' demo_managed (PublicKey 14 0)
     = (demo_managed, Inr (demo_stored 10)) \<and>
   ManagedAfter (demo_stored 10) = zero_time \<and>
   QueryAddrs demo_ext ''regtest'' demo_managed default_params
     = (demo_managed, Inr [(demo_stored 10)\<lparr>ManagedAfter := \<lparr>unix = 1700000100, nsec = 0\<rparr>\<rparr>,
                           demo_stored 20]) \<and>
   map ManagedAfter [(demo_stored 10)\<lparr>ManagedAfter := \<lparr>unix = 1700000100, nsec = 0\<rparr>\<rparr>,
                     demo_stored 20]
     = map (\<lambda>r. NullTime_Time (dbManagedFrom r)) (selected_rows demo_managed default_params)"
proof -
  have f: "AddrByTaprootOutput demo_ext ''regtest'' demo_managed (PublicKey 14 0)
     = (demo_managed, Inr (demo_stored 10))"
    by code_simp
  have q: "QueryAddrs demo_ext ''regtest'' demo_managed default_params
     = (demo_managed, Inr [(demo_stored 10)\<lparr>ManagedAfter := \<lparr>unix = 1700000100, nsec = 0\<rparr>\<rparr>,
                           demo_stored 20])"
    by code_simp
  from f q
    AddrByTaprootOutput_unmanaged [of demo_ext "''regtest''" demo_managed "PublicKey 14 0"
      demo_managed "demo_stored 10" default_params demo_managed
      "[(demo_stored 10)\<lparr>ManagedAfter := \<lparr>unix = 1700000100, nsec = 0\<rparr>\<rparr>, demo_stored 20]"]
  show ?thesis by blast
qed

section \<open>The default upper bound of \<^verbatim>\<open>QueryAddrs\<close>\<close>

lemma word_sle_MaxInt64: "word_sle (x :: 64 word) MaxInt64"
proof -
  have "sint x < 2 ^ (LENGTH(64) - 1)" by (rule sint_lt)
  then show ?thesis by (simp add: word_sle_eq MaxInt64_def)
qed

lemma addr_matches_sentinel:
  "addr_matches a (time_Unix MaxInt64 0) u = addr_matches_from a u"
  by (rule ext) (simp add: addr_matches_def addr_matches_from_def to_db_time_def time_Unix_def
                word_sle_MaxInt64)

text \<open>
  C8.  When \<^verbatim>\<open>CreatedBefore\<close> is the zero time, \<^verbatim>\<open>QueryAddrs\<close> asks with the time
  \<^verbatim>\<open>time.Unix(math.MaxInt64, 0)\<close>, which no stored creation time exceeds: the result is
  that of the same query without the upper bound on the creation time.
\<close>

theorem QueryAddrs_CreatedBefore_unset:
  "IsZero (CreatedBefore p) \<Longrightarrow> QueryAddrs X tp s p = QueryAddrsNoUpperBound X tp s p"
  by (simp add: QueryAddrs_def QueryAddrsNoUpperBound_def FetchAddrs_def
        FetchAddrsNoUpperBound_def Let_def addr_matches_sentinel)

theorem QueryAddrs_CreatedBefore_unset_witness:
  "IsZero (CreatedBefore default_params) \<and>
   QueryAddrs demo_ext ''regtest'' demo_store default_params
     = QueryAddrsNoUpperBound demo_ext ''regtest'' demo_store default_params \<and>
   QueryAddrs demo_ext ''regtest'' demo_store default_params
     = (demo_store, Inr [demo_stored 10, demo_stored 20])"
proof -
  have z: "IsZero (CreatedBefore default_params)"
    by (simp add: default_params_def IsZero_def zero_time_def)
  have q: "QueryAddrs demo_ext ''regtest'' demo_store default_params
     = (demo_store, Inr [demo_stored 10, demo_stored 20])"
    by code_simp
  from z q QueryAddrs_CreatedBefore_unset [OF z, of demo_ext "''regtest''" demo_store]
  show ?thesis by simp
qed

section \<open>The status domain\<close>

lemma ucast_16_8_id: "(ucast (ucast (a :: 8 word) :: 16 word) :: 8 word) = a"
  by (simp add: ucast_up_ucast_id is_up)









section \<open>Uniqueness of the taproot output key\<close>

lemma upsertGenesisPoint_frame:
  "upsertGenesisPoint s p = Inr (s', i) \<Longrightarrow>
     genesis_assets s' = genesis_assets s \<and> internal_keys s' = internal_keys s \<and>
     script_keys s' = script_keys s \<and> addrs s' = addrs s \<and> chain_txns s' = chain_txns s \<and>
     managed_utxos s' = managed_utxos s \<and> addr_events s' = addr_events s \<and>
     asset_proofs s' = asset_proofs s"
  by (auto simp: upsertGenesisPoint_def split: option.splits)

lemma upsertGenesis_frame:
  "upsertGenesis s pid g = Inr (s', i) \<Longrightarrow>
     genesis_points s' = genesis_points s \<and> internal_keys s' = internal_keys s \<and>
     script_keys s' = script_keys s \<and> addrs s' = addrs s \<and> chain_txns s' = chain_txns s \<and>
     managed_utxos s' = managed_utxos s \<and> addr_events s' = addr_events s \<and>
     asset_proofs s' = asset_proofs s"
  by (auto simp: upsertGenesis_def split: option.splits)

lemma UpsertInternalKey_frame:
  "UpsertInternalKey s arg = Inr (s', i) \<Longrightarrow>
     genesis_points s' = genesis_points s \<and> genesis_assets s' = genesis_assets s \<and>
     script_keys s' = script_keys s \<and> addrs s' = addrs s \<and> chain_txns s' = chain_txns s \<and>
     managed_utxos s' = managed_utxos s \<and> addr_events s' = addr_events s \<and>
     asset_proofs s' = asset_proofs s"
  by (auto simp: UpsertInternalKey_def split: option.splits)

lemma UpsertScriptKey_frame:
  "UpsertScriptKey s arg = Inr (s', i) \<Longrightarrow>
     genesis_points s' = genesis_points s \<and> genesis_assets s' = genesis_assets s \<and>
     internal_keys s' = internal_keys s \<and> addrs s' = addrs s \<and> chain_txns s' = chain_txns s \<and>
     managed_utxos s' = managed_utxos s \<and> addr_events s' = addr_events s \<and>
     asset_proofs s' = asset_proofs s"
  by (auto simp: UpsertScriptKey_def split: option.splits)

lemma InsertAddr_frame:
  "InsertAddr s arg = Inr (s', i) \<Longrightarrow>
     genesis_points s' = genesis_points s \<and> genesis_assets s' = genesis_assets s \<and>
     internal_keys s' = internal_keys s \<and> script_keys s' = script_keys s \<and>
     chain_txns s' = chain_txns s \<and>
     managed_utxos s' = managed_utxos s \<and> addr_events s' = addr_events s \<and>
     asset_proofs s' = asset_proofs s"
  by (auto simp: InsertAddr_def split: if_splits)

lemma InsertAddr_Inr:
  "InsertAddr s arg = Inr (s', i) \<Longrightarrow>
     addrs s' = addrs s @ [arg\<lparr>managed_from := None\<rparr>] \<and> i = Suc (length (addrs s)) \<and>
     taproot_output_key arg \<notin> taproot_output_key ` set (addrs s) \<and>
     length (taproot_output_key arg) = 32"
  by (auto simp: InsertAddr_def split: if_splits)

lemma InsertAddr_Inl: "InsertAddr s arg = Inl e \<Longrightarrow> is_constraint e"
  by (auto simp: InsertAddr_def split: if_splits)

lemma InsertAddr_duplicate:
  "taproot_output_key arg \<in> taproot_output_key ` set (addrs s) \<Longrightarrow>
     \<exists>e. InsertAddr s arg = Inl e"
  by (auto simp: InsertAddr_def)

lemma upsertGenesisPoint_succeeds: "\<exists>s' i. upsertGenesisPoint s p = Inr (s', i)"
  by (simp add: upsertGenesisPoint_def split: option.splits)

lemma upsertGenesis_succeeds: "\<exists>s' i. upsertGenesis s pid g = Inr (s', i)"
  by (simp add: upsertGenesis_def split: option.splits)

lemma UpsertInternalKey_succeeds: "\<exists>s' i. UpsertInternalKey s arg = Inr (s', i)"
  by (simp add: UpsertInternalKey_def split: option.splits)

lemma UpsertScriptKey_succeeds: "\<exists>s' i. UpsertScriptKey s arg = Inr (s', i)"
  by (simp add: UpsertScriptKey_def split: option.splits)

text \<open>The steps of \<open>insertOneAddr\<close>, one by one: only the last can fail.\<close>

lemma insertOneAddr_steps:
  obtains db1 pid db2 gid db3 rid db4 sid db5 tid where
    "upsertGenesisPoint db (FirstPrevOut (AssetGenesis addr)) = Inr (db1, pid)"
    "upsertGenesis db1 pid (AssetGenesis addr) = Inr (db2, gid)"
    "insertInternalKey X db2 (RawKey addr) = Inr (db3, rid)"
    "UpsertScriptKey db3 \<lparr>internal_key_id = rid,
        tweaked_script_key = SerializeCompressed X (ScriptKey addr),
        tweak = Tweak addr\<rparr> = Inr (db4, sid)"
    "insertInternalKey X db4 (InternalKeyDesc addr) = Inr (db5, tid)"
    "insertOneAddr X db addr = wrap ''unable to insert addr''
        (InsertAddr db5 (addr_row X addr gid sid tid))"
proof -
  obtain db1 pid where
    1: "upsertGenesisPoint db (FirstPrevOut (AssetGenesis addr)) = Inr (db1, pid)"
    using upsertGenesisPoint_succeeds by blast
  obtain db2 gid where 2: "upsertGenesis db1 pid (AssetGenesis addr) = Inr (db2, gid)"
    using upsertGenesis_succeeds by blast
  obtain db3 rid where 3: "insertInternalKey X db2 (RawKey addr) = Inr (db3, rid)"
    unfolding insertInternalKey_def using UpsertInternalKey_succeeds by blast
  obtain db4 sid where 4: "UpsertScriptKey db3 \<lparr>internal_key_id = rid,
        tweaked_script_key = SerializeCompressed X (ScriptKey addr),
        tweak = Tweak addr\<rparr> = Inr (db4, sid)"
    using UpsertScriptKey_succeeds by blast
  obtain db5 tid where 5: "insertInternalKey X db4 (InternalKeyDesc addr) = Inr (db5, tid)"
    unfolding insertInternalKey_def using UpsertInternalKey_succeeds by blast
  have "insertOneAddr X db addr = wrap ''unable to insert addr''
        (InsertAddr db5 (addr_row X addr gid sid tid))"
    by (simp add: insertOneAddr_def 1 2 3 4 5 addr_row_def)
  with 1 2 3 4 5 show thesis by (rule that)
qed

lemma insertOneAddr_addrs:
  assumes "insertOneAddr X db addr = Inr (db', i)"
  shows "\<exists>row. addrs db' = addrs db @ [row] \<and>
           taproot_output_key row = SchnorrSerializePubKey X (TaprootOutputKey addr) \<and>
           taproot_output_key row \<notin> taproot_output_key ` set (addrs db)"
proof -
  obtain db1 pid db2 gid db3 rid db4 sid db5 tid where st:
    "upsertGenesisPoint db (FirstPrevOut (AssetGenesis addr)) = Inr (db1, pid)"
    "upsertGenesis db1 pid (AssetGenesis addr) = Inr (db2, gid)"
    "insertInternalKey X db2 (RawKey addr) = Inr (db3, rid)"
    "UpsertScriptKey db3 \<lparr>internal_key_id = rid,
        tweaked_script_key = SerializeCompressed X (ScriptKey addr),
        tweak = Tweak addr\<rparr> = Inr (db4, sid)"
    "insertInternalKey X db4 (InternalKeyDesc addr) = Inr (db5, tid)"
    "insertOneAddr X db addr = wrap ''unable to insert addr''
        (InsertAddr db5 (addr_row X addr gid sid tid))"
    by (rule insertOneAddr_steps)
  have same: "addrs db5 = addrs db"
    using st(1-5) unfolding insertInternalKey_def
    by (auto dest!: upsertGenesisPoint_frame upsertGenesis_frame UpsertInternalKey_frame
          UpsertScriptKey_frame)
  from assms st(6) have "InsertAddr db5 (addr_row X addr gid sid tid) = Inr (db', i)"
    by simp
  from InsertAddr_Inr [OF this] same show ?thesis
    by (auto simp: addr_row_def)
qed

lemma insertOneAddr_Inl: "insertOneAddr X db addr = Inl e \<Longrightarrow> is_constraint e"
  by (rule insertOneAddr_steps [of db addr X]) (auto simp: wrap_eq_Inl dest: InsertAddr_Inl)

lemma insertOneAddr_duplicate:
  assumes "SchnorrSerializePubKey X (TaprootOutputKey addr) \<in> taproot_output_key ` set (addrs db)"
  shows "\<exists>e. insertOneAddr X db addr = Inl e"
proof -
  obtain db1 pid db2 gid db3 rid db4 sid db5 tid where st:
    "upsertGenesisPoint db (FirstPrevOut (AssetGenesis addr)) = Inr (db1, pid)"
    "upsertGenesis db1 pid (AssetGenesis addr) = Inr (db2, gid)"
    "insertInternalKey X db2 (RawKey addr) = Inr (db3, rid)"
    "UpsertScriptKey db3 \<lparr>internal_key_id = rid,
        tweaked_script_key = SerializeCompressed X (ScriptKey addr),
        tweak = Tweak addr\<rparr> = Inr (db4, sid)"
    "insertInternalKey X db4 (InternalKeyDesc addr) = Inr (db5, tid)"
    "insertOneAddr X db addr = wrap ''unable to insert addr''
        (InsertAddr db5 (addr_row X addr gid sid tid))"
    by (rule insertOneAddr_steps)
  have same: "addrs db5 = addrs db"
    using st(1-5) unfolding insertInternalKey_def
    by (auto dest!: upsertGenesisPoint_frame upsertGenesis_frame UpsertInternalKey_frame
          UpsertScriptKey_frame)
  with assms have "taproot_output_key (addr_row X addr gid sid tid)
      \<in> taproot_output_key ` set (addrs db5)"
    by (simp add: addr_row_def)
  from InsertAddr_duplicate [OF this] st(6) show ?thesis by auto
qed

lemma insertAddrsLoop_Inl: "insertAddrsLoop X db batch = Inl e \<Longrightarrow> is_constraint e"
proof (induction batch arbitrary: db)
  case Nil
  then show ?case by simp
next
  case (Cons a batch)
  then show ?case
    by (auto simp: bindE_eq_Inl dest: insertOneAddr_Inl)
qed

lemma insertAddrsLoop_Inr:
  "insertAddrsLoop X db batch = Inr (db', u) \<Longrightarrow>
     map taproot_output_key (addrs db') =
       map taproot_output_key (addrs db) @
       map (\<lambda>a. SchnorrSerializePubKey X (TaprootOutputKey a)) batch \<and>
     distinct (map (\<lambda>a. SchnorrSerializePubKey X (TaprootOutputKey a)) batch) \<and>
     (\<forall>a \<in> set batch. SchnorrSerializePubKey X (TaprootOutputKey a)
          \<notin> taproot_output_key ` set (addrs db))"
proof (induction batch arbitrary: db)
  case Nil
  then show ?case by simp
next
  case (Cons a batch)
  from Cons.prems obtain db1 i where
    1: "insertOneAddr X db a = Inr (db1, i)" and 2: "insertAddrsLoop X db1 batch = Inr (db', u)"
    by (auto simp: bindE_eq_Inr)
  from insertOneAddr_addrs [OF 1] obtain row where
    row: "addrs db1 = addrs db @ [row]"
      "taproot_output_key row = SchnorrSerializePubKey X (TaprootOutputKey a)"
      "taproot_output_key row \<notin> taproot_output_key ` set (addrs db)"
    by blast
  from Cons.IH [OF 2] row show ?case
    by auto
qed

lemma InsertAddrs_fails_on_duplicate:
  assumes "\<not> distinct (map (\<lambda>a. SchnorrSerializePubKey X (TaprootOutputKey a)) batch) \<or>
     (\<exists>a \<in> set batch. SchnorrSerializePubKey X (TaprootOutputKey a)
          \<in> taproot_output_key ` set (addrs s))"
  shows "\<exists>e'. InsertAddrs X s batch = (s, Inl e') \<and> is_constraint e'"
proof (cases "insertAddrsLoop X s batch")
  case (Inl e')
  then show ?thesis
    by (auto simp: InsertAddrs_def ExecTx_def dest: insertAddrsLoop_Inl)
next
  case (Inr p)
  obtain db' u where "p = (db', u)" by (cases p)
  with Inr insertAddrsLoop_Inr [of X s batch db' u] assms show ?thesis
    by blast
qed

text \<open>
  C3.  A batch of \<^verbatim>\<open>InsertAddrs\<close> that fails leaves the store as it was.  It fails,
  with a constraint error, when two of its addresses have the same taproot output key
  or one of them has the key of a stored address; in particular an address inserted
  after one with the same key is refused and adds no row.
\<close>

theorem InsertAddrs_unique_all_or_nothing:
  "(InsertAddrs X s batch = (s', Inl e) \<longrightarrow> s' = s) \<and>
   ((\<not> distinct (map (\<lambda>a. SchnorrSerializePubKey X (TaprootOutputKey a)) batch) \<or>
     (\<exists>a \<in> set batch. SchnorrSerializePubKey X (TaprootOutputKey a)
          \<in> taproot_output_key ` set (addrs s))) \<longrightarrow>
    (\<exists>e'. InsertAddrs X s batch = (s, Inl e') \<and> is_constraint e')) \<and>
   (InsertAddrs X s [a] = (s1, Inr u) \<and>
    SchnorrSerializePubKey X (TaprootOutputKey b) = SchnorrSerializePubKey X (TaprootOutputKey a)
      \<longrightarrow> (\<exists>e'. InsertAddrs X s1 [b] = (s1, Inl e') \<and> is_constraint e'))"
proof (intro conjI impI)
  assume "InsertAddrs X s batch = (s', Inl e)"
  then show "s' = s" by (auto simp: InsertAddrs_def dest: ExecTx_error_keeps_store)
next
  assume "\<not> distinct (map (\<lambda>a. SchnorrSerializePubKey X (TaprootOutputKey a)) batch) \<or>
     (\<exists>a \<in> set batch. SchnorrSerializePubKey X (TaprootOutputKey a)
          \<in> taproot_output_key ` set (addrs s))"
  then show "\<exists>e'. InsertAddrs X s batch = (s, Inl e') \<and> is_constraint e'"
    by (rule InsertAddrs_fails_on_duplicate)
next
  assume a: "InsertAddrs X s [a] = (s1, Inr u) \<and>
    SchnorrSerializePubKey X (TaprootOutputKey b) = SchnorrSerializePubKey X (TaprootOutputKey a)"
  then have "insertAddrsLoop X s [a] = Inr (s1, u)"
    by (auto simp: InsertAddrs_def dest: ExecTx_value)
  from insertAddrsLoop_Inr [OF this]
  have "SchnorrSerializePubKey X (TaprootOutputKey a) \<in> set (map taproot_output_key (addrs s1))"
    by simp
  with a have "\<exists>c \<in> set [b]. SchnorrSerializePubKey X (TaprootOutputKey c)
          \<in> taproot_output_key ` set (addrs s1)"
    by simp
  then show "\<exists>e'. InsertAddrs X s1 [b] = (s1, Inl e') \<and> is_constraint e'"
    using InsertAddrs_fails_on_duplicate [of X "[b]" s1] by blast
qed

theorem InsertAddrs_unique_all_or_nothing_witness:
  "InsertAddrs demo_ext empty_store [demo_addr 10, demo_addr 20] = (demo_store, Inr ()) \<and>
   SchnorrSerializePubKey demo_ext (TaprootOutputKey (demo_addr 10))
     \<in> taproot_output_key ` set (addrs demo_store) \<and>
   InsertAddrs demo_ext demo_store [demo_addr 30, demo_addr 10]
     = (demo_store, Inl (Wrapped ''unable to insert addr''
          (ConstraintError ''UNIQUE constraint failed: addrs.taproot_output_key''))) \<and>
   (\<exists>e'. InsertAddrs demo_ext demo_store [demo_addr 30, demo_addr 10] = (demo_store, Inl e') \<and>
          is_constraint e')"
proof -
  have i: "InsertAddrs demo_ext empty_store [demo_addr 10, demo_addr 20] = (demo_store, Inr ())"
    by code_simp
  have k: "SchnorrSerializePubKey demo_ext (TaprootOutputKey (demo_addr 10))
     \<in> taproot_output_key ` set (addrs demo_store)"
    by code_simp
  have f: "InsertAddrs demo_ext demo_store [demo_addr 30, demo_addr 10]
     = (demo_store, Inl (Wrapped ''unable to insert addr''
          (ConstraintError ''UNIQUE constraint failed: addrs.taproot_output_key'')))"
    by code_simp
  from k have "\<exists>a \<in> set [demo_addr 30, demo_addr 10].
      SchnorrSerializePubKey demo_ext (TaprootOutputKey a)
        \<in> taproot_output_key ` set (addrs demo_store)"
    by simp
  with i k f InsertAddrs_unique_all_or_nothing [of demo_ext demo_store
      "[demo_addr 30, demo_addr 10]" demo_store
      "Wrapped ''unable to insert addr''
          (ConstraintError ''UNIQUE constraint failed: addrs.taproot_output_key'')"]
  show ?thesis by blast
qed


section \<open>Rows and their ids\<close>

lemma row_by_id_append:
  "row_by_id (xs @ [x]) i = (if i = Suc (length xs) then Some x else row_by_id xs i)"
  by (auto simp: row_by_id_def nth_append)

lemma row_by_id_set_row:
  "row_by_id (set_row xs i x) j
     = (if j = i \<and> 0 < i \<and> i \<le> length xs then Some x else row_by_id xs j)"
proof (cases "0 < i \<and> 0 < j")
  case True
  then have "i - 1 = j - 1 \<longleftrightarrow> i = j" by auto
  with True show ?thesis
    by (auto simp: row_by_id_def set_row_def nth_list_update)
next
  case False
  then show ?thesis by (auto simp: row_by_id_def set_row_def)
qed

lemma row_by_id_Some_iff:
  "row_by_id xs i = Some x \<longleftrightarrow> 0 < i \<and> i \<le> length xs \<and> xs ! (i - 1) = x"
  by (auto simp: row_by_id_def)

lemma row_by_id_le: "row_by_id xs i = Some x \<Longrightarrow> 0 < i \<and> i \<le> length xs"
  by (auto simp: row_by_id_def split: if_splits)

lemma row_by_id_in_set: "row_by_id xs i = Some x \<Longrightarrow> x \<in> set xs"
proof -
  assume a: "row_by_id xs i = Some x"
  then have "i - 1 < length xs" "xs ! (i - 1) = x"
    by (auto simp: row_by_id_def split: if_splits)
  then show ?thesis by (metis nth_mem)
qed

lemma row_by_id_append_old:
  "row_by_id xs i = Some x \<Longrightarrow> row_by_id (xs @ ys) i = Some x"
  by (auto simp: row_by_id_def nth_append split: if_splits)

lemma find_id_None: "find_id P xs = None \<longleftrightarrow> (\<forall>x \<in> set xs. \<not> P x)"
  by (induction xs) auto

lemma find_id_Some:
  "find_id P xs = Some i \<Longrightarrow>
     0 < i \<and> i \<le> length xs \<and> P (xs ! (i - 1)) \<and> (\<forall>j < i - 1. \<not> P (xs ! j))"
proof (induction xs arbitrary: i)
  case Nil
  then show ?case by simp
next
  case (Cons x xs)
  show ?case
  proof (cases "P x")
    case True
    with Cons.prems show ?thesis by simp
  next
    case False
    with Cons.prems obtain k where k: "find_id P xs = Some k" "i = Suc k"
      by auto
    from Cons.IH [OF k(1)] False k(2) show ?thesis
      by (auto simp: nth_Cons split: nat.splits)
  qed
qed

lemma find_id_row: "find_id P xs = Some i \<Longrightarrow> \<exists>x. row_by_id xs i = Some x \<and> P x"
  by (auto simp: row_by_id_def dest: find_id_Some)

lemma find_id_first:
  assumes "i < length xs" and "P (xs ! i)" and "\<forall>j < i. \<not> P (xs ! j)"
  shows "find_id P xs = Some (Suc i)"
  using assms
proof (induction xs arbitrary: i)
  case Nil
  then show ?case by simp
next
  case (Cons x xs)
  show ?case
  proof (cases i)
    case 0
    with Cons.prems show ?thesis by simp
  next
    case (Suc k)
    with Cons.prems have "\<not> P x" by auto
    moreover from Cons.prems Suc have "find_id P xs = Some (Suc k)"
      by (intro Cons.IH) auto
    ultimately show ?thesis using Suc by simp
  qed
qed

lemma find_id_append_new:
  "find_id P xs = None \<Longrightarrow> P x \<Longrightarrow> find_id P (xs @ [x]) = Some (Suc (length xs))"
  by (rule find_id_first) (auto simp: find_id_None nth_append)

lemma find_id_set_row_same:
  assumes "find_id P xs = Some i" and "P x"
  shows "find_id P (set_row xs i x) = Some i"
proof -
  from find_id_Some [OF assms(1)] have
    i: "0 < i" "i \<le> length xs" "\<forall>j < i - 1. \<not> P (xs ! j)" by auto
  have "find_id P (set_row xs i x) = Some (Suc (i - 1))"
    using i assms(2) by (intro find_id_first) (auto simp: set_row_def)
  with i show ?thesis by simp
qed

lemma find_id_append_old:
  "find_id P xs = Some i \<Longrightarrow> find_id P (xs @ ys) = Some i"
  by (induction xs arbitrary: i) (auto split: if_splits)

lemma find_id_distinct:
  assumes "distinct (map f xs)" and "i < length xs"
  shows "find_id (\<lambda>x. f x = f (xs ! i)) xs = Some (Suc i)"
proof (rule find_id_first)
  show "i < length xs" by fact
  show "f (xs ! i) = f (xs ! i)" by simp
  show "\<forall>j < i. \<not> f (xs ! j) = f (xs ! i)"
  proof (intro allI impI)
    fix j assume "j < i"
    with assms have "map f xs ! j \<noteq> map f xs ! i"
      by (simp add: nth_eq_iff_index_eq del: nth_map)
    with \<open>j < i\<close> assms(2) show "\<not> f (xs ! j) = f (xs ! i)" by simp
  qed
qed

section \<open>The key registry and the genesis records under an insertion\<close>

lemma insertInternalKey_key_row:
  "insertInternalKey X s desc = UpsertInternalKey s (key_row X desc)"
  by (simp add: insertInternalKey_def key_row_def)

lemma UpsertInternalKey_target:
  "UpsertInternalKey s arg = Inr (s', i) \<Longrightarrow> row_by_id (internal_keys s') i = Some arg"
  by (auto simp: UpsertInternalKey_def row_by_id_append row_by_id_set_row
           split: option.splits dest: find_id_Some)

lemma UpsertInternalKey_keeps:
  assumes "UpsertInternalKey s arg = Inr (s', i)"
      and "row_by_id (internal_keys s) j = Some r"
      and "raw_key r = raw_key arg \<Longrightarrow> r = arg"
  shows "row_by_id (internal_keys s') j = Some r"
proof (cases "find_id (\<lambda>r. raw_key r = raw_key arg) (internal_keys s)")
  case None
  with assms(1,2) show ?thesis
    by (auto simp: UpsertInternalKey_def row_by_id_append_old)
next
  case (Some k)
  with assms(1) have s': "s' = s\<lparr>internal_keys := set_row (internal_keys s) k arg\<rparr>" "i = k"
    by (auto simp: UpsertInternalKey_def)
  show ?thesis
  proof (cases "j = k")
    case True
    from find_id_row [OF Some] True assms(2) have "raw_key r = raw_key arg" by auto
    with assms(3) have "r = arg" by simp
    with s' True assms(2) show ?thesis
      by (auto simp: row_by_id_set_row row_by_id_Some_iff)
  next
    case False
    with s' assms(2) show ?thesis by (simp add: row_by_id_set_row)
  qed
qed

lemma UpsertScriptKey_target:
  "UpsertScriptKey s arg = Inr (s', i) \<Longrightarrow> row_by_id (script_keys s') i = Some arg"
  by (auto simp: UpsertScriptKey_def row_by_id_append row_by_id_set_row
           split: option.splits dest: find_id_Some)

lemma UpsertScriptKey_other:
  assumes "UpsertScriptKey s arg = Inr (s', i)"
      and "row_by_id (script_keys s) j = Some r"
  shows "row_by_id (script_keys s') j = Some r \<or>
         (row_by_id (script_keys s') j = Some arg \<and>
          tweaked_script_key r = tweaked_script_key arg)"
proof (cases "find_id (\<lambda>r. tweaked_script_key r = tweaked_script_key arg) (script_keys s)")
  case None
  with assms show ?thesis
    by (auto simp: UpsertScriptKey_def row_by_id_append_old)
next
  case (Some k)
  with assms(1) have s': "s' = s\<lparr>script_keys := set_row (script_keys s) k arg\<rparr>" "i = k"
    by (auto simp: UpsertScriptKey_def)
  show ?thesis
  proof (cases "j = k")
    case True
    from find_id_row [OF Some] True assms(2)
    have "tweaked_script_key r = tweaked_script_key arg" by auto
    with s' True assms(2) show ?thesis
      by (auto simp: row_by_id_set_row row_by_id_Some_iff)
  next
    case False
    with s' assms(2) show ?thesis by (simp add: row_by_id_set_row)
  qed
qed

lemma fetchGenesis_cong:
  "genesis_points s' = genesis_points s \<Longrightarrow> genesis_assets s' = genesis_assets s \<Longrightarrow>
     fetchGenesis s' gid = fetchGenesis s gid"
  by (simp add: fetchGenesis_def split: option.splits)

lemma upsertGenesisPoint_keeps:
  assumes "upsertGenesisPoint s p = Inr (s', i)" and "fetchGenesis s gid = Inr g"
  shows "fetchGenesis s' gid = Inr g"
  using assms
  by (auto simp: upsertGenesisPoint_def fetchGenesis_def row_by_id_append_old
           split: option.splits)

lemma upsertGenesis_keeps:
  assumes "upsertGenesis s pid g' = Inr (s', i)" and "fetchGenesis s gid = Inr g"
  shows "fetchGenesis s' gid = Inr g"
  using assms
  by (auto simp: upsertGenesis_def fetchGenesis_def row_by_id_append_old
           split: option.splits)

lemma upsertGenesisPoint_target:
  "upsertGenesisPoint s p = Inr (s', i) \<Longrightarrow> row_by_id (genesis_points s') i = Some p"
  by (auto simp: upsertGenesisPoint_def row_by_id_append split: option.splits
           dest: find_id_row)

lemma upsertGenesis_target:
  assumes "upsertGenesis s pid g = Inr (s', i)"
      and "row_by_id (genesis_points s) pid = Some (FirstPrevOut g)"
  shows "fetchGenesis s' i = Inr g"
proof -
  from assms(1) have r: "row_by_id (genesis_assets s') i = Some (genesis_row pid g)"
    and p: "genesis_points s' = genesis_points s"
    by (auto simp: upsertGenesis_def row_by_id_append split: option.splits dest: find_id_row)
  with assms(2) show ?thesis
    by (simp add: fetchGenesis_def genesis_row_def)
qed


section \<open>What the store holds\<close>

lemma represents_cong:
  assumes "genesis_points s' = genesis_points s" "genesis_assets s' = genesis_assets s"
    "internal_keys s' = internal_keys s" "script_keys s' = script_keys s"
  shows "represents X s' r a = represents X s r a"
  using assms fetchGenesis_cong [of s' s]
  by (simp add: represents_def split: option.splits)

lemma valid_addr_ser_inj:
  assumes "ParsePubKey X (SerializeCompressed X k) = Some k"
      and "ParsePubKey X (SerializeCompressed X k') = Some k'"
      and "SerializeCompressed X k = SerializeCompressed X k'"
  shows "k = k'"
  using assms by (metis option.inject)

lemma key_row_eq:
  "key_row X d = key_row X d' \<longleftrightarrow>
     SerializeCompressed X (PubKey d) = SerializeCompressed X (PubKey d') \<and>
     Family d = Family d' \<and> Index d = Index d'"
  by (auto simp: key_row_def)

text \<open>
  An internal key upserted for a descriptor \<open>d\<close> leaves every row that holds the key
  of a descriptor \<open>d'\<close> with which \<open>d\<close> agrees.
\<close>

lemma insertInternalKey_keeps:
  assumes up: "insertInternalKey X s d = Inr (s', i)"
      and row: "row_by_id (internal_keys s) j = Some (key_row X d')"
      and pd: "ParsePubKey X (SerializeCompressed X (PubKey d)) = Some (PubKey d)"
      and pd': "ParsePubKey X (SerializeCompressed X (PubKey d')) = Some (PubKey d')"
      and agree: "PubKey d' = PubKey d \<Longrightarrow> d' = d"
  shows "row_by_id (internal_keys s') j = Some (key_row X d')"
proof (rule UpsertInternalKey_keeps [OF up [unfolded insertInternalKey_key_row] row])
  assume "raw_key (key_row X d') = raw_key (key_row X d)"
  then have "SerializeCompressed X (PubKey d') = SerializeCompressed X (PubKey d)"
    by (simp add: key_row_def)
  with pd pd' have "PubKey d' = PubKey d"
    by (metis option.inject)
  with agree show "key_row X d' = key_row X d" by simp
qed

lemma insertInternalKey_represents:
  assumes up: "insertInternalKey X s d = Inr (s', i)"
      and rep: "represents X s r b"
      and vb: "valid_addr X tp b"
      and pd: "ParsePubKey X (SerializeCompressed X (PubKey d)) = Some (PubKey d)"
      and a1: "PubKey (RawKey b) = PubKey d \<Longrightarrow> RawKey b = d"
      and a2: "PubKey (InternalKeyDesc b) = PubKey d \<Longrightarrow> InternalKeyDesc b = d"
  shows "represents X s' r b"
proof -
  from up have fr: "genesis_points s' = genesis_points s" "genesis_assets s' = genesis_assets s"
    "script_keys s' = script_keys s"
    unfolding insertInternalKey_def by (auto dest: UpsertInternalKey_frame)
  from rep obtain sk where
    r: "r\<lparr>managed_from := None\<rparr>
        = addr_row X b (genesis_asset_id r) (script_key_id r) (taproot_key_id r)"
    and g: "fetchGenesis s (genesis_asset_id r) = Inr (AssetGenesis b)"
    and t: "row_by_id (internal_keys s) (taproot_key_id r) = Some (key_row X (InternalKeyDesc b))"
    and sk: "row_by_id (script_keys s) (script_key_id r) = Some sk"
      "tweaked_script_key sk = SerializeCompressed X (ScriptKey b)" "tweak sk = Tweak b"
    and k: "row_by_id (internal_keys s) (internal_key_id sk) = Some (key_row X (RawKey b))"
    by (auto simp: represents_def split: option.splits)
  from vb have pb:
    "ParsePubKey X (SerializeCompressed X (PubKey (RawKey b))) = Some (PubKey (RawKey b))"
    "ParsePubKey X (SerializeCompressed X (PubKey (InternalKeyDesc b)))
       = Some (PubKey (InternalKeyDesc b))"
    by (auto simp: valid_addr_def)
  have t': "row_by_id (internal_keys s') (taproot_key_id r) = Some (key_row X (InternalKeyDesc b))"
    by (rule insertInternalKey_keeps [OF up t pd pb(2) a2])
  have k': "row_by_id (internal_keys s') (internal_key_id sk) = Some (key_row X (RawKey b))"
    by (rule insertInternalKey_keeps [OF up k pd pb(1) a1])
  from r g t' sk k' fr fetchGenesis_cong [OF fr(1,2)] show ?thesis
    by (simp add: represents_def)
qed

lemma upsertGenesisPoint_represents:
  assumes "upsertGenesisPoint s p = Inr (s', i)" and "represents X s r b"
  shows "represents X s' r b"
  using assms upsertGenesisPoint_frame [OF assms(1)] upsertGenesisPoint_keeps [OF assms(1)]
  by (auto simp: represents_def split: option.splits)

lemma upsertGenesis_represents:
  assumes "upsertGenesis s pid g = Inr (s', i)" and "represents X s r b"
  shows "represents X s' r b"
  using assms upsertGenesis_frame [OF assms(1)] upsertGenesis_keeps [OF assms(1)]
  by (auto simp: represents_def split: option.splits)

text \<open>
  The script key upserted for an address \<open>a\<close>, whose raw key row is in place, leaves
  what is held of an address \<open>b\<close> that agrees with \<open>a\<close>.
\<close>

lemma UpsertScriptKey_represents:
  assumes up: "UpsertScriptKey s \<lparr>internal_key_id = rid,
        tweaked_script_key = SerializeCompressed X (ScriptKey a),
        tweak = Tweak a\<rparr> = Inr (s', i)"
      and rid: "row_by_id (internal_keys s) rid = Some (key_row X (RawKey a))"
      and rep: "represents X s r b"
      and va: "valid_addr X tp a" and vb: "valid_addr X tp b"
      and agree: "ScriptKey b = ScriptKey a \<Longrightarrow> Tweak b = Tweak a \<and> RawKey b = RawKey a"
  shows "represents X s' r b"
proof -
  let ?arg = "\<lparr>internal_key_id = rid,
        tweaked_script_key = SerializeCompressed X (ScriptKey a), tweak = Tweak a\<rparr>"
  from up have fr: "genesis_points s' = genesis_points s" "genesis_assets s' = genesis_assets s"
    "internal_keys s' = internal_keys s"
    by (auto dest: UpsertScriptKey_frame)
  from rep obtain sk where
    r: "r\<lparr>managed_from := None\<rparr>
        = addr_row X b (genesis_asset_id r) (script_key_id r) (taproot_key_id r)"
    and g: "fetchGenesis s (genesis_asset_id r) = Inr (AssetGenesis b)"
    and t: "row_by_id (internal_keys s) (taproot_key_id r) = Some (key_row X (InternalKeyDesc b))"
    and sk: "row_by_id (script_keys s) (script_key_id r) = Some sk"
      "tweaked_script_key sk = SerializeCompressed X (ScriptKey b)" "tweak sk = Tweak b"
    and k: "row_by_id (internal_keys s) (internal_key_id sk) = Some (key_row X (RawKey b))"
    by (auto simp: represents_def split: option.splits)
  from UpsertScriptKey_other [OF up sk(1)]
  show ?thesis
  proof
    assume "row_by_id (script_keys s') (script_key_id r) = Some sk"
    with r g t sk k fr fetchGenesis_cong [OF fr(1,2)] show ?thesis
      by (simp add: represents_def)
  next
    assume new: "row_by_id (script_keys s') (script_key_id r) = Some ?arg \<and>
          tweaked_script_key sk = tweaked_script_key ?arg"
    with sk(2) have "SerializeCompressed X (ScriptKey b) = SerializeCompressed X (ScriptKey a)"
      by simp
    moreover from va vb have
      "ParsePubKey X (SerializeCompressed X (ScriptKey a)) = Some (ScriptKey a)"
      "ParsePubKey X (SerializeCompressed X (ScriptKey b)) = Some (ScriptKey b)"
      by (auto simp: valid_addr_def)
    ultimately have "ScriptKey b = ScriptKey a" by (metis option.inject)
    with agree have "Tweak b = Tweak a" "RawKey b = RawKey a" by auto
    with new r g t rid fr fetchGenesis_cong [OF fr(1,2)] \<open>ScriptKey b = ScriptKey a\<close>
    show ?thesis
      by (simp add: represents_def)
  qed
qed

lemma InsertAddr_represents:
  assumes "InsertAddr s arg = Inr (s', i)"
  shows "represents X s' r b = represents X s r b"
  using InsertAddr_frame [OF assms] by (intro represents_cong) auto


text \<open>One address more: what was held is still held, and the new row holds the new address.\<close>

lemma insertOneAddr_holds:
  assumes ins: "insertOneAddr X s a = Inr (s', i)"
      and h: "holds X s as"
      and va: "valid_addr X tp a"
      and vas: "\<forall>b \<in> set as. valid_addr X tp b"
      and comp: "\<forall>b \<in> set as. compatible b a"
      and self: "compatible a a"
  shows "holds X s' (as @ [a])"
proof -
  obtain db1 pid db2 gid db3 rid db4 sid db5 tid where st:
    "upsertGenesisPoint s (FirstPrevOut (AssetGenesis a)) = Inr (db1, pid)"
    "upsertGenesis db1 pid (AssetGenesis a) = Inr (db2, gid)"
    "insertInternalKey X db2 (RawKey a) = Inr (db3, rid)"
    "UpsertScriptKey db3 \<lparr>internal_key_id = rid,
        tweaked_script_key = SerializeCompressed X (ScriptKey a),
        tweak = Tweak a\<rparr> = Inr (db4, sid)"
    "insertInternalKey X db4 (InternalKeyDesc a) = Inr (db5, tid)"
    "insertOneAddr X s a = wrap ''unable to insert addr''
        (InsertAddr db5 (addr_row X a gid sid tid))"
    by (rule insertOneAddr_steps)
  let ?row = "addr_row X a gid sid tid"
  from ins st(6) have ia: "InsertAddr db5 ?row = Inr (s', i)" by simp
  note f1 = upsertGenesisPoint_frame [OF st(1)]
  note f2 = upsertGenesis_frame [OF st(2)]
  note f3 = UpsertInternalKey_frame [OF st(3) [unfolded insertInternalKey_def]]
  note f4 = UpsertScriptKey_frame [OF st(4)]
  note f5 = UpsertInternalKey_frame [OF st(5) [unfolded insertInternalKey_def]]
  note f6 = InsertAddr_frame [OF ia]
  from va have pa:
    "ParsePubKey X (SerializeCompressed X (PubKey (RawKey a))) = Some (PubKey (RawKey a))"
    "ParsePubKey X (SerializeCompressed X (PubKey (InternalKeyDesc a)))
       = Some (PubKey (InternalKeyDesc a))"
    by (auto simp: valid_addr_def)
  have rid3: "row_by_id (internal_keys db3) rid = Some (key_row X (RawKey a))"
    using UpsertInternalKey_target [OF st(3) [unfolded insertInternalKey_key_row]] .
  have old: "represents X s' r b" if rb: "represents X s r b" and b: "b \<in> set as" for r b
  proof -
    from b comp vas have c: "compatible b a" and vb: "valid_addr X tp b" by auto
    have 1: "represents X db1 r b" by (rule upsertGenesisPoint_represents [OF st(1) rb])
    have 2: "represents X db2 r b" by (rule upsertGenesis_represents [OF st(2) 1])
    have 3: "represents X db3 r b"
      using c by (intro insertInternalKey_represents [OF st(3) 2 vb pa(1)])
                 (auto simp: compatible_def)
    have 4: "represents X db4 r b"
      using c by (intro UpsertScriptKey_represents [OF st(4) rid3 3 va vb])
                 (auto simp: compatible_def)
    have 5: "represents X db5 r b"
      using c by (intro insertInternalKey_represents [OF st(5) 4 vb pa(2)])
                 (auto simp: compatible_def)
    with InsertAddr_represents [OF ia] show ?thesis by simp
  qed
  have new: "represents X s' ?row a"
  proof -
    have "row_by_id (genesis_points db1) pid = Some (FirstPrevOut (AssetGenesis a))"
      by (rule upsertGenesisPoint_target [OF st(1)])
    from upsertGenesis_target [OF st(2) this]
    have g: "fetchGenesis s' gid = Inr (AssetGenesis a)"
      using fetchGenesis_cong [of s' db2] f3 f4 f5 f6 by simp
    have t: "row_by_id (internal_keys s') tid = Some (key_row X (InternalKeyDesc a))"
      using UpsertInternalKey_target [OF st(5) [unfolded insertInternalKey_key_row]] f6 by simp
    have sk: "row_by_id (script_keys s') sid = Some \<lparr>internal_key_id = rid,
        tweaked_script_key = SerializeCompressed X (ScriptKey a), tweak = Tweak a\<rparr>"
      using UpsertScriptKey_target [OF st(4)] f5 f6 by simp
    from rid3 f4 have "row_by_id (internal_keys db4) rid = Some (key_row X (RawKey a))" by simp
    from insertInternalKey_keeps [OF st(5) this pa(2) pa(1)] self
    have k: "row_by_id (internal_keys s') rid = Some (key_row X (RawKey a))"
      using f6 by (auto simp: compatible_def)
    from g t sk k show ?thesis
      by (simp add: represents_def addr_row_def)
  qed
  from InsertAddr_Inr [OF ia] f1 f2 f3 f4 f5
  have ad: "addrs s' = addrs s @ [?row\<lparr>managed_from := None\<rparr>]"
    and fresh: "taproot_output_key ?row \<notin> taproot_output_key ` set (addrs s)"
    by auto
  have row: "?row\<lparr>managed_from := None\<rparr> = ?row" by (simp add: addr_row_def)
  from h have "list_all2 (represents X s) (addrs s) as" by (simp add: holds_def)
  then have "list_all2 (represents X s') (addrs s) as"
    by (rule list.rel_mono_strong) (rule old)
  with new have "list_all2 (represents X s') (addrs s') (as @ [a])"
    by (simp add: ad row list_all2_appendI)
  moreover from h fresh have "distinct (map taproot_output_key (addrs s'))"
    by (auto simp: holds_def ad row)
  ultimately show ?thesis by (simp add: holds_def)
qed

lemma insertOneAddr_unmanaged:
  assumes "insertOneAddr X s a = Inr (s', i)" and "unmanaged s"
  shows "unmanaged s'"
proof -
  obtain db1 pid db2 gid db3 rid db4 sid db5 tid where st:
    "upsertGenesisPoint s (FirstPrevOut (AssetGenesis a)) = Inr (db1, pid)"
    "upsertGenesis db1 pid (AssetGenesis a) = Inr (db2, gid)"
    "insertInternalKey X db2 (RawKey a) = Inr (db3, rid)"
    "UpsertScriptKey db3 \<lparr>internal_key_id = rid,
        tweaked_script_key = SerializeCompressed X (ScriptKey a),
        tweak = Tweak a\<rparr> = Inr (db4, sid)"
    "insertInternalKey X db4 (InternalKeyDesc a) = Inr (db5, tid)"
    "insertOneAddr X s a = wrap ''unable to insert addr''
        (InsertAddr db5 (addr_row X a gid sid tid))"
    by (rule insertOneAddr_steps)
  from assms(1) st(6) have ia: "InsertAddr db5 (addr_row X a gid sid tid) = Inr (s', i)"
    by simp
  from InsertAddr_Inr [OF ia] upsertGenesisPoint_frame [OF st(1)] upsertGenesis_frame [OF st(2)]
    UpsertInternalKey_frame [OF st(3) [unfolded insertInternalKey_def]]
    UpsertScriptKey_frame [OF st(4)]
    UpsertInternalKey_frame [OF st(5) [unfolded insertInternalKey_def]] assms(2)
  show ?thesis by (auto simp: unmanaged_def)
qed

lemma insertAddrsLoop_holds:
  assumes "insertAddrsLoop X s batch = Inr (s', u)"
      and "holds X s as" and "unmanaged s"
      and "\<forall>a \<in> set (as @ batch). valid_addr X tp a"
      and "\<forall>a \<in> set (as @ batch). \<forall>b \<in> set (as @ batch). compatible a b"
  shows "holds X s' (as @ batch) \<and> unmanaged s'"
  using assms
proof (induction batch arbitrary: s as)
  case Nil
  then show ?case by simp
next
  case (Cons a batch)
  from Cons.prems(1) obtain s1 i where
    1: "insertOneAddr X s a = Inr (s1, i)" and 2: "insertAddrsLoop X s1 batch = Inr (s', u)"
    by (auto simp: bindE_eq_Inr)
  have h1: "holds X s1 (as @ [a])"
    using Cons.prems(2,4,5) by (intro insertOneAddr_holds [OF 1, where tp = tp]) auto
  have u1: "unmanaged s1" by (rule insertOneAddr_unmanaged [OF 1 Cons.prems(3)])
  from Cons.IH [OF 2 h1 u1] Cons.prems(4,5) show ?case by simp
qed

section \<open>Reading an address back\<close>

lemma limit_offset_default: "limit_offset 0 (- 1) xs = xs"
  by (simp add: limit_offset_def)

lemma represents_reads:
  assumes rep: "represents X s r b" and vb: "valid_addr X tp b"
  shows "\<exists>j. join_addr s r = Some j \<and>
           queryAddrsRow X tp s j
             = Inr ((stored_as b)\<lparr>ManagedAfter := NullTime_Time (managed_from r)\<rparr>) \<and>
           fetchAddrRow X s tp k j = Inr ((stored_as b)\<lparr>TaprootOutputKey := k\<rparr>)"
proof -
  from rep obtain sk where
    r: "r\<lparr>managed_from := None\<rparr>
        = addr_row X b (genesis_asset_id r) (script_key_id r) (taproot_key_id r)"
    and g: "fetchGenesis s (genesis_asset_id r) = Inr (AssetGenesis b)"
    and t: "row_by_id (internal_keys s) (taproot_key_id r) = Some (key_row X (InternalKeyDesc b))"
    and sk: "row_by_id (script_keys s) (script_key_id r) = Some sk"
      "tweaked_script_key sk = SerializeCompressed X (ScriptKey b)" "tweak sk = Tweak b"
    and kr: "row_by_id (internal_keys s) (internal_key_id sk) = Some (key_row X (RawKey b))"
    by (auto simp: represents_def split: option.splits)
  have cols: "version r = ucast (Version b)"
    "fam_key r = (case FamilyKey b of None \<Rightarrow> None | Some k \<Rightarrow> Some (SerializeCompressed X k))"
    "taproot_output_key r = SchnorrSerializePubKey X (TaprootOutputKey b)"
    "amount r = Amount b" "creation_time r = to_db_time (CreationTime b)"
    using arg_cong [OF r, of version] arg_cong [OF r, of fam_key]
      arg_cong [OF r, of taproot_output_key] arg_cong [OF r, of amount]
      arg_cong [OF r, of creation_time]
    by (simp_all add: addr_row_def)
  have fam: "parseFamKey X (fam_key r) = Inr (FamilyKey b)"
    using vb by (auto simp: parseFamKey_def cols valid_addr_def split: option.splits)
  define j where "j = \<lparr>dbVersion = version r, dbGenesisAssetID = genesis_asset_id r,
                dbFamKey = fam_key r, dbTaprootOutputKey = taproot_output_key r,
                dbAmount = amount r, dbAssetType = asset_type r,
                dbCreationTime = creation_time r, dbManagedFrom = managed_from r,
                dbTweakedScriptKey = tweaked_script_key sk, dbScriptKeyTweak = tweak sk,
                dbRawScriptKey = raw_key (key_row X (RawKey b)),
                dbScriptKeyFamily = key_family (key_row X (RawKey b)),
                dbScriptKeyIndex = key_index (key_row X (RawKey b)),
                dbRawTaprootKey = raw_key (key_row X (InternalKeyDesc b)),
                dbTaprootKeyFamily = key_family (key_row X (InternalKeyDesc b)),
                dbTaprootKeyIndex = key_index (key_row X (InternalKeyDesc b))\<rparr>"
  have jn: "join_addr s r = Some j"
    by (simp add: join_addr_def sk kr t j_def)
  have q: "queryAddrsRow X tp s j
             = Inr ((stored_as b)\<lparr>ManagedAfter := NullTime_Time (managed_from r)\<rparr>)"
    using vb g fam
    by (simp add: queryAddrsRow_def j_def cols sk key_row_def valid_addr_def stored_as_def
          ucast_16_8_id Let_def)
  have f: "fetchAddrRow X s tp k j = Inr ((stored_as b)\<lparr>TaprootOutputKey := k\<rparr>)"
    using vb g fam
    by (simp add: fetchAddrRow_def j_def cols sk key_row_def valid_addr_def stored_as_def
          ucast_16_8_id Let_def)
  from jn q f show ?thesis by blast
qed

lemma mapE_joined:
  assumes "list_all2 (\<lambda>r b. \<exists>j. join_addr s r = Some j \<and> f j = Inr (g r b)) rows bs"
  shows "mapE f (List.map_filter (join_addr s) rows) = Inr (map2 g rows bs)"
  using assms
  by (induction rule: list_all2_induct) (auto simp: map_filter_simps)

lemma holds_matches:
  assumes "represents X s r b" and "valid_addr X tp b"
  shows "addr_matches zero_time (time_Unix MaxInt64 0) False r"
proof -
  from assms(1) have "r\<lparr>managed_from := None\<rparr>
        = addr_row X b (genesis_asset_id r) (script_key_id r) (taproot_key_id r)"
    by (simp add: represents_def)
  from arg_cong [OF this, of creation_time]
  have "creation_time r = unix (CreationTime b)"
    by (simp add: addr_row_def to_db_time_def)
  with assms(2) show ?thesis
    by (simp add: addr_matches_def valid_addr_def to_db_time_def time_Unix_def
          word_sle_MaxInt64)
qed

lemma QueryAddrs_holds:
  assumes h: "holds X s as" and v: "\<forall>a \<in> set as. valid_addr X tp a"
  shows "QueryAddrs X tp s default_params
    = (s, Inr (map2 (\<lambda>r b. (stored_as b)\<lparr>ManagedAfter := NullTime_Time (managed_from r)\<rparr>)
                 (addrs s) as))"
proof -
  from h have l: "list_all2 (represents X s) (addrs s) as" by (simp add: holds_def)
  have "\<forall>r \<in> set (addrs s). addr_matches zero_time (time_Unix MaxInt64 0) False r"
  proof
    fix r assume "r \<in> set (addrs s)"
    then obtain n where n: "n < length (addrs s)" "r = addrs s ! n"
      by (auto simp: in_set_conv_nth)
    with l have "n < length as" "represents X s r (as ! n)"
      by (auto simp: list_all2_conv_all_nth)
    then obtain b where "b \<in> set as" "represents X s r b"
      using nth_mem by blast
    with v show "addr_matches zero_time (time_Unix MaxInt64 0) False r"
      by (auto intro: holds_matches)
  qed
  then have fl: "filter (addr_matches zero_time (time_Unix MaxInt64 0) False) (addrs s) = addrs s"
    by simp
  from l have "list_all2 (\<lambda>r b. \<exists>j. join_addr s r = Some j \<and> queryAddrsRow X tp s j
      = Inr ((stored_as b)\<lparr>ManagedAfter := NullTime_Time (managed_from r)\<rparr>)) (addrs s) as"
  proof (rule list.rel_mono_strong)
    fix r b assume "represents X s r b" "b \<in> set as"
    with v represents_reads [of X s r b tp] show "\<exists>j. join_addr s r = Some j \<and>
        queryAddrsRow X tp s j
          = Inr ((stored_as b)\<lparr>ManagedAfter := NullTime_Time (managed_from r)\<rparr>)"
      by blast
  qed
  from mapE_joined [OF this] fl show ?thesis
    by (simp add: QueryAddrs_def default_params_def IsZero_def zero_time_def FetchAddrs_def
          limit_offset_default ExecTx_def Let_def)
qed

lemma AddrByTaprootOutput_holds:
  assumes h: "holds X s as" and v: "\<forall>a \<in> set as. valid_addr X tp a"
      and n: "n < length as"
      and k: "SchnorrSerializePubKey X k = SchnorrSerializePubKey X (TaprootOutputKey (as ! n))"
  shows "AddrByTaprootOutput X tp s k = (s, Inr ((stored_as (as ! n))\<lparr>TaprootOutputKey := k\<rparr>))"
proof -
  from h have l: "list_all2 (represents X s) (addrs s) as"
    and d: "distinct (map taproot_output_key (addrs s))" by (simp_all add: holds_def)
  from l n have len: "n < length (addrs s)" and rep: "represents X s (addrs s ! n) (as ! n)"
    by (auto simp: list_all2_conv_all_nth)
  from rep have "(addrs s ! n)\<lparr>managed_from := None\<rparr>
        = addr_row X (as ! n) (genesis_asset_id (addrs s ! n)) (script_key_id (addrs s ! n))
            (taproot_key_id (addrs s ! n))"
    by (simp add: represents_def)
  from arg_cong [OF this, of taproot_output_key] k
  have key: "taproot_output_key (addrs s ! n) = SchnorrSerializePubKey X k"
    by (simp add: addr_row_def)
  from find_id_distinct [OF d len] key
  have fi: "find_id (\<lambda>r. taproot_output_key r = SchnorrSerializePubKey X k) (addrs s)
      = Some (Suc n)"
    by simp
  from n v have "valid_addr X tp (as ! n)" by simp
  from represents_reads [OF rep this, of k] obtain j where
    "join_addr s (addrs s ! n) = Some j"
    "fetchAddrRow X s tp k j = Inr ((stored_as (as ! n))\<lparr>TaprootOutputKey := k\<rparr>)"
    by blast
  with fi show ?thesis
    by (simp add: AddrByTaprootOutput_def fetchAddr_def FetchAddrByTaprootOutputKey_def
          ExecTx_def)
qed

lemma AddrByTaprootOutput_missing:
  assumes "SchnorrSerializePubKey X k \<notin> taproot_output_key ` set (addrs s)"
  shows "AddrByTaprootOutput X tp s k = (s, Inl ErrNoAddr)"
proof -
  from assms have "find_id (\<lambda>r. taproot_output_key r = SchnorrSerializePubKey X k) (addrs s)
      = None"
    unfolding find_id_None by (metis imageI)
  then show ?thesis
    by (simp add: AddrByTaprootOutput_def fetchAddr_def FetchAddrByTaprootOutputKey_def
          ExecTx_def)
qed


lemma SetAddrManaged_holds:
  assumes "SetAddrManaged X s a t = (s', r)" and "holds X s as"
  shows "holds X s' as"
proof -
  let ?f = "\<lambda>r. if taproot_output_key r = SchnorrSerializePubKey X (TaprootOutputKey a)
                  then r\<lparr>managed_from := Some (to_db_time t)\<rparr> else r"
  from assms(1) have s': "s' = s\<lparr>addrs := map ?f (addrs s)\<rparr>"
    by (auto simp: SetAddrManaged_def SetAddrManaged_db_def ExecTx_def)
  have keys: "map (taproot_output_key \<circ> ?f) (addrs s) = map taproot_output_key (addrs s)"
    by (rule map_cong) auto
  have rep: "represents X s' (?f r) b" if "represents X s r b" for r b
  proof -
    have "represents X s' (?f r) b = represents X s (?f r) b"
      by (rule represents_cong) (simp_all add: s')
    with that show ?thesis by (simp add: represents_def)
  qed
  from assms(2) have "list_all2 (represents X s) (addrs s) as" by (simp add: holds_def)
  then have "list_all2 (\<lambda>r b. represents X s' (?f r) b) (addrs s) as"
    by (rule list_all2_mono) (rule rep)
  then have "list_all2 (represents X s') (map ?f (addrs s)) as"
    by (simp add: list_all2_map1)
  with assms(2) show ?thesis
    by (simp add: holds_def s' keys)
qed

lemma holds_empty: "holds X empty_store []"
  by (simp add: holds_def empty_store_def)

lemma unmanaged_empty: "unmanaged empty_store"
  by (simp add: unmanaged_def empty_store_def)

lemma stored_as_unmanaged:
  "ManagedAfter a = zero_time \<Longrightarrow> (stored_as a)\<lparr>ManagedAfter := zero_time\<rparr> = stored_as a"
  by (cases a) (simp add: stored_as_def)

lemma stored_as_same_key:
  "(stored_as a)\<lparr>TaprootOutputKey := TaprootOutputKey a\<rparr> = stored_as a"
  by (cases a) (simp add: stored_as_def)

lemma stored_as_second:
  "unix (CreationTime (stored_as a)) = unix (CreationTime a) \<and>
   (stored_as a)\<lparr>CreationTime := CreationTime a\<rparr> = a"
  by (simp add: stored_as_def from_db_time_def to_db_time_def)

text \<open>
  C2.  Let the store hold addresses already, none of them managed, and let a batch
  be inserted by \<^verbatim>\<open>InsertAddrs\<close>, all addresses being valid and pairwise compatible.
  Then \<^verbatim>\<open>QueryAddrs\<close> with the default parameters returns all of them in insertion
  order, and \<^verbatim>\<open>AddrByTaprootOutput\<close> returns each one for its taproot output key;
  what is returned is the address as inserted, but for the creation time, which has
  the same second.
\<close>

theorem address_round_trip:
  assumes h: "holds X s0 as0" and um: "unmanaged s0"
      and v: "\<forall>a \<in> set (as0 @ batch). valid_addr X tp a"
      and c: "\<forall>a \<in> set (as0 @ batch). \<forall>b \<in> set (as0 @ batch). compatible a b"
      and ins: "InsertAddrs X s0 batch = (s, Inr u)"
  shows "QueryAddrs X tp s default_params = (s, Inr (map stored_as (as0 @ batch))) \<and>
         (\<forall>a \<in> set (as0 @ batch).
            AddrByTaprootOutput X tp s (TaprootOutputKey a) = (s, Inr (stored_as a)) \<and>
            unix (CreationTime (stored_as a)) = unix (CreationTime a) \<and>
            (stored_as a)\<lparr>CreationTime := CreationTime a\<rparr> = a)"
proof -
  let ?as = "as0 @ batch"
  from ins have "insertAddrsLoop X s0 batch = Inr (s, u)"
    by (auto simp: InsertAddrs_def dest: ExecTx_value)
  from insertAddrsLoop_holds [OF this h um v c]
  have hs: "holds X s ?as" and us: "unmanaged s" by auto
  from hs have len: "length (addrs s) = length ?as"
    by (auto simp: holds_def dest: list_all2_lengthD)
  have "map2 (\<lambda>r b. (stored_as b)\<lparr>ManagedAfter := NullTime_Time (managed_from r)\<rparr>)
          (addrs s) ?as = map stored_as ?as"
  proof (rule nth_equalityI)
    show "length (map2 (\<lambda>r b. (stored_as b)\<lparr>ManagedAfter := NullTime_Time (managed_from r)\<rparr>)
          (addrs s) ?as) = length (map stored_as ?as)"
      using len by simp
  next
    fix n
    assume "n < length (map2
        (\<lambda>r b. (stored_as b)\<lparr>ManagedAfter := NullTime_Time (managed_from r)\<rparr>) (addrs s) ?as)"
    with len have n: "n < length ?as" "n < length (addrs s)" by simp_all
    from n(2) us have "managed_from (addrs s ! n) = None"
      by (simp add: unmanaged_def list_all_length)
    moreover from n(1) have "?as ! n \<in> set ?as" by (rule nth_mem)
    with v have "ManagedAfter (?as ! n) = zero_time"
      by (auto simp: valid_addr_def)
    ultimately have "(stored_as (?as ! n))\<lparr>ManagedAfter :=
        NullTime_Time (managed_from (addrs s ! n))\<rparr> = stored_as (?as ! n)"
      by (simp add: NullTime_Time_def stored_as_unmanaged)
    moreover have "map stored_as ?as ! n = stored_as (?as ! n)"
      using n(1) by (rule nth_map)
    moreover have "map2 (\<lambda>r b. (stored_as b)\<lparr>ManagedAfter := NullTime_Time (managed_from r)\<rparr>)
          (addrs s) ?as ! n
        = (stored_as (?as ! n))\<lparr>ManagedAfter := NullTime_Time (managed_from (addrs s ! n))\<rparr>"
      using n by (simp del: append.simps map_append)
    ultimately show "map2 (\<lambda>r b. (stored_as b)\<lparr>ManagedAfter := NullTime_Time (managed_from r)\<rparr>)
          (addrs s) ?as ! n = map stored_as ?as ! n"
      by simp
  qed
  with QueryAddrs_holds [OF hs v]
  have q: "QueryAddrs X tp s default_params = (s, Inr (map stored_as ?as))"
    by simp
  have "AddrByTaprootOutput X tp s (TaprootOutputKey a) = (s, Inr (stored_as a))"
    if "a \<in> set ?as" for a
  proof -
    from that obtain n where n: "n < length ?as" "?as ! n = a"
      by (metis in_set_conv_nth)
    from AddrByTaprootOutput_holds [OF hs v n(1), of "TaprootOutputKey a"] n(2)
    show ?thesis by (simp add: stored_as_same_key)
  qed
  with q stored_as_second show ?thesis by blast
qed

theorem address_round_trip_witness:
  "QueryAddrs demo_ext ''regtest'' demo_store default_params
     = (demo_store, Inr (map stored_as ([] @ [demo_addr 10, demo_addr 20]))) \<and>
   AddrByTaprootOutput demo_ext ''regtest'' demo_store (TaprootOutputKey (demo_addr 20))
     = (demo_store, Inr (stored_as (demo_addr 20))) \<and>
   unix (CreationTime (stored_as (demo_addr 20))) = unix (CreationTime (demo_addr 20)) \<and>
   nsec (CreationTime (stored_as (demo_addr 20))) \<noteq> nsec (CreationTime (demo_addr 20))"
proof -
  have v: "\<forall>a \<in> set ([] @ [demo_addr 10, demo_addr 20]). valid_addr demo_ext ''regtest'' a"
    by code_simp
  have c: "\<forall>a \<in> set ([] @ [demo_addr 10, demo_addr 20]).
           \<forall>b \<in> set ([] @ [demo_addr 10, demo_addr 20]). compatible a b"
    by code_simp
  have i: "InsertAddrs demo_ext empty_store [demo_addr 10, demo_addr 20] = (demo_store, Inr ())"
    by code_simp
  have n: "nsec (CreationTime (stored_as (demo_addr 20))) \<noteq> nsec (CreationTime (demo_addr 20))"
    by code_simp
  from address_round_trip [OF holds_empty unmanaged_empty v c i] n
  show ?thesis by simp
qed

text \<open>
  C5.  For a key whose serialisation is the taproot output key of no stored row,
  \<^verbatim>\<open>AddrByTaprootOutput\<close> returns \<^verbatim>\<open>address.ErrNoAddr\<close> itself, unwrapped, not
  \<^verbatim>\<open>sql.ErrNoRows\<close>.  In a store that holds valid addresses it succeeds for the key of
  every stored row.
\<close>

theorem AddrByTaprootOutput_ErrNoAddr:
  "(SchnorrSerializePubKey X k \<notin> taproot_output_key ` set (addrs s) \<longrightarrow>
      AddrByTaprootOutput X tp s k = (s, Inl ErrNoAddr)) \<and>
   (holds X s as \<and> (\<forall>a \<in> set as. valid_addr X tp a) \<and>
    SchnorrSerializePubKey X k \<in> taproot_output_key ` set (addrs s) \<longrightarrow>
      (\<exists>a. AddrByTaprootOutput X tp s k = (s, Inr a)))"
proof (intro conjI impI)
  assume "SchnorrSerializePubKey X k \<notin> taproot_output_key ` set (addrs s)"
  then show "AddrByTaprootOutput X tp s k = (s, Inl ErrNoAddr)"
    by (rule AddrByTaprootOutput_missing)
next
  assume a: "holds X s as \<and> (\<forall>a \<in> set as. valid_addr X tp a) \<and>
    SchnorrSerializePubKey X k \<in> taproot_output_key ` set (addrs s)"
  then obtain n where n: "n < length (addrs s)"
    "taproot_output_key (addrs s ! n) = SchnorrSerializePubKey X k"
    by (auto simp: in_set_conv_nth)
  from a have l: "list_all2 (represents X s) (addrs s) as" by (simp add: holds_def)
  with n(1) have len: "n < length as" and rep: "represents X s (addrs s ! n) (as ! n)"
    by (auto simp: list_all2_conv_all_nth)
  from rep have "(addrs s ! n)\<lparr>managed_from := None\<rparr>
        = addr_row X (as ! n) (genesis_asset_id (addrs s ! n)) (script_key_id (addrs s ! n))
            (taproot_key_id (addrs s ! n))"
    by (simp add: represents_def)
  from arg_cong [OF this, of taproot_output_key] n(2)
  have "SchnorrSerializePubKey X k = SchnorrSerializePubKey X (TaprootOutputKey (as ! n))"
    by (simp add: addr_row_def)
  from AddrByTaprootOutput_holds [OF _ _ len this, where tp = tp] a
  show "\<exists>a. AddrByTaprootOutput X tp s k = (s, Inr a)" by blast
qed

theorem AddrByTaprootOutput_ErrNoAddr_witness:
  "SchnorrSerializePubKey demo_ext (PublicKey 99 0) \<notin> taproot_output_key ` set (addrs demo_managed) \<and>
   AddrByTaprootOutput demo_ext ''regtest'' demo_managed (PublicKey 99 0)
     = (demo_managed, Inl ErrNoAddr) \<and>
   holds demo_ext demo_managed [demo_addr 10, demo_addr 20] \<and>
   SchnorrSerializePubKey demo_ext (PublicKey 14 0) \<in> taproot_output_key ` set (addrs demo_managed) \<and>
   (\<exists>a. AddrByTaprootOutput demo_ext ''regtest'' demo_managed (PublicKey 14 0)
           = (demo_managed, Inr a))"
proof -
  have m: "SchnorrSerializePubKey demo_ext (PublicKey 99 0)
      \<notin> taproot_output_key ` set (addrs demo_managed)"
    by code_simp
  have h: "holds demo_ext demo_managed [demo_addr 10, demo_addr 20]"
    by code_simp
  have v: "\<forall>a \<in> set [demo_addr 10, demo_addr 20]. valid_addr demo_ext ''regtest'' a"
    by code_simp
  have k: "SchnorrSerializePubKey demo_ext (PublicKey 14 0)
      \<in> taproot_output_key ` set (addrs demo_managed)"
    by code_simp
  from m h v k
    AddrByTaprootOutput_ErrNoAddr [of demo_ext "PublicKey 99 0" demo_managed "''regtest''" "[]"]
    AddrByTaprootOutput_ErrNoAddr [of demo_ext "PublicKey 14 0" demo_managed "''regtest''"
      "[demo_addr 10, demo_addr 20]"]
  show ?thesis by blast
qed


section \<open>The filters of \<^verbatim>\<open>QueryAddrEvents\<close>\<close>

lemma fetchAddrRow_key: "fetchAddrRow X db tp k j = Inr a \<Longrightarrow> TaprootOutputKey a = k"
  by (auto simp: fetchAddrRow_def bindE_eq_Inr Let_def)

lemma fetchAddr_key: "fetchAddr X db tp k = Inr a \<Longrightarrow> TaprootOutputKey a = k"
  by (auto simp: fetchAddr_def dest: fetchAddrRow_key split: sum.splits if_splits)

lemma fetchEvent_Addr: "fetchEvent X db i addr = Inr e \<Longrightarrow> Addr e = addr \<and> ID e = i"
  by (auto simp: fetchEvent_def bindE_eq_Inr Let_def)

lemma mapE_Inr_set: "mapE f xs = Inr ys \<Longrightarrow> y \<in> set ys \<Longrightarrow> \<exists>x \<in> set xs. f x = Inr y"
  by (induction xs arbitrary: ys) (auto simp: bindE_eq_Inr)

lemma in_set_map_filter:
  "y \<in> set (List.map_filter f xs) \<longleftrightarrow> (\<exists>x \<in> set xs. f x = Some y)"
  by (induction xs) (auto split: option.splits)

lemma QueryEventIDs_key:
  assumes "QueryEventIDs s q = Inr ids" and "AddrTaprootKey q = Some k" and "i \<in> set ids"
  shows "idTaprootOutputKey i = k"
proof -
  from assms(1,3) obtain ie where "event_matches s q ie = Some i"
    by (auto simp: QueryEventIDs_def in_set_map_filter)
  with assms(2) show ?thesis
    by (auto simp: event_matches_def split: option.splits if_splits)
qed

lemma queryAddrEventsRow_key:
  "queryAddrEventsRow X tp db ids = Inr e \<Longrightarrow>
     SchnorrParsePubKey X (idTaprootOutputKey ids) = Some (TaprootOutputKey (Addr e))"
  by (auto simp: queryAddrEventsRow_def bindE_eq_Inr dest!: fetchEvent_Addr fetchAddr_key)

text \<open>
  C7, as the code has it.  A key filter of length zero, nil or not, is no filter, and
  an unset status bound is \<open>TransactionDetected\<close> below and \<open>Completed\<close> above.  A
  filter that is not empty, all-zero or not, reaches the store: every event returned
  belongs to an address whose taproot output key parses from exactly those bytes.
\<close>

theorem QueryAddrEvents_filters:
  "QueryAddrEvents X tp s (p\<lparr>AddrTaprootOutputKey := Some []\<rparr>)
     = QueryAddrEvents X tp s (p\<lparr>AddrTaprootOutputKey := None\<rparr>) \<and>
   QueryAddrEvents X tp s (p\<lparr>StatusFrom := None, StatusTo := None\<rparr>)
     = QueryAddrEvents X tp s (p\<lparr>StatusFrom := Some StatusTransactionDetected,
                                    StatusTo := Some StatusCompleted\<rparr>) \<and>
   (k \<noteq> [] \<and> QueryAddrEvents X tp s (p\<lparr>AddrTaprootOutputKey := Some k\<rparr>) = (s', Inr es)
      \<longrightarrow> (\<forall>e \<in> set es. SchnorrParsePubKey X k = Some (TaprootOutputKey (Addr e))))"
proof (intro conjI impI ballI)
  show "QueryAddrEvents X tp s (p\<lparr>AddrTaprootOutputKey := Some []\<rparr>)
     = QueryAddrEvents X tp s (p\<lparr>AddrTaprootOutputKey := None\<rparr>)"
    by (simp add: QueryAddrEvents_def eventQuery_def)
  show "QueryAddrEvents X tp s (p\<lparr>StatusFrom := None, StatusTo := None\<rparr>)
     = QueryAddrEvents X tp s (p\<lparr>StatusFrom := Some StatusTransactionDetected,
                                    StatusTo := Some StatusCompleted\<rparr>)"
    by (simp add: QueryAddrEvents_def eventQuery_def)
next
  fix e
  assume a: "k \<noteq> [] \<and> QueryAddrEvents X tp s (p\<lparr>AddrTaprootOutputKey := Some k\<rparr>) = (s', Inr es)"
    and e: "e \<in> set es"
  let ?q = "eventQuery (p\<lparr>AddrTaprootOutputKey := Some k\<rparr>)"
  from a obtain ids where ids: "QueryEventIDs s ?q = Inr ids"
    and m: "mapE (queryAddrEventsRow X tp s) ids = Inr es"
    by (auto simp: QueryAddrEvents_def Let_def bindE_eq_Inr dest!: ExecTx_value)
  from a have key: "AddrTaprootKey ?q = Some k" by (simp add: eventQuery_def)
  from mapE_Inr_set [OF m e] obtain i where i: "i \<in> set ids"
    "queryAddrEventsRow X tp s i = Inr e" by blast
  from QueryEventIDs_key [OF ids key i(1)] queryAddrEventsRow_key [OF i(2)]
  show "SchnorrParsePubKey X k = Some (TaprootOutputKey (Addr e))" by simp
qed

theorem QueryAddrEvents_filters_witness:
  "QueryAddrEvents demo_ext ''regtest'' demo_events (no_filter\<lparr>AddrTaprootOutputKey := Some []\<rparr>)
     = QueryAddrEvents demo_ext ''regtest'' demo_events (no_filter\<lparr>AddrTaprootOutputKey := None\<rparr>) \<and>
   replicate 31 0 @ [14 :: byte] \<noteq> [] \<and>
   QueryAddrEvents demo_ext ''regtest'' demo_events
       (no_filter\<lparr>AddrTaprootOutputKey := Some (replicate 31 0 @ [14])\<rparr>)
     = (demo_events, Inr [demo_event (demo_stored 10)]) \<and>
   SchnorrParsePubKey demo_ext (replicate 31 0 @ [14])
     = Some (TaprootOutputKey (Addr (demo_event (demo_stored 10))))"
proof -
  have q: "QueryAddrEvents demo_ext ''regtest'' demo_events
       (no_filter\<lparr>AddrTaprootOutputKey := Some (replicate 31 0 @ [14])\<rparr>)
     = (demo_events, Inr [demo_event (demo_stored 10)])"
    by code_simp
  have n: "replicate 31 0 @ [14 :: byte] \<noteq> []" by simp
  from q n QueryAddrEvents_filters [of demo_ext "''regtest''" demo_events no_filter
      "replicate 31 0 @ [14]" demo_events "[demo_event (demo_stored 10)]"]
  show ?thesis by simp
qed

text \<open>
  The claim as it is written fails for the all-zero key: with one event in the store,
  the filter of 32 zero bytes returns no event, and no filter returns the event.
\<close>

theorem QueryAddrEvents_all_zero_counterexample:
  "QueryAddrEvents demo_ext ''regtest'' demo_events
       (no_filter\<lparr>AddrTaprootOutputKey := Some (replicate 32 0)\<rparr>)
     = (demo_events, Inr []) \<and>
   QueryAddrEvents demo_ext ''regtest'' demo_events no_filter
     = (demo_events, Inr [demo_event (demo_stored 10)]) \<and>
   QueryAddrEvents demo_ext ''regtest'' demo_events
       (no_filter\<lparr>AddrTaprootOutputKey := Some (replicate 32 0)\<rparr>)
     \<noteq> QueryAddrEvents demo_ext ''regtest'' demo_events no_filter"
proof -
  have z: "QueryAddrEvents demo_ext ''regtest'' demo_events
       (no_filter\<lparr>AddrTaprootOutputKey := Some (replicate 32 0)\<rparr>)
     = (demo_events, Inr [])"
    by code_simp
  have n: "QueryAddrEvents demo_ext ''regtest'' demo_events no_filter
     = (demo_events, Inr [demo_event (demo_stored 10)])"
    by code_simp
  from z n show ?thesis by simp
qed


section \<open>Chain transactions, UTXOs and events under an upsert\<close>

lemma UpsertChainTx_frame:
  "UpsertChainTx s arg = Inr (s', i) \<Longrightarrow>
     genesis_points s' = genesis_points s \<and> genesis_assets s' = genesis_assets s \<and>
     internal_keys s' = internal_keys s \<and> script_keys s' = script_keys s \<and>
     addrs s' = addrs s \<and> managed_utxos s' = managed_utxos s \<and>
     addr_events s' = addr_events s \<and> asset_proofs s' = asset_proofs s"
  by (auto simp: UpsertChainTx_def Let_def split: option.splits)

lemma UpsertManagedUTXO_frame:
  "UpsertManagedUTXO s arg = Inr (s', i) \<Longrightarrow>
     genesis_points s' = genesis_points s \<and> genesis_assets s' = genesis_assets s \<and>
     internal_keys s' = internal_keys s \<and> script_keys s' = script_keys s \<and>
     addrs s' = addrs s \<and> chain_txns s' = chain_txns s \<and>
     addr_events s' = addr_events s \<and> asset_proofs s' = asset_proofs s"
  by (auto simp: UpsertManagedUTXO_def Let_def split: option.splits)

lemma UpsertAddrEvent_db_frame:
  "UpsertAddrEvent_db s arg = Inr (s', i) \<Longrightarrow>
     genesis_points s' = genesis_points s \<and> genesis_assets s' = genesis_assets s \<and>
     internal_keys s' = internal_keys s \<and> script_keys s' = script_keys s \<and>
     addrs s' = addrs s \<and> chain_txns s' = chain_txns s \<and>
     managed_utxos s' = managed_utxos s \<and> asset_proofs s' = asset_proofs s"
  by (auto simp: UpsertAddrEvent_db_def Let_def split: option.splits if_splits)

lemma set_row_length [simp]: "length (set_row xs i x) = length xs"
  by (simp add: set_row_def)

lemma map_set_row_same:
  assumes "row_by_id xs i = Some y" and "f x = f y"
  shows "map f (set_row xs i x) = map f xs"
proof -
  from assms(1) have i: "0 < i" "i - 1 < length xs" "xs ! (i - 1) = y"
    by (auto simp: row_by_id_def split: if_splits)
  have "map f (xs[i - 1 := x]) = (map f xs)[i - 1 := f x]" by (rule map_update)
  also have "\<dots> = map f xs" using i assms(2) by (simp add: list_update_same_conv)
  finally show ?thesis using i by (simp add: set_row_def)
qed

text \<open>The chain transaction upsert, when the id is known and when it is new.\<close>

lemma UpsertChainTx_known:
  assumes "find_id (\<lambda>r. txid r = txid arg) (chain_txns s) = Some k"
      and "UpsertChainTx s arg = Inr (s', i)"
  shows "i = k \<and> find_id (\<lambda>r. txid r = txid arg) (chain_txns s') = Some k \<and>
         map txid (chain_txns s') = map txid (chain_txns s) \<and>
         (\<exists>old. row_by_id (chain_txns s) k = Some old \<and>
            row_by_id (chain_txns s') k
              = Some (old\<lparr>block_height := coalesce (block_height arg) (block_height old),
                          block_hash := coalesce (block_hash arg) (block_hash old)\<rparr>))"
proof -
  from find_id_row [OF assms(1)] obtain old where
    old: "row_by_id (chain_txns s) k = Some old" "txid old = txid arg" by blast
  let ?new = "old\<lparr>block_height := coalesce (block_height arg) (block_height old),
                  block_hash := coalesce (block_hash arg) (block_hash old)\<rparr>"
  from old(1) have nth: "chain_txns s ! (k - 1) = old" by (simp add: row_by_id_Some_iff)
  from assms nth have s': "s' = s\<lparr>chain_txns := set_row (chain_txns s) k ?new\<rparr>" "i = k"
    by (auto simp: UpsertChainTx_def Let_def)
  have "find_id (\<lambda>r. txid r = txid arg) (set_row (chain_txns s) k ?new) = Some k"
    using assms(1) old(2) by (intro find_id_set_row_same) auto
  moreover have "map txid (set_row (chain_txns s) k ?new) = map txid (chain_txns s)"
    using old(1) by (rule map_set_row_same) simp
  moreover have "row_by_id (set_row (chain_txns s) k ?new) k = Some ?new"
    using old(1) by (auto simp: row_by_id_set_row dest: row_by_id_le)
  ultimately show ?thesis using s' old(1) by simp
qed

lemma UpsertChainTx_new:
  assumes "find_id (\<lambda>r. txid r = txid arg) (chain_txns s) = None"
      and "UpsertChainTx s arg = Inr (s', i)"
  shows "find_id (\<lambda>r. txid r = txid arg) (chain_txns s') = Some i \<and>
         map txid (chain_txns s') = map txid (chain_txns s) @ [txid arg] \<and>
         txid arg \<notin> set (map txid (chain_txns s)) \<and>
         row_by_id (chain_txns s') i = Some arg \<and> row_by_id (chain_txns s) i = None"
proof -
  from assms have s': "s' = s\<lparr>chain_txns := chain_txns s @ [arg]\<rparr>"
    "i = Suc (length (chain_txns s))"
    by (auto simp: UpsertChainTx_def)
  from assms(1) have "txid arg \<notin> set (map txid (chain_txns s))"
    by (auto simp: find_id_None)
  with s' assms(1) show ?thesis
    by (simp add: find_id_append_new row_by_id_append) (simp add: row_by_id_def)
qed

lemma UpsertChainTx_txids:
  assumes "UpsertChainTx s arg = Inr (s', i)" and "row_by_id (chain_txns s) j = Some c"
  shows "\<exists>c'. row_by_id (chain_txns s') j = Some c' \<and> txid c' = txid c"
proof (cases "find_id (\<lambda>r. txid r = txid arg) (chain_txns s)")
  case None
  with assms show ?thesis
    by (auto simp: UpsertChainTx_def row_by_id_append_old)
next
  case (Some k)
  from UpsertChainTx_known [OF Some assms(1)] have
    m: "map txid (chain_txns s') = map txid (chain_txns s)" by simp
  then have len: "length (chain_txns s') = length (chain_txns s)"
    by (metis length_map)
  from assms(2) have j: "0 < j" "j \<le> length (chain_txns s)" "chain_txns s ! (j - 1) = c"
    by (auto simp: row_by_id_Some_iff)
  then have "map txid (chain_txns s') ! (j - 1) = map txid (chain_txns s) ! (j - 1)"
    using m by simp
  with j len have "txid (chain_txns s' ! (j - 1)) = txid c" by simp
  with j len show ?thesis by (simp add: row_by_id_def)
qed

lemma UpsertChainTx_distinct:
  assumes "UpsertChainTx s arg = Inr (s', i)" and "distinct (map txid (chain_txns s))"
  shows "distinct (map txid (chain_txns s'))"
proof (cases "find_id (\<lambda>r. txid r = txid arg) (chain_txns s)")
  case None
  from UpsertChainTx_new [OF None assms(1)] assms(2) show ?thesis by simp
next
  case (Some k)
  from UpsertChainTx_known [OF Some assms(1)] assms(2) show ?thesis by simp
qed

lemma UpsertManagedUTXO_target:
  assumes "UpsertManagedUTXO s arg = Inr (s', i)"
  shows "\<exists>u. row_by_id (managed_utxos s') i = Some u \<and> outpoint u = utxoOutpoint arg \<and>
             taro_root u = TaroRoot arg"
proof -
  from assms obtain kid where
    kid: "find_id (\<lambda>r. raw_key r = utxoRawKey arg) (internal_keys s) = Some kid"
    by (auto simp: UpsertManagedUTXO_def split: option.splits)
  show ?thesis
  proof (cases "find_id (\<lambda>r. outpoint r = utxoOutpoint arg) (managed_utxos s)")
    case None
    with assms kid show ?thesis
      by (auto simp: UpsertManagedUTXO_def row_by_id_append)
  next
    case (Some k)
    from find_id_row [OF Some] obtain old where
      old: "row_by_id (managed_utxos s) k = Some old" "outpoint old = utxoOutpoint arg"
      by blast
    from old(1) have "managed_utxos s ! (k - 1) = old" by (simp add: row_by_id_Some_iff)
    with assms kid Some old show ?thesis
      by (auto simp: UpsertManagedUTXO_def Let_def row_by_id_set_row dest: row_by_id_le)
  qed
qed

text \<open>The event upsert: the ids it resolves, and the row it leaves.\<close>

lemma event_ids_pred:
  "(\<lambda>r. addr_id r = a \<and> chain_txn_id r = c \<and> chain_txn_output_index r = i)
     = (\<lambda>r. event_ids r = (a, c, i))"
  by (auto simp: event_ids_def)

lemma UpsertAddrEvent_db_resolves:
  assumes "UpsertAddrEvent_db s arg = Inr (s', i)"
  obtains aid cid where
    "status_valid (upStatus arg)"
    "find_id (\<lambda>r. taproot_output_key r = upTaprootOutputKey arg) (addrs s) = Some aid"
    "find_id (\<lambda>r. txid r = upTxid arg) (chain_txns s) = Some cid"
  using assms by (auto simp: UpsertAddrEvent_db_def split: if_splits option.splits)

lemma UpsertAddrEvent_db_known:
  assumes aid: "find_id (\<lambda>r. taproot_output_key r = upTaprootOutputKey arg) (addrs s) = Some aid"
      and cid: "find_id (\<lambda>r. txid r = upTxid arg) (chain_txns s) = Some cid"
      and ev: "find_id (\<lambda>r. event_ids r = (aid, cid, upChainTxnOutputIndex arg)) (addr_events s)
                = Some k"
      and up: "UpsertAddrEvent_db s arg = Inr (s', i)"
  shows "i = k \<and> length (addr_events s') = length (addr_events s) \<and>
         map event_ids (addr_events s') = map event_ids (addr_events s) \<and>
         find_id (\<lambda>r. event_ids r = (aid, cid, upChainTxnOutputIndex arg)) (addr_events s')
           = Some k \<and>
         (\<exists>old. row_by_id (addr_events s) k = Some old \<and>
            row_by_id (addr_events s') k
              = Some (old\<lparr>status := upStatus arg, managed_utxo_id := upManagedUtxoID arg,
                    asset_proof_id := coalesce (upAssetProofID arg) (asset_proof_id old),
                    asset_id := coalesce (upAssetID arg) (asset_id old)\<rparr>)) \<and>
         (\<forall>j. j \<noteq> k \<longrightarrow> row_by_id (addr_events s') j = row_by_id (addr_events s) j)"
proof -
  from find_id_row [OF ev] obtain old where
    old: "row_by_id (addr_events s) k = Some old"
      "event_ids old = (aid, cid, upChainTxnOutputIndex arg)" by blast
  let ?new = "old\<lparr>status := upStatus arg, managed_utxo_id := upManagedUtxoID arg,
                    asset_proof_id := coalesce (upAssetProofID arg) (asset_proof_id old),
                    asset_id := coalesce (upAssetID arg) (asset_id old)\<rparr>"
  from old(1) have nth: "addr_events s ! (k - 1) = old" by (simp add: row_by_id_Some_iff)
  from up aid cid ev nth have s': "s' = s\<lparr>addr_events := set_row (addr_events s) k ?new\<rparr>"
    "i = k"
    by (auto simp: UpsertAddrEvent_db_def Let_def event_ids_pred split: if_splits)
  have ids: "event_ids ?new = event_ids old" by (simp add: event_ids_def)
  have "find_id (\<lambda>r. event_ids r = (aid, cid, upChainTxnOutputIndex arg))
          (set_row (addr_events s) k ?new) = Some k"
    using ev old(2) ids by (intro find_id_set_row_same) auto
  moreover have "map event_ids (set_row (addr_events s) k ?new) = map event_ids (addr_events s)"
    using old(1) ids by (rule map_set_row_same)
  moreover have "row_by_id (set_row (addr_events s) k ?new) k = Some ?new"
    using old(1) by (auto simp: row_by_id_set_row dest: row_by_id_le)
  moreover have "\<forall>j. j \<noteq> k \<longrightarrow>
      row_by_id (set_row (addr_events s) k ?new) j = row_by_id (addr_events s) j"
    by (simp add: row_by_id_set_row)
  ultimately show ?thesis using s' old(1) by simp
qed

lemma UpsertAddrEvent_db_new:
  assumes aid: "find_id (\<lambda>r. taproot_output_key r = upTaprootOutputKey arg) (addrs s) = Some aid"
      and cid: "find_id (\<lambda>r. txid r = upTxid arg) (chain_txns s) = Some cid"
      and ev: "find_id (\<lambda>r. event_ids r = (aid, cid, upChainTxnOutputIndex arg)) (addr_events s)
                = None"
      and up: "UpsertAddrEvent_db s arg = Inr (s', i)"
  shows "i = Suc (length (addr_events s)) \<and>
         map event_ids (addr_events s')
           = map event_ids (addr_events s) @ [(aid, cid, upChainTxnOutputIndex arg)] \<and>
         (aid, cid, upChainTxnOutputIndex arg) \<notin> set (map event_ids (addr_events s)) \<and>
         find_id (\<lambda>r. event_ids r = (aid, cid, upChainTxnOutputIndex arg)) (addr_events s')
           = Some i \<and>
         row_by_id (addr_events s') i
           = Some \<lparr>event_creation_time = to_db_time (upCreationTime arg), addr_id = aid,
                   status = upStatus arg, chain_txn_id = cid,
                   chain_txn_output_index = upChainTxnOutputIndex arg,
                   managed_utxo_id = upManagedUtxoID arg,
                   asset_proof_id = upAssetProofID arg, asset_id = upAssetID arg\<rparr> \<and>
         (\<forall>j. j \<noteq> i \<longrightarrow> row_by_id (addr_events s') j = row_by_id (addr_events s) j)"
proof -
  let ?new = "\<lparr>event_creation_time = to_db_time (upCreationTime arg), addr_id = aid,
                   status = upStatus arg, chain_txn_id = cid,
                   chain_txn_output_index = upChainTxnOutputIndex arg,
                   managed_utxo_id = upManagedUtxoID arg,
                   asset_proof_id = upAssetProofID arg, asset_id = upAssetID arg\<rparr>"
  from up aid cid ev have s': "s' = s\<lparr>addr_events := addr_events s @ [?new]\<rparr>"
    "i = Suc (length (addr_events s))"
    by (auto simp: UpsertAddrEvent_db_def Let_def event_ids_pred split: if_splits)
  have ids: "event_ids ?new = (aid, cid, upChainTxnOutputIndex arg)" by (simp add: event_ids_def)
  from ev have "(aid, cid, upChainTxnOutputIndex arg) \<notin> set (map event_ids (addr_events s))"
    by (auto simp: find_id_None)
  moreover have "find_id (\<lambda>r. event_ids r = (aid, cid, upChainTxnOutputIndex arg))
      (addr_events s @ [?new]) = Some (Suc (length (addr_events s)))"
    using ev ids by (intro find_id_append_new) auto
  ultimately show ?thesis using s' ids
    by (simp add: row_by_id_append)
qed

section \<open>One call of \<^verbatim>\<open>GetOrCreateEvent\<close>\<close>

lemma GetOrCreateEvent_Inr:
  assumes "GetOrCreateEvent X s now st addr wtx idx sib = (s', Inr e)"
  obtains txBuf ob od crow db1 cid c db2 uid eid where
    "Serialize X (Tx wtx) = Some txBuf"
    "encodeOutpoint X \<lparr>Hash = TxHash X (Tx wtx), OutIndex = idx\<rparr> = Some ob"
    "unat idx < length (OutputDetails wtx)"
    "OutputDetails wtx ! unat idx = Some od"
    "chainTxUpsert X wtx (TxHash X (Tx wtx)) txBuf = Inr crow"
    "UpsertChainTx s crow = Inr (db1, cid)"
    "AddrTaroCommitment X addr = Some c"
    "UpsertManagedUTXO db1 (utxoUpsert X addr ob od sib (TapscriptRoot X c sib) cid)
       = Inr (db2, uid)"
    "UpsertAddrEvent_db db2 (eventUpsert X now st addr (TxHash X (Tx wtx)) idx uid)
       = Inr (s', eid)"
    "fetchEvent X s' eid addr = Inr e"
proof -
  from assms obtain txBuf where 1: "Serialize X (Tx wtx) = Some txBuf"
    by (cases "Serialize X (Tx wtx)") (auto simp: GetOrCreateEvent_def)
  from assms 1 obtain ob where
    2: "encodeOutpoint X \<lparr>Hash = TxHash X (Tx wtx), OutIndex = idx\<rparr> = Some ob"
    by (cases "encodeOutpoint X \<lparr>Hash = TxHash X (Tx wtx), OutIndex = idx\<rparr>")
       (auto simp: GetOrCreateEvent_def)
  from assms 1 2 have 3: "unat idx < length (OutputDetails wtx)"
    by (auto simp: GetOrCreateEvent_def split: if_splits)
  from assms 1 2 3 obtain eid where
    body: "getOrCreateEventTx X now st addr wtx idx sib (TxHash X (Tx wtx)) txBuf ob
             (OutputDetails wtx ! unat idx) s = Inr (s', eid)"
    and fe: "fetchEvent X s' eid addr = Inr e"
    by (auto simp: GetOrCreateEvent_def Let_def bindE_eq_Inr dest!: ExecTx_value)
  from body obtain crow where 5: "chainTxUpsert X wtx (TxHash X (Tx wtx)) txBuf = Inr crow"
    by (auto simp: getOrCreateEventTx_def bindE_eq_Inr)
  from body 5 obtain db1 cid where 6: "UpsertChainTx s crow = Inr (db1, cid)"
    by (auto simp: getOrCreateEventTx_def bindE_eq_Inr)
  from body 5 6 obtain c where 7: "AddrTaroCommitment X addr = Some c"
    by (cases "AddrTaroCommitment X addr") (auto simp: getOrCreateEventTx_def)
  from body 5 6 7 obtain od where 4: "OutputDetails wtx ! unat idx = Some od"
    by (cases "OutputDetails wtx ! unat idx") (auto simp: getOrCreateEventTx_def)
  from body 4 5 6 7 obtain db2 uid where
    8: "UpsertManagedUTXO db1 (utxoUpsert X addr ob od sib (TapscriptRoot X c sib) cid)
       = Inr (db2, uid)"
    by (auto simp: getOrCreateEventTx_def bindE_eq_Inr)
  from body 4 5 6 7 8 have
    9: "UpsertAddrEvent_db db2 (eventUpsert X now st addr (TxHash X (Tx wtx)) idx uid)
       = Inr (s', eid)"
    by (auto simp: getOrCreateEventTx_def)
  from 1 2 3 4 5 6 7 8 9 fe show thesis by (rule that)
qed

lemma chainTxUpsert_Inr:
  "chainTxUpsert X wtx t buf = Inr crow \<Longrightarrow>
     txid crow = t \<and>
     block_height crow
       = (if word_sless 0 (Confirmations wtx) then Some (BlockHeight wtx) else None)"
  by (auto simp: chainTxUpsert_def bindE_eq_Inr split: if_splits)

lemma fetchEvent_Inr:
  assumes "fetchEvent X s i addr = Inr e"
  shows "\<exists>row ct. row_by_id (addr_events s) i = Some row \<and>
           row_by_id (chain_txns s) (chain_txn_id row) = Some ct \<and>
           ID e = i \<and> Addr e = addr \<and> EventStatus e = ucast (status row) \<and>
           ConfirmationHeight e = (case block_height ct of None \<Rightarrow> 0 | Some h \<Rightarrow> h) \<and>
           HasProof e = (asset_proof_id row \<noteq> None)"
  using assms
  by (auto simp: fetchEvent_def FetchAddrEvent_def bindE_eq_Inr Let_def split: option.splits)

lemma find_id_unique:
  assumes "distinct (map f xs)" and "row_by_id xs j = Some x" and "f x = v"
  shows "find_id (\<lambda>y. f y = v) xs = Some j"
proof -
  from assms(2) have j: "0 < j" "j - 1 < length xs" "xs ! (j - 1) = x"
    by (auto simp: row_by_id_def split: if_splits)
  from find_id_distinct [OF assms(1) j(2)] j assms(3) show ?thesis by simp
qed

lemma filter_distinct_count:
  assumes "distinct (map f xs)" and "v \<in> f ` set xs"
  shows "length (filter (\<lambda>x. f x = v) xs) = 1"
  using assms
proof (induction xs)
  case Nil
  then show ?case by simp
next
  case (Cons x xs)
  show ?case
  proof (cases "f x = v")
    case True
    with Cons.prems have "v \<notin> f ` set xs" by simp
    then have "\<forall>y \<in> set xs. f y \<noteq> v" by (metis imageI)
    then have "filter (\<lambda>x. f x = v) xs = []" by (simp add: filter_empty_conv)
    with True show ?thesis by simp
  next
    case False
    with Cons show ?thesis by auto
  qed
qed

lemma unique_event_count:
  assumes uk: "unique_keys s"
      and aid: "find_id (\<lambda>r. taproot_output_key r = k) (addrs s) = Some aid"
      and cid: "find_id (\<lambda>r. txid r = t) (chain_txns s) = Some cid"
      and row: "row_by_id (addr_events s) i = Some row" "event_ids row = (aid, cid, idx)"
  shows "length (filter (event_of_key s k t idx) (addr_events s)) = 1"
proof -
  from uk have d: "distinct (map taproot_output_key (addrs s))" "distinct (map txid (chain_txns s))"
    "distinct (map event_ids (addr_events s))" by (simp_all add: unique_keys_def)
  from find_id_row [OF aid] obtain a where a: "row_by_id (addrs s) aid = Some a"
    "taproot_output_key a = k" by blast
  from find_id_row [OF cid] obtain c where c: "row_by_id (chain_txns s) cid = Some c"
    "txid c = t" by blast
  have eq: "event_of_key s k t idx r \<longleftrightarrow> event_ids r = (aid, cid, idx)" for r
  proof
    assume e: "event_of_key s k t idx r"
    then obtain a' c' where
      a': "row_by_id (addrs s) (addr_id r) = Some a'" "taproot_output_key a' = k"
      and c': "row_by_id (chain_txns s) (chain_txn_id r) = Some c'" "txid c' = t"
      and i': "chain_txn_output_index r = idx"
      by (auto simp: event_of_key_def split: option.splits)
    from find_id_unique [OF d(1) a'] aid have "addr_id r = aid" by simp
    moreover from find_id_unique [OF d(2) c'] cid have "chain_txn_id r = cid" by simp
    ultimately show "event_ids r = (aid, cid, idx)" using i' by (simp add: event_ids_def)
  next
    assume "event_ids r = (aid, cid, idx)"
    with a c show "event_of_key s k t idx r"
      by (simp add: event_of_key_def event_ids_def)
  qed
  from row have "(aid, cid, idx) \<in> event_ids ` set (addr_events s)"
    by (metis row_by_id_in_set imageI)
  moreover have "event_of_key s k t idx = (\<lambda>r. event_ids r = (aid, cid, idx))"
    by (rule ext) (rule eq)
  ultimately show ?thesis
    using filter_distinct_count [OF d(3)] by simp
qed

text \<open>
  What a successful call leaves: the ids under which the address, the transaction
  and the event are found, the rows behind them, and the fields of the event that
  is returned.
\<close>

lemma GetOrCreateEvent_effect:
  assumes call: "GetOrCreateEvent X s now st addr wtx idx sib = (s', Inr e)"
  shows "\<exists>aid cid row ct u ob c.
     addrs s' = addrs s \<and> asset_proofs s' = asset_proofs s \<and>
     find_id (\<lambda>r. taproot_output_key r = SchnorrSerializePubKey X (TaprootOutputKey addr))
       (addrs s') = Some aid \<and>
     find_id (\<lambda>r. txid r = TxHash X (Tx wtx)) (chain_txns s') = Some cid \<and>
     find_id (\<lambda>r. event_ids r = (aid, cid, idx)) (addr_events s') = Some (ID e) \<and>
     row_by_id (addr_events s') (ID e) = Some row \<and> event_ids row = (aid, cid, idx) \<and>
     status row = ucast st \<and>
     row_by_id (chain_txns s') cid = Some ct \<and> txid ct = TxHash X (Tx wtx) \<and>
     block_height ct
       = coalesce (if word_sless 0 (Confirmations wtx) then Some (BlockHeight wtx) else None)
           (stored_height s (TxHash X (Tx wtx))) \<and>
     row_by_id (managed_utxos s') (managed_utxo_id row) = Some u \<and>
     encodeOutpoint X \<lparr>Hash = TxHash X (Tx wtx), OutIndex = idx\<rparr> = Some ob \<and>
     outpoint u = ob \<and> AddrTaroCommitment X addr = Some c \<and>
     taro_root u = TapscriptRoot X c sib \<and>
     EventStatus e = st \<and> Addr e = addr \<and>
     ConfirmationHeight e = (case block_height ct of None \<Rightarrow> 0 | Some h \<Rightarrow> h) \<and>
     (\<forall>a k n. find_id (\<lambda>r. taproot_output_key r
                          = SchnorrSerializePubKey X (TaprootOutputKey addr)) (addrs s) = Some a \<and>
              find_id (\<lambda>r. txid r = TxHash X (Tx wtx)) (chain_txns s) = Some k \<and>
              find_id (\<lambda>r. event_ids r = (a, k, idx)) (addr_events s) = Some n
        \<longrightarrow> ID e = n \<and> cid = k \<and> length (addr_events s') = length (addr_events s)) \<and>
     (unique_keys s \<longrightarrow> unique_keys s')"
proof -
  let ?T = "TxHash X (Tx wtx)"
  let ?K = "SchnorrSerializePubKey X (TaprootOutputKey addr)"
  obtain txBuf ob od crow db1 cid c db2 uid eid where st:
    "Serialize X (Tx wtx) = Some txBuf"
    "encodeOutpoint X \<lparr>Hash = ?T, OutIndex = idx\<rparr> = Some ob"
    "unat idx < length (OutputDetails wtx)"
    "OutputDetails wtx ! unat idx = Some od"
    "chainTxUpsert X wtx ?T txBuf = Inr crow"
    "UpsertChainTx s crow = Inr (db1, cid)"
    "AddrTaroCommitment X addr = Some c"
    "UpsertManagedUTXO db1 (utxoUpsert X addr ob od sib (TapscriptRoot X c sib) cid)
       = Inr (db2, uid)"
    "UpsertAddrEvent_db db2 (eventUpsert X now st addr ?T idx uid) = Inr (s', eid)"
    "fetchEvent X s' eid addr = Inr e"
    by (rule GetOrCreateEvent_Inr [OF call])
  let ?arg = "eventUpsert X now st addr ?T idx uid"
  note f1 = UpsertChainTx_frame [OF st(6)]
  note f2 = UpsertManagedUTXO_frame [OF st(8)]
  note f3 = UpsertAddrEvent_db_frame [OF st(9)]
  from chainTxUpsert_Inr [OF st(5)] have crow: "txid crow = ?T"
    "block_height crow
       = (if word_sless 0 (Confirmations wtx) then Some (BlockHeight wtx) else None)"
    by auto
  have arg: "upTaprootOutputKey ?arg = ?K" "upTxid ?arg = ?T" "upChainTxnOutputIndex ?arg = idx"
    "upStatus ?arg = ucast st" "upManagedUtxoID ?arg = uid"
    by (simp_all add: eventUpsert_def)
  \<comment> \<open>the chain transaction\<close>
  have chain: "find_id (\<lambda>r. txid r = ?T) (chain_txns db1) = Some cid \<and>
      (\<exists>ct. row_by_id (chain_txns db1) cid = Some ct \<and> txid ct = ?T \<and>
         block_height ct = coalesce (block_height crow) (stored_height s ?T)) \<and>
      (\<forall>k. find_id (\<lambda>r. txid r = ?T) (chain_txns s) = Some k \<longrightarrow> cid = k)"
  proof (cases "find_id (\<lambda>r. txid r = ?T) (chain_txns s)")
    case None
    with UpsertChainTx_new [of crow s db1 cid] st(6) crow(1) show ?thesis
      by (auto simp: stored_height_def coalesce_def split: option.splits)
  next
    case (Some k)
    from find_id_row [OF Some] obtain old where
      old: "row_by_id (chain_txns s) k = Some old" "txid old = ?T" by blast
    with Some UpsertChainTx_known [of crow s k db1 cid] st(6) crow(1) show ?thesis
      by (auto simp: stored_height_def)
  qed
  then obtain ct where ct: "find_id (\<lambda>r. txid r = ?T) (chain_txns db1) = Some cid"
    "row_by_id (chain_txns db1) cid = Some ct" "txid ct = ?T"
    "block_height ct = coalesce (block_height crow) (stored_height s ?T)"
    "\<forall>k. find_id (\<lambda>r. txid r = ?T) (chain_txns s) = Some k \<longrightarrow> cid = k"
    by blast
  \<comment> \<open>the UTXO\<close>
  from UpsertManagedUTXO_target [OF st(8)] obtain u where
    u: "row_by_id (managed_utxos db2) uid = Some u" "outpoint u = ob"
      "taro_root u = TapscriptRoot X c sib"
    by (auto simp: utxoUpsert_def)
  \<comment> \<open>the event\<close>
  obtain aid cid' where res: "status_valid (upStatus ?arg)"
    "find_id (\<lambda>r. taproot_output_key r = upTaprootOutputKey ?arg) (addrs db2) = Some aid"
    "find_id (\<lambda>r. txid r = upTxid ?arg) (chain_txns db2) = Some cid'"
    by (rule UpsertAddrEvent_db_resolves [OF st(9)])
  from res(3) ct(1) f2 have cid': "cid' = cid" by (simp add: arg)
  have ev: "find_id (\<lambda>r. event_ids r = (aid, cid, idx)) (addr_events s') = Some eid \<and>
      (\<exists>row. row_by_id (addr_events s') eid = Some row \<and> event_ids row = (aid, cid, idx) \<and>
         status row = ucast st \<and> managed_utxo_id row = uid) \<and>
      (\<forall>n. find_id (\<lambda>r. event_ids r = (aid, cid, idx)) (addr_events db2) = Some n
         \<longrightarrow> eid = n \<and> length (addr_events s') = length (addr_events db2)) \<and>
      (distinct (map event_ids (addr_events db2)) \<longrightarrow> distinct (map event_ids (addr_events s')))"
  proof (cases "find_id (\<lambda>r. event_ids r = (aid, cid, idx)) (addr_events db2)")
    case None
    let ?new = "\<lparr>event_creation_time = to_db_time (upCreationTime ?arg), addr_id = aid,
                   status = upStatus ?arg, chain_txn_id = cid',
                   chain_txn_output_index = upChainTxnOutputIndex ?arg,
                   managed_utxo_id = upManagedUtxoID ?arg,
                   asset_proof_id = upAssetProofID ?arg, asset_id = upAssetID ?arg\<rparr>"
    from None cid' have none: "find_id (\<lambda>r. event_ids r
        = (aid, cid', upChainTxnOutputIndex ?arg)) (addr_events db2) = None"
      by (simp add: arg)
    note n = UpsertAddrEvent_db_new [OF res(2) res(3) none st(9)]
    from n have n1: "find_id (\<lambda>r. event_ids r = (aid, cid', upChainTxnOutputIndex ?arg))
        (addr_events s') = Some eid"
      and 2: "row_by_id (addr_events s') eid = Some ?new"
      and n2: "map event_ids (addr_events s') = map event_ids (addr_events db2)
                 @ [(aid, cid', upChainTxnOutputIndex ?arg)]"
      and n3: "(aid, cid', upChainTxnOutputIndex ?arg) \<notin> set (map event_ids (addr_events db2))"
      by blast+
    from n1 cid' have 1: "find_id (\<lambda>r. event_ids r = (aid, cid, idx)) (addr_events s') = Some eid"
      by (simp add: arg)
    have 3: "event_ids ?new = (aid, cid, idx)" "status ?new = ucast st"
      "managed_utxo_id ?new = uid"
      using cid' by (simp_all add: event_ids_def arg)
    from n2 n3 have 4: "distinct (map event_ids (addr_events db2))
        \<longrightarrow> distinct (map event_ids (addr_events s'))"
      by simp
    show ?thesis
    proof (intro conjI)
      show "find_id (\<lambda>r. event_ids r = (aid, cid, idx)) (addr_events s') = Some eid"
        by (rule 1)
      show "\<exists>row. row_by_id (addr_events s') eid = Some row \<and>
          event_ids row = (aid, cid, idx) \<and> status row = ucast st \<and> managed_utxo_id row = uid"
        using 2 3 by blast
      show "\<forall>n. find_id (\<lambda>r. event_ids r = (aid, cid, idx)) (addr_events db2) = Some n
         \<longrightarrow> eid = n \<and> length (addr_events s') = length (addr_events db2)"
        using None by simp
      show "distinct (map event_ids (addr_events db2))
         \<longrightarrow> distinct (map event_ids (addr_events s'))"
        by (rule 4)
    qed
  next
    case (Some n)
    from Some cid' have some: "find_id (\<lambda>r. event_ids r
        = (aid, cid', upChainTxnOutputIndex ?arg)) (addr_events db2) = Some n"
      by (simp add: arg)
    from UpsertAddrEvent_db_known [OF res(2) res(3) some st(9)] cid'
    obtain old where "eid = n" "length (addr_events s') = length (addr_events db2)"
      "map event_ids (addr_events s') = map event_ids (addr_events db2)"
      "find_id (\<lambda>r. event_ids r = (aid, cid, idx)) (addr_events s') = Some n"
      "row_by_id (addr_events db2) n = Some old"
      "row_by_id (addr_events s') n
         = Some (old\<lparr>status := upStatus ?arg, managed_utxo_id := upManagedUtxoID ?arg,
              asset_proof_id := coalesce (upAssetProofID ?arg) (asset_proof_id old),
              asset_id := coalesce (upAssetID ?arg) (asset_id old)\<rparr>)"
      by (auto simp: arg)
    moreover from find_id_row [OF Some] \<open>row_by_id (addr_events db2) n = Some old\<close>
    have "event_ids old = (aid, cid, idx)" by simp
    ultimately show ?thesis using Some
      by (simp add: arg event_ids_def)
  qed
  then obtain row where row: "find_id (\<lambda>r. event_ids r = (aid, cid, idx)) (addr_events s') = Some eid"
    "row_by_id (addr_events s') eid = Some row" "event_ids row = (aid, cid, idx)"
    "status row = ucast st" "managed_utxo_id row = uid"
    and known: "\<forall>n. find_id (\<lambda>r. event_ids r = (aid, cid, idx)) (addr_events db2) = Some n
         \<longrightarrow> eid = n \<and> length (addr_events s') = length (addr_events db2)"
    and dist: "distinct (map event_ids (addr_events db2))
         \<longrightarrow> distinct (map event_ids (addr_events s'))"
    by blast
  \<comment> \<open>the event that is returned\<close>
  from fetchEvent_Inr [OF st(10)] row(2) obtain ct' where
    e: "row_by_id (chain_txns s') (chain_txn_id row) = Some ct'" "ID e = eid" "Addr e = addr"
      "EventStatus e = ucast (status row)"
      "ConfirmationHeight e = (case block_height ct' of None \<Rightarrow> 0 | Some h \<Rightarrow> h)"
    by auto
  from row(3) have "chain_txn_id row = cid" by (simp add: event_ids_def)
  with e(1) ct(2) f2 f3 have ct': "ct' = ct" by simp
  have uk: "unique_keys s \<longrightarrow> unique_keys s'"
    using UpsertChainTx_distinct [OF st(6)] dist f1 f2 f3
    by (auto simp: unique_keys_def)
  have kn: "\<forall>a k n. find_id (\<lambda>r. taproot_output_key r = ?K) (addrs s) = Some a \<and>
              find_id (\<lambda>r. txid r = ?T) (chain_txns s) = Some k \<and>
              find_id (\<lambda>r. event_ids r = (a, k, idx)) (addr_events s) = Some n
        \<longrightarrow> ID e = n \<and> cid = k \<and> length (addr_events s') = length (addr_events s)"
  proof (intro allI impI)
    fix a k n
    assume h: "find_id (\<lambda>r. taproot_output_key r = ?K) (addrs s) = Some a \<and>
              find_id (\<lambda>r. txid r = ?T) (chain_txns s) = Some k \<and>
              find_id (\<lambda>r. event_ids r = (a, k, idx)) (addr_events s) = Some n"
    with res(2) f1 f2 have "a = aid" by (simp add: arg)
    moreover from h ct(5) have "cid = k" by simp
    ultimately show "ID e = n \<and> cid = k \<and> length (addr_events s') = length (addr_events s)"
      using h known f1 f2 e(2) by simp
  qed
  from res(2) f1 f2 f3 have a: "find_id (\<lambda>r. taproot_output_key r = ?K) (addrs s') = Some aid"
    "addrs s' = addrs s" "asset_proofs s' = asset_proofs s"
    by (simp_all add: arg)
  from ct f2 f3 have c': "find_id (\<lambda>r. txid r = ?T) (chain_txns s') = Some cid"
    "row_by_id (chain_txns s') cid = Some ct" by simp_all
  from u f3 row(5) have u': "row_by_id (managed_utxos s') (managed_utxo_id row) = Some u"
    by simp
  from e(4) row(4) have es: "EventStatus e = st" by (simp add: ucast_16_8_id)
  show ?thesis
    apply (rule exI [of _ aid], rule exI [of _ cid], rule exI [of _ row],
        rule exI [of _ ct], rule exI [of _ u], rule exI [of _ ob],
        rule exI [of _ c])
    using a c' row(1-4) e(2,3,5) ct(3,4) crow(2) u' u(2,3) st(2,7) es kn uk ct'
    by simp blast
qed

section \<open>Reporting the same output twice\<close>

lemma stored_height_found:
  assumes "find_id (\<lambda>r. txid r = t) (chain_txns s) = Some k"
      and "row_by_id (chain_txns s) k = Some c"
  shows "stored_height s t = block_height c"
  using assms by (simp add: stored_height_def)

text \<open>
  Claim C1.  In a store whose tables have unique keys, two successful calls of
  GetOrCreateEvent for the same address, transaction id and output index, with any
  statuses and tapscript siblings, return the same event id; the second call adds no
  event row, and exactly one event row carries that taproot output key, transaction id
  and output index.  The event returned by the second call has the second call's
  status, and its row has that status and points to a managed UTXO with the outpoint of
  the call and the commitment root computed from the second call's tapscript sibling.
  Its confirmation height is the block height of the second call's transaction when
  that transaction has confirmations; a transaction without confirmations supplies no
  height, and the height of the first call is kept.
\<close>

theorem GetOrCreateEvent_upsert:
  assumes uk: "unique_keys s"
      and c1: "GetOrCreateEvent X s now1 st1 addr wtx1 idx sib1 = (s1, Inr e1)"
      and c2: "GetOrCreateEvent X s1 now2 st2 addr wtx2 idx sib2 = (s2, Inr e2)"
      and tx: "TxHash X (Tx wtx2) = TxHash X (Tx wtx1)"
  shows "ID e2 = ID e1 \<and>
     length (addr_events s2) = length (addr_events s1) \<and>
     length (filter (event_of_key s2 (SchnorrSerializePubKey X (TaprootOutputKey addr))
                       (TxHash X (Tx wtx1)) idx) (addr_events s2)) = 1 \<and>
     Addr e2 = addr \<and> EventStatus e2 = st2 \<and>
     ConfirmationHeight e2
       = (if word_sless 0 (Confirmations wtx2) then BlockHeight wtx2
          else ConfirmationHeight e1) \<and>
     (\<exists>row u c. row_by_id (addr_events s2) (ID e2) = Some row \<and>
        event_of_key s2 (SchnorrSerializePubKey X (TaprootOutputKey addr))
          (TxHash X (Tx wtx1)) idx row \<and>
        status row = ucast st2 \<and>
        row_by_id (managed_utxos s2) (managed_utxo_id row) = Some u \<and>
        encodeOutpoint X \<lparr>Hash = TxHash X (Tx wtx1), OutIndex = idx\<rparr> = Some (outpoint u) \<and>
        AddrTaroCommitment X addr = Some c \<and>
        taro_root u = TapscriptRoot X c sib2)"
proof -
  let ?K = "SchnorrSerializePubKey X (TaprootOutputKey addr)"
  let ?T = "TxHash X (Tx wtx1)"
  from GetOrCreateEvent_effect [OF c1] obtain aid1 cid1 ct1 where first:
    "addrs s1 = addrs s"
    "find_id (\<lambda>r. taproot_output_key r = ?K) (addrs s1) = Some aid1"
    "find_id (\<lambda>r. txid r = ?T) (chain_txns s1) = Some cid1"
    "find_id (\<lambda>r. event_ids r = (aid1, cid1, idx)) (addr_events s1) = Some (ID e1)"
    "row_by_id (chain_txns s1) cid1 = Some ct1"
    "ConfirmationHeight e1 = (case block_height ct1 of None \<Rightarrow> 0 | Some h \<Rightarrow> h)"
    "unique_keys s \<longrightarrow> unique_keys s1"
    by blast
  from first(7) uk have uk1: "unique_keys s1" by simp
  from GetOrCreateEvent_effect [OF c2, unfolded tx] obtain aid2 cid2 row ct2 u ob c where second:
    "find_id (\<lambda>r. taproot_output_key r = ?K) (addrs s2) = Some aid2"
    "find_id (\<lambda>r. txid r = ?T) (chain_txns s2) = Some cid2"
    "row_by_id (addr_events s2) (ID e2) = Some row" "event_ids row = (aid2, cid2, idx)"
    "status row = ucast st2"
    "row_by_id (chain_txns s2) cid2 = Some ct2" "txid ct2 = ?T"
    "block_height ct2
       = coalesce (if word_sless 0 (Confirmations wtx2) then Some (BlockHeight wtx2) else None)
           (stored_height s1 ?T)"
    "row_by_id (managed_utxos s2) (managed_utxo_id row) = Some u"
    "encodeOutpoint X \<lparr>Hash = ?T, OutIndex = idx\<rparr> = Some ob" "outpoint u = ob"
    "AddrTaroCommitment X addr = Some c" "taro_root u = TapscriptRoot X c sib2"
    "EventStatus e2 = st2" "Addr e2 = addr"
    "ConfirmationHeight e2 = (case block_height ct2 of None \<Rightarrow> 0 | Some h \<Rightarrow> h)"
    and known: "\<forall>a k n. find_id (\<lambda>r. taproot_output_key r = ?K) (addrs s1) = Some a \<and>
              find_id (\<lambda>r. txid r = ?T) (chain_txns s1) = Some k \<and>
              find_id (\<lambda>r. event_ids r = (a, k, idx)) (addr_events s1) = Some n
        \<longrightarrow> ID e2 = n \<and> cid2 = k \<and> length (addr_events s2) = length (addr_events s1)"
    and uk2: "unique_keys s1 \<longrightarrow> unique_keys s2"
    by (elim exE conjE) (rule that)
  from known first(2,3,4) have same: "ID e2 = ID e1" "cid2 = cid1"
    "length (addr_events s2) = length (addr_events s1)" by blast+
  from uk1 uk2 have u2: "unique_keys s2" by simp
  have one: "length (filter (event_of_key s2 ?K ?T idx) (addr_events s2)) = 1"
    by (rule unique_event_count [OF u2 second(1,2,3,4)])
  from find_id_row [OF second(1)] obtain a where a: "row_by_id (addrs s2) aid2 = Some a"
    "taproot_output_key a = ?K" by blast
  from second(4) a second(6,7) have key: "event_of_key s2 ?K ?T idx row"
    by (simp add: event_of_key_def event_ids_def)
  from stored_height_found [OF first(3,5)] second(8)
  have "block_height ct2
       = coalesce (if word_sless 0 (Confirmations wtx2) then Some (BlockHeight wtx2) else None)
           (block_height ct1)" by simp
  with second(16) first(6) have height: "ConfirmationHeight e2
       = (if word_sless 0 (Confirmations wtx2) then BlockHeight wtx2
          else ConfirmationHeight e1)"
    by (simp add: coalesce_def)
  from second(3,5,9,10,11,12,13) key
  have link: "\<exists>row u c. row_by_id (addr_events s2) (ID e2) = Some row \<and>
        event_of_key s2 ?K ?T idx row \<and> status row = ucast st2 \<and>
        row_by_id (managed_utxos s2) (managed_utxo_id row) = Some u \<and>
        encodeOutpoint X \<lparr>Hash = ?T, OutIndex = idx\<rparr> = Some (outpoint u) \<and>
        AddrTaroCommitment X addr = Some c \<and>
        taro_root u = TapscriptRoot X c sib2"
    by blast
  from same(1,3) one second(14,15) height link show ?thesis by blast
qed

theorem GetOrCreateEvent_upsert_witness:
  "unique_keys demo_store \<and>
   GetOrCreateEvent demo_ext demo_store demo_now StatusTransactionDetected (demo_addr 10)
       demo_tx 0 None
     = (demo_events, Inr (demo_event (demo_addr 10))) \<and>
   GetOrCreateEvent demo_ext demo_events demo_later StatusTransactionConfirmed (demo_addr 10)
       demo_confirmed_tx 0 (Some [7])
     = (demo_confirmed,
        Inr ((demo_event (demo_addr 10))\<lparr>EventStatus := StatusTransactionConfirmed,
               TapscriptSibling := Some [7], ConfirmationHeight := 700\<rparr>)) \<and>
   length (addr_events demo_confirmed) = length (addr_events demo_events) \<and>
   length (filter (event_of_key demo_confirmed
                     (SchnorrSerializePubKey demo_ext (TaprootOutputKey (demo_addr 10)))
                     (TxHash demo_ext (Tx demo_tx)) 0) (addr_events demo_confirmed)) = 1 \<and>
   (\<exists>row u c. row_by_id (addr_events demo_confirmed) 1 = Some row \<and>
        event_of_key demo_confirmed
          (SchnorrSerializePubKey demo_ext (TaprootOutputKey (demo_addr 10)))
          (TxHash demo_ext (Tx demo_tx)) 0 row \<and>
        status row = ucast StatusTransactionConfirmed \<and>
        row_by_id (managed_utxos demo_confirmed) (managed_utxo_id row) = Some u \<and>
        encodeOutpoint demo_ext \<lparr>Hash = TxHash demo_ext (Tx demo_tx), OutIndex = 0\<rparr>
          = Some (outpoint u) \<and>
        AddrTaroCommitment demo_ext (demo_addr 10) = Some c \<and>
        taro_root u = TapscriptRoot demo_ext c (Some [7]))"
proof -
  have u: "unique_keys demo_store" by code_simp
  have c1: "GetOrCreateEvent demo_ext demo_store demo_now StatusTransactionDetected
       (demo_addr 10) demo_tx 0 None
     = (demo_events, Inr (demo_event (demo_addr 10)))"
    by code_simp
  have c2: "GetOrCreateEvent demo_ext demo_events demo_later StatusTransactionConfirmed
       (demo_addr 10) demo_confirmed_tx 0 (Some [7])
     = (demo_confirmed,
        Inr ((demo_event (demo_addr 10))\<lparr>EventStatus := StatusTransactionConfirmed,
               TapscriptSibling := Some [7], ConfirmationHeight := 700\<rparr>))"
    by code_simp
  have t: "TxHash demo_ext (Tx demo_confirmed_tx) = TxHash demo_ext (Tx demo_tx)"
    by code_simp
  have i: "ID (demo_event (demo_addr 10)) = 1"
    by (simp add: demo_event_def)
  from GetOrCreateEvent_upsert [OF u c1 c2 t] u c1 c2 show ?thesis
    by (simp add: i)
qed

section \<open>Completing an event\<close>
















end
